(* ===== verification/Prelude.thy ===== *)
theory Prelude
  imports Complex_Main "HOL-Library.AList"
begin

text \<open>
  Vocabulary shared by every component: results of code that may raise, the traversal of a list
  by such code, Python dictionaries as association lists in insertion order, and the collections
  the proofs of the components use.
\<close>

named_theorems dict_simps \<open>lookups in dictionaries after an update\<close>
named_theorems op_defs \<open>definitions of the operations of a component\<close>

section \<open>Results\<close>

text \<open>A computation that may raise returns \<open>Inl\<close> the exception or \<open>Inr\<close> its value.\<close>

type_synonym ('e, 'a) result = "'e + 'a"

definition bind_res :: "('e, 'a) result \<Rightarrow> ('a \<Rightarrow> ('e, 'b) result) \<Rightarrow> ('e, 'b) result" where
  "bind_res r f = (case r of Inl e \<Rightarrow> Inl e | Inr x \<Rightarrow> f x)"

lemma bind_res_simps [simp]:
  "bind_res (Inl e) f = Inl e"
  "bind_res (Inr x) f = f x"
  by (simp_all add: bind_res_def)

lemma bind_res_Inr_iff: "bind_res r f = Inr y \<longleftrightarrow> (\<exists>x. r = Inr x \<and> f x = Inr y)"
  by (cases r) auto

lemma bind_res_Inl_iff: "bind_res r f = Inl e \<longleftrightarrow> r = Inl e \<or> (\<exists>x. r = Inr x \<and> f x = Inl e)"
  by (cases r) auto

lemma bind_res_cong [fundef_cong]:
  "\<lbrakk> r = r'; \<And>x. r' = Inr x \<Longrightarrow> f x = f' x \<rbrakk> \<Longrightarrow> bind_res r f = bind_res r' f'"
  by (cases r') auto

text \<open>A list comprehension whose element expression may raise: the first failure wins.\<close>

fun traverse :: "('a \<Rightarrow> ('e, 'b) result) \<Rightarrow> 'a list \<Rightarrow> ('e, 'b list) result" where
  "traverse f [] = Inr []"
| "traverse f (x # xs) =
     (case f x of
        Inl e \<Rightarrow> Inl e
      | Inr y \<Rightarrow> (case traverse f xs of Inl e \<Rightarrow> Inl e | Inr ys \<Rightarrow> Inr (y # ys)))"

lemma traverse_cong [fundef_cong]:
  "\<lbrakk> xs = ys; \<And>x. x \<in> set ys \<Longrightarrow> f x = g x \<rbrakk> \<Longrightarrow> traverse f xs = traverse g ys"
proof (induction xs arbitrary: ys)
  case Nil
  then show ?case by simp
next
  case (Cons x xs)
  then show ?case by (auto split: sum.splits)
qed

lemma traverse_Cons_Inr:
  "traverse f (x # xs) = Inr zs \<longleftrightarrow> (\<exists>y ys. zs = y # ys \<and> f x = Inr y \<and> traverse f xs = Inr ys)"
  by (auto split: sum.splits)

lemma traverse_Inr_iff: "traverse f xs = Inr ys \<longleftrightarrow> list_all2 (\<lambda>x y. f x = Inr y) xs ys"
proof (induction xs arbitrary: ys)
  case Nil
  then show ?case by (cases ys) auto
next
  case (Cons x xs)
  then show ?case by (cases ys) (auto simp: traverse_Cons_Inr simp del: traverse.simps)
qed

lemma traverse_all_Inr: "(\<And>x. x \<in> set xs \<Longrightarrow> f x = Inr (g x)) \<Longrightarrow> traverse f xs = Inr (map g xs)"
  by (induction xs) auto

lemma traverse_ex_Inl: "(\<exists>e. traverse f xs = Inl e) \<longleftrightarrow> (\<exists>x \<in> set xs. \<exists>e. f x = Inl e)"
  by (induction xs) (auto split: sum.splits)

lemma traverse_Inl_elem: "traverse f xs = Inl e \<Longrightarrow> \<exists>x \<in> set xs. f x = Inl e"
  by (induction xs) (auto split: sum.splits)

lemma traverse_all:
  "traverse f xs = Inr ys \<Longrightarrow> (\<And>x y. x \<in> set xs \<Longrightarrow> f x = Inr y \<Longrightarrow> P y) \<Longrightarrow> list_all P ys"
  by (induction xs arbitrary: ys) (fastforce split: sum.splits)+

lemma map_sum_Inr_iff: "map_sum f g x = Inr y \<longleftrightarrow> (\<exists>z. x = Inr z \<and> y = g z)"
  by (cases x) auto

lemma map_sum_Inl_iff: "map_sum f g x = Inl y \<longleftrightarrow> (\<exists>z. x = Inl z \<and> y = f z)"
  by (cases x) auto

section \<open>Dictionaries\<close>

text \<open>
  A Python \<open>dict\<close> keeps insertion order: assigning to a present key keeps its position, a new
  key goes to the end. This is \<open>AList.update\<close>; \<open>d.update(p)\<close> assigns the pairs of \<open>p\<close> in turn.
\<close>

type_synonym ('k, 'v) pdict = "('k \<times> 'v) list"

definition dict_set :: "'k \<Rightarrow> 'v \<Rightarrow> ('k, 'v) pdict \<Rightarrow> ('k, 'v) pdict" where
  "dict_set k v d = AList.update k v d"

definition dict_get :: "('k, 'v) pdict \<Rightarrow> 'k \<Rightarrow> 'v option" where
  "dict_get d k = map_of d k"

definition dict_has :: "('k, 'v) pdict \<Rightarrow> 'k \<Rightarrow> bool" where
  "dict_has d k \<longleftrightarrow> dict_get d k \<noteq> None"

fun dict_update :: "('k, 'v) pdict \<Rightarrow> ('k, 'v) pdict \<Rightarrow> ('k, 'v) pdict" where
  "dict_update d [] = d"
| "dict_update d ((k, v) # p) = dict_update (dict_set k v d) p"

definition dict_of :: "('k, 'v) pdict \<Rightarrow> ('k, 'v) pdict" where
  "dict_of ps = dict_update [] ps"

definition dict_ok :: "('k, 'v) pdict \<Rightarrow> bool" where
  "dict_ok d \<longleftrightarrow> distinct (map fst d)"

lemma dict_get_Nil [simp]: "dict_get [] k = None"
  by (simp add: dict_get_def)

lemma dict_get_Cons [simp]: "dict_get ((k', v) # d) k = (if k' = k then Some v else dict_get d k)"
  by (simp add: dict_get_def)

lemma dict_get_set [simp, dict_simps]: "dict_get (dict_set k v d) k' = (if k = k' then Some v else dict_get d k')"
  by (simp add: dict_get_def dict_set_def update_conv)

lemma dict_set_Nil [simp]: "dict_set k v [] = [(k, v)]"
  by (simp add: dict_set_def)

lemma dict_set_Cons [simp]:
  "dict_set k v ((k', v') # d) = (if k = k' then (k, v) # d else (k', v') # dict_set k v d)"
  by (auto simp: dict_set_def)

lemma dict_has_set [simp, dict_simps]: "dict_has (dict_set k v d) k' \<longleftrightarrow> k = k' \<or> dict_has d k'"
  by (auto simp: dict_has_def)

lemma dict_ok_Nil [simp]: "dict_ok []"
  by (simp add: dict_ok_def)

lemma dict_ok_set [simp]: "dict_ok d \<Longrightarrow> dict_ok (dict_set k v d)"
  by (simp add: dict_ok_def dict_set_def distinct_update)

lemma dict_ok_update [simp]: "dict_ok d \<Longrightarrow> dict_ok (dict_update d p)"
  by (induction d p rule: dict_update.induct) auto

lemma dict_ok_of [simp]: "dict_ok (dict_of p)"
  by (simp add: dict_of_def)

lemma dict_get_None_iff: "dict_get d k = None \<longleftrightarrow> k \<notin> fst ` set d"
  by (simp add: dict_get_def map_of_eq_None_iff)

lemma dict_get_update [dict_simps]:
  "dict_ok p \<Longrightarrow> dict_get (dict_update d p) k = (case dict_get p k of Some v \<Rightarrow> Some v | None \<Rightarrow> dict_get d k)"
proof (induction d p rule: dict_update.induct)
  case (1 d)
  then show ?case by simp
next
  case (2 d k' v p)
  then have ok: "dict_ok p" and "k' \<notin> fst ` set p" by (auto simp: dict_ok_def)
  then have new: "dict_get p k' = None" by (simp add: dict_get_None_iff)
  from 2(1) [OF ok] new show ?case by (auto split: option.split)
qed

lemma dict_set_keys: "map fst (dict_set k v d) = (if k \<in> fst ` set d then map fst d else map fst d @ [k])"
  by (induction d) (auto split: if_splits)

lemma dict_set_fresh: "k \<notin> fst ` set d \<Longrightarrow> dict_set k v d = d @ [(k, v)]"
  by (induction d) auto

lemma dict_update_fresh:
  "dict_ok p \<Longrightarrow> fst ` set d \<inter> fst ` set p = {} \<Longrightarrow> dict_update d p = d @ p"
proof (induction d p rule: dict_update.induct)
  case (1 d)
  then show ?case by simp
next
  case (2 d k v p)
  then have "k \<notin> fst ` set d" by auto
  with 2 show ?case by (auto simp: dict_set_fresh dict_ok_def)
qed

text \<open>Copying a well-formed dictionary gives an equal one.\<close>

lemma dict_of_id [simp]: "dict_ok p \<Longrightarrow> dict_of p = p"
  by (simp add: dict_of_def dict_update_fresh)

lemma dict_get_in_set: "dict_get d k = Some v \<Longrightarrow> (k, v) \<in> set d"
  by (simp add: dict_get_def map_of_SomeD)

lemma set_dict_set_subset: "set (dict_set k v d) \<subseteq> insert (k, v) (set d)"
  by (induction d) (auto split: if_splits)

lemma set_dict_update_subset: "set (dict_update d p) \<subseteq> set d \<union> set p"
proof (induction d p rule: dict_update.induct)
  case (1 d)
  then show ?case by simp
next
  case (2 d k v p)
  then show ?case using set_dict_set_subset [of k v d] by auto
qed

lemma set_dict_of_subset: "set (dict_of p) \<subseteq> set p"
  using set_dict_update_subset [of "[]" p] by (simp add: dict_of_def)

end
