(* ===== verification/Exceptions.thy ===== *)
theory Exceptions
  imports Prelude
begin

text \<open>
  The exception classes of the framework with Python's \<open>isinstance\<close> relation between them, and
  exception objects as values. Sources: \<open>exceptions/__init__.py\<close>, and the exception classes the
  other modules declare next to the code that raises them. An exception object carries its class
  and the two attributes the dispatcher sets on it (\<open>_chattice_stage\<close>, \<open>_chattice_handler\<close>);
  message texts are presentation and are left out.
\<close>

section \<open>Classes\<close>

datatype framework_exn =
    ChatticeError | RoutingError | RouterConfigurationError | DependencyResolutionError
  | InvalidHandlerError | UnhandledInteractionError | FilterError | ContextConflictError
  | AssetError | AssetPublisherNotConfigured | AssetPublishError
  | RoutingControl | SkipHandler | StopPropagation

datatype wire_exn =
    GoogleInteractionError | InvalidInteractionPayload | ConflictingEnvelopeError
  | UnsupportedEnvelopeError | HTTPInteractionError | VerificationError | DoubleResponseError
  | PubSubEnvelopeError | WorkspaceEventError

datatype client_exn =
    ChatAPIError | ChatNotFoundError | ChatAlreadyExistsError | ChatPermissionDeniedError
  | ChatInvalidArgumentError | ChatRateLimitError | ChatServiceUnavailableError
  | ChatUnauthenticatedError

datatype state_exn =
    CapabilityNotSupported | UnknownOperation | FSMRecordConflict | FSMError
  | ActionDataDecodeError | FormDecodeError

text \<open>
  Python's own classes, and those of the application: a subclass of \<open>Exception\<close>, or one of
  \<open>BaseException\<close> only.
\<close>

datatype py_exn =
    BaseExceptionC | ExceptionC | TypeErr | ValueErr | LookupErr | KeyErr | IndexErr
  | AttributeErr | RuntimeErr | NotImplementedErr | OSErr | FileNotFoundErr | CancelledError
  | AppException string | AppBaseException string

datatype exn_class =
    Fw framework_exn | Wire wire_exn | Api client_exn | St state_exn | Py py_exn

text \<open>The hierarchy of \<open>exceptions/__init__.py\<close>.\<close>

fun framework_base :: "framework_exn \<Rightarrow> exn_class" where
  "framework_base ChatticeError = Py ExceptionC"
| "framework_base RoutingError = Fw ChatticeError"
| "framework_base RouterConfigurationError = Fw RoutingError"
| "framework_base DependencyResolutionError = Fw RoutingError"
| "framework_base InvalidHandlerError = Fw RoutingError"
| "framework_base UnhandledInteractionError = Fw RoutingError"
| "framework_base FilterError = Fw RoutingError"
| "framework_base ContextConflictError = Fw FilterError"
| "framework_base AssetError = Fw ChatticeError"
| "framework_base AssetPublisherNotConfigured = Fw AssetError"
| "framework_base AssetPublishError = Fw AssetError"
| "framework_base RoutingControl = Py BaseExceptionC"
| "framework_base SkipHandler = Fw RoutingControl"
| "framework_base StopPropagation = Fw RoutingControl"

text \<open>
  \<open>adapters/google_chat/exceptions.py\<close>, \<open>transports/http/errors.py\<close>, and the single classes of
  \<open>transports/pubsub.py\<close> and \<open>workspace_events/envelope.py\<close>.
\<close>

fun wire_base :: "wire_exn \<Rightarrow> exn_class" where
  "wire_base GoogleInteractionError = Py ValueErr"
| "wire_base InvalidInteractionPayload = Wire GoogleInteractionError"
| "wire_base ConflictingEnvelopeError = Wire GoogleInteractionError"
| "wire_base UnsupportedEnvelopeError = Wire GoogleInteractionError"
| "wire_base HTTPInteractionError = Py ValueErr"
| "wire_base VerificationError = Wire HTTPInteractionError"
| "wire_base DoubleResponseError = Wire HTTPInteractionError"
| "wire_base PubSubEnvelopeError = Py ValueErr"
| "wire_base WorkspaceEventError = Py ValueErr"

text \<open>The classes of \<open>client/errors.py\<close>.\<close>

fun client_base :: "client_exn \<Rightarrow> exn_class" where
  "client_base ChatAPIError = Py ExceptionC"
| "client_base e = Api ChatAPIError"

text \<open>Single classes declared beside the code that raises them.\<close>

fun state_base :: "state_exn \<Rightarrow> exn_class" where
  "state_base CapabilityNotSupported = Py RuntimeErr"
| "state_base UnknownOperation = Py KeyErr"
| "state_base FSMRecordConflict = Py RuntimeErr"
| "state_base FSMError = Py RuntimeErr"
| "state_base ActionDataDecodeError = Py ValueErr"
| "state_base FormDecodeError = Py ValueErr"

fun py_base :: "py_exn \<Rightarrow> exn_class option" where
  "py_base BaseExceptionC = None"
| "py_base ExceptionC = Some (Py BaseExceptionC)"
| "py_base KeyErr = Some (Py LookupErr)"
| "py_base IndexErr = Some (Py LookupErr)"
| "py_base NotImplementedErr = Some (Py RuntimeErr)"
| "py_base FileNotFoundErr = Some (Py OSErr)"
| "py_base CancelledError = Some (Py BaseExceptionC)"
| "py_base (AppBaseException n) = Some (Py BaseExceptionC)"
| "py_base c = Some (Py ExceptionC)"

fun base_class :: "exn_class \<Rightarrow> exn_class option" where
  "base_class (Fw e) = Some (framework_base e)"
| "base_class (Wire e) = Some (wire_base e)"
| "base_class (Api e) = Some (client_base e)"
| "base_class (St e) = Some (state_base e)"
| "base_class (Py e) = py_base e"

text \<open>\<open>__mro__\<close>: a class and its bases. The longest chain has six classes.\<close>

fun mro_upto :: "nat \<Rightarrow> exn_class \<Rightarrow> exn_class list" where
  "mro_upto 0 c = []"
| "mro_upto (Suc n) c = c # (case base_class c of None \<Rightarrow> [] | Some b \<Rightarrow> mro_upto n b)"

definition issubclass :: "exn_class \<Rightarrow> exn_class \<Rightarrow> bool" where
  "issubclass c d \<longleftrightarrow> d \<in> set (mro_upto 6 c)"

lemma issubclass_refl: "issubclass c c"
  by (simp add: issubclass_def eval_nat_numeral)

text \<open>Six steps reach \<open>BaseException\<close> from every class, so no base is cut off.\<close>

lemma mro_complete: "last (mro_upto 6 c) = Py BaseExceptionC"
proof (cases c)
  case (Fw e)
  then show ?thesis by (cases e) (simp_all add: eval_nat_numeral)
next
  case (Wire e)
  then show ?thesis by (cases e) (simp_all add: eval_nat_numeral)
next
  case (Api e)
  then show ?thesis by (cases e) (simp_all add: eval_nat_numeral)
next
  case (St e)
  then show ?thesis by (cases e) (simp_all add: eval_nat_numeral)
next
  case (Py e)
  then show ?thesis by (cases e) (simp_all add: eval_nat_numeral)
qed

definition is_exception :: "exn_class \<Rightarrow> bool" where
  "is_exception c \<longleftrightarrow> issubclass c (Py ExceptionC)"

definition is_control :: "exn_class \<Rightarrow> bool" where
  "is_control c \<longleftrightarrow> c = Fw SkipHandler \<or> c = Fw StopPropagation"

lemma is_exception_Fw [simp]:
  "is_exception (Fw e) \<longleftrightarrow> e \<notin> {RoutingControl, SkipHandler, StopPropagation}"
  by (cases e) (simp_all add: is_exception_def issubclass_def eval_nat_numeral)

lemma is_exception_Wire [simp]: "is_exception (Wire e)"
  by (cases e) (simp_all add: is_exception_def issubclass_def eval_nat_numeral)

lemma is_exception_Api [simp]: "is_exception (Api e)"
  by (cases e) (simp_all add: is_exception_def issubclass_def eval_nat_numeral)

lemma is_exception_St [simp]: "is_exception (St e)"
  by (cases e) (simp_all add: is_exception_def issubclass_def eval_nat_numeral)

lemma is_exception_Py [simp]:
  "is_exception (Py e) \<longleftrightarrow> e \<noteq> BaseExceptionC \<and> e \<noteq> CancelledError \<and> (\<forall>n. e \<noteq> AppBaseException n)"
  by (cases e) (simp_all add: is_exception_def issubclass_def eval_nat_numeral)

lemma control_not_exception: "is_control c \<Longrightarrow> \<not> is_exception c"
  by (auto simp: is_control_def)

section \<open>Objects\<close>

record pyexn =
  exn_cls :: exn_class
  exn_stage :: "string option"
  exn_handler :: "string option"

text \<open>A freshly raised exception: no routing tags yet.\<close>

definition exn :: "exn_class \<Rightarrow> pyexn" where
  "exn c = \<lparr>exn_cls = c, exn_stage = None, exn_handler = None\<rparr>"

lemma exn_sel [simp]: "exn_cls (exn c) = c" "exn_stage (exn c) = None" "exn_handler (exn c) = None"
  by (simp_all add: exn_def)

lemma exn_inject [simp]: "exn c = exn d \<longleftrightarrow> c = d"
  by (simp add: exn_def)

end
