(* ===== verification/Values.thy ===== *)
theory Values
  imports Exceptions "HOL-Library.Sublist"
begin

text \<open>
  Python values at the framework's boundaries and the string and number operations of the language
  the code uses. A \<open>char\<close> stands for one of the code points
  0 to 255, and the character predicates are Python's on that range. Floats are rationals with the
  three special values; their rounding is not modelled.
\<close>

section \<open>Values\<close>

datatype pyfloat = Fin rat | PosInf | NegInf | NaN

text \<open>
  A member of a \<open>StrEnum\<close> or an \<open>IntEnum\<close> is a \<open>str\<close> or an \<open>int\<close> and is written as the \<open>PStr\<close> or
  \<open>PInt\<close> it equals; \<open>PEnum c n v\<close> is a member \<open>n\<close> of a plain \<open>Enum\<close> class \<open>c\<close> with value \<open>v\<close>. \<open>PObj c i\<close>
  is any other object: its class name and its identity.
\<close>

datatype pyval =
    PNone | PBool bool | PInt int | PFloat pyfloat | PStr string | PBytes string
  | PEnum string string pyval
  | PList "pyval list" | PTuple "pyval list" | PDict "(pyval \<times> pyval) list"
  | PObj string nat

type_synonym time = rat

fun truthy :: "pyval \<Rightarrow> bool" where
  "truthy PNone = False"
| "truthy (PBool b) = b"
| "truthy (PInt i) = (i \<noteq> 0)"
| "truthy (PFloat x) = (x \<noteq> Fin 0)"
| "truthy (PStr s) = (s \<noteq> [])"
| "truthy (PBytes s) = (s \<noteq> [])"
| "truthy (PList xs) = (xs \<noteq> [])"
| "truthy (PTuple xs) = (xs \<noteq> [])"
| "truthy (PDict d) = (d \<noteq> [])"
| "truthy (PEnum c n v) = True"
| "truthy (PObj c i) = True"

text \<open>Reading a mapping under a string key: \<open>payload.get(key)\<close>, \<open>None\<close> for an absent key.\<close>

fun str_items :: "(pyval \<times> pyval) list \<Rightarrow> (string \<times> pyval) list" where
  "str_items [] = []"
| "str_items ((PStr k, v) # d) = (k, v) # str_items d"
| "str_items (_ # d) = str_items d"

definition obj_get :: "(pyval \<times> pyval) list \<Rightarrow> string \<Rightarrow> pyval" where
  "obj_get d k = (case dict_get d (PStr k) of None \<Rightarrow> PNone | Some v \<Rightarrow> v)"

section \<open>Numbers and equality\<close>

text \<open>\<open>bool\<close> is a subclass of \<open>int\<close> and the three number types compare by value.\<close>

fun num_of :: "pyval \<Rightarrow> pyfloat option" where
  "num_of (PBool b) = Some (Fin (if b then 1 else 0))"
| "num_of (PInt i) = Some (Fin (of_int i))"
| "num_of (PFloat x) = Some x"
| "num_of v = None"

definition float_eq :: "pyfloat \<Rightarrow> pyfloat \<Rightarrow> bool" where
  "float_eq x y \<longleftrightarrow> x = y \<and> x \<noteq> NaN"

lemma size_list_elem: "x \<in> set xs \<Longrightarrow> size x < Suc (size_list size xs)"
  by (induction xs) auto

lemma size_list_pair: "(k, x) \<in> set d \<Longrightarrow> size x < Suc (size_list (size_prod size size) d)"
  by (induction d) auto

lemma size_zip_left: "(x, y) \<in> set (zip xs ys) \<Longrightarrow> size x < Suc (size_list size xs)"
  using size_list_elem [of x xs] by (auto dest: set_zip_leftD)

text \<open>\<open>a == b\<close>. Dictionaries are equal when they have equal values under the same keys.\<close>

function py_eq :: "pyval \<Rightarrow> pyval \<Rightarrow> bool" where
  "py_eq v w =
     (case (num_of v, num_of w) of
        (Some x, Some y) \<Rightarrow> float_eq x y
      | (Some x, None) \<Rightarrow> False
      | (None, Some y) \<Rightarrow> False
      | (None, None) \<Rightarrow>
         (case (v, w) of
            (PNone, PNone) \<Rightarrow> True
          | (PStr s, PStr t) \<Rightarrow> s = t
          | (PBytes s, PBytes t) \<Rightarrow> s = t
          | (PEnum c n _, PEnum d m _) \<Rightarrow> c = d \<and> n = m
          | (PList xs, PList ys) \<Rightarrow>
              length xs = length ys \<and> list_all (\<lambda>(x, y). py_eq x y) (zip xs ys)
          | (PTuple xs, PTuple ys) \<Rightarrow>
              length xs = length ys \<and> list_all (\<lambda>(x, y). py_eq x y) (zip xs ys)
          | (PDict d, PDict d') \<Rightarrow>
              length d = length d' \<and>
              list_all (\<lambda>(k, x). list_ex (\<lambda>(k', y). k = k' \<and> py_eq x y) d') d
          | (PObj c i, PObj d j) \<Rightarrow> c = d \<and> i = j
          | _ \<Rightarrow> False))"
  by pat_completeness auto
termination
  by (relation "measure (\<lambda>(v, w). size v)")
    (auto dest: size_zip_left size_list_pair)

declare py_eq.simps [simp del]

section \<open>Strings\<close>

definition is_space_char :: "char \<Rightarrow> bool" where
  "is_space_char c \<longleftrightarrow>
     (let n = (of_char c :: nat) in (9 \<le> n \<and> n \<le> 13) \<or> (28 \<le> n \<and> n \<le> 32) \<or> n = 133 \<or> n = 160)"

definition is_decimal_char :: "char \<Rightarrow> bool" where
  "is_decimal_char c \<longleftrightarrow> (let n = (of_char c :: nat) in 48 \<le> n \<and> n \<le> 57)"

text \<open>\<open>str.isdigit\<close> also holds of the superscripts two, three and one (178, 179, 185).\<close>

definition is_digit_char :: "char \<Rightarrow> bool" where
  "is_digit_char c \<longleftrightarrow> is_decimal_char c \<or> (of_char c :: nat) \<in> {178, 179, 185}"

definition py_isdigit :: "string \<Rightarrow> bool" where
  "py_isdigit s \<longleftrightarrow> s \<noteq> [] \<and> list_all is_digit_char s"

definition lower_char :: "char \<Rightarrow> char" where
  "lower_char c =
     (let n = (of_char c :: nat)
      in if (65 \<le> n \<and> n \<le> 90) \<or> (192 \<le> n \<and> n \<le> 222 \<and> n \<noteq> 215) then char_of (n + 32) else c)"

definition py_lower :: "string \<Rightarrow> string" where
  "py_lower s = map lower_char s"

definition py_lstrip :: "string \<Rightarrow> string" where
  "py_lstrip s = dropWhile is_space_char s"

definition py_strip :: "string \<Rightarrow> string" where
  "py_strip s = rev (dropWhile is_space_char (rev (dropWhile is_space_char s)))"

definition py_startswith :: "string \<Rightarrow> string \<Rightarrow> bool" where
  "py_startswith s p \<longleftrightarrow> prefix p s"

definition py_endswith :: "string \<Rightarrow> string \<Rightarrow> bool" where
  "py_endswith s p \<longleftrightarrow> suffix p s"

definition py_removeprefix :: "string \<Rightarrow> string \<Rightarrow> string" where
  "py_removeprefix s p = (if prefix p s then drop (length p) s else s)"

text \<open>\<open>sub in s\<close>, and \<open>s.partition(sep)\<close>: the text before and after the first separator.\<close>

fun py_partition :: "string \<Rightarrow> string \<Rightarrow> (string \<times> string) option" where
  "py_partition sep [] = (if sep = [] then Some ([], []) else None)"
| "py_partition sep (c # cs) =
     (if prefix sep (c # cs) then Some ([], drop (length sep) (c # cs))
      else map_option (\<lambda>(a, b). (c # a, b)) (py_partition sep cs))"

definition py_contains :: "string \<Rightarrow> string \<Rightarrow> bool" where
  "py_contains s sub \<longleftrightarrow> py_partition sub s \<noteq> None"

lemma py_partition_append: "py_partition sep s = Some (a, b) \<Longrightarrow> s = a @ sep @ b"
proof (induction s arbitrary: a)
  case Nil
  then show ?case by (auto split: if_splits)
next
  case (Cons c cs)
  then show ?case by (auto simp: prefix_def split: if_splits)
qed

lemma py_strip_id: "list_all (\<lambda>c. \<not> is_space_char c) s \<Longrightarrow> py_strip s = s"
proof -
  assume a: "list_all (\<lambda>c. \<not> is_space_char c) s"
  then have "dropWhile is_space_char s = s" by (cases s) auto
  moreover from a have "dropWhile is_space_char (rev s) = rev s"
    by (cases "rev s") (auto simp: list_all_iff dest!: arg_cong [where f = set])
  ultimately show ?thesis by (simp add: py_strip_def)
qed

text \<open>Stripping is idempotent: neither end of a stripped string is white.\<close>

lemma py_strip_ends:
  "py_strip s \<noteq> [] \<Longrightarrow> \<not> is_space_char (hd (py_strip s)) \<and> \<not> is_space_char (last (py_strip s))"
proof -
  assume ne: "py_strip s \<noteq> []"
  define t where "t = dropWhile is_space_char s"
  define u where "u = dropWhile is_space_char (rev t)"
  have s: "py_strip s = rev u" by (simp add: py_strip_def t_def u_def)
  with ne have u: "u \<noteq> []" by auto
  from u have l: "\<not> is_space_char (hd u)" unfolding u_def by (simp add: hd_dropWhile)
  obtain w where w: "rev t = w @ u" unfolding u_def by (metis takeWhile_dropWhile_id)
  then have t: "t = rev u @ rev w" by (metis rev_append rev_rev_ident)
  with u have "t \<noteq> []" by auto
  then have "\<not> is_space_char (hd t)" unfolding t_def by (simp add: hd_dropWhile)
  with t u have "\<not> is_space_char (hd (rev u))" by simp
  with l u s show ?thesis by (simp add: last_rev)
qed

lemma dropWhile_hd: "s \<noteq> [] \<Longrightarrow> \<not> P (hd s) \<Longrightarrow> dropWhile P s = s"
  by (cases s) simp_all

lemma py_strip_fixed:
  assumes "s \<noteq> []" and "\<not> is_space_char (hd s)" and "\<not> is_space_char (last s)"
  shows "py_strip s = s"
proof -
  have "dropWhile is_space_char s = s" using assms(1,2) by (rule dropWhile_hd)
  moreover have "dropWhile is_space_char (rev s) = rev s"
    by (rule dropWhile_hd) (simp_all add: assms hd_rev)
  ultimately show ?thesis by (simp add: py_strip_def)
qed

lemma py_strip_Nil [simp]: "py_strip [] = []"
  by (simp add: py_strip_def)

lemma py_strip_idem [simp]: "py_strip (py_strip s) = py_strip s"
proof (cases "py_strip s = []")
  case True
  then show ?thesis by simp
next
  case False
  with py_strip_ends [OF False] show ?thesis by (intro py_strip_fixed) simp_all
qed

text \<open>Decimal notation of an integer, and \<open>str(value)\<close>; what it gives for floats, bytes, containers
  and other objects is the argument \<open>other\<close>.\<close>

definition digit_char :: "nat \<Rightarrow> char" where
  "digit_char n = char_of (48 + n)"

fun nat_digits :: "nat \<Rightarrow> string" where
  "nat_digits n = (if n < 10 then [digit_char n] else nat_digits (n div 10) @ [digit_char (n mod 10)])"

declare nat_digits.simps [simp del]

definition str_int :: "int \<Rightarrow> string" where
  "str_int i = (if i < 0 then ''-'' @ nat_digits (nat (- i)) else nat_digits (nat i))"

fun py_str :: "(pyval \<Rightarrow> string) \<Rightarrow> pyval \<Rightarrow> string" where
  "py_str other PNone = ''None''"
| "py_str other (PBool b) = (if b then ''True'' else ''False'')"
| "py_str other (PInt i) = str_int i"
| "py_str other (PStr s) = s"
| "py_str other (PEnum c n v) = c @ ''.'' @ n"
| "py_str other v = other v"

text \<open>
  \<open>int(text)\<close> in base ten: white space around it, a sign, and decimal digits in groups separated
  by single underscores; \<open>None\<close> is the \<open>ValueError\<close>.
\<close>

fun int_digits :: "nat \<Rightarrow> string \<Rightarrow> nat option" where
  "int_digits acc [] = Some acc"
| "int_digits acc (c # cs) =
     (if is_decimal_char c then int_digits (10 * acc + (of_char c - 48)) cs
      else if c = CHR ''_''
        then (case cs of [] \<Rightarrow> None | d # _ \<Rightarrow> if is_decimal_char d then int_digits acc cs else None)
      else None)"

definition int_unsigned :: "string \<Rightarrow> nat option" where
  "int_unsigned s = (case s of [] \<Rightarrow> None | c # _ \<Rightarrow> if is_decimal_char c then int_digits 0 s else None)"

definition py_int :: "string \<Rightarrow> int option" where
  "py_int s =
     (case py_strip s of
        [] \<Rightarrow> None
      | c # cs \<Rightarrow>
          if c = CHR ''-'' then map_option (\<lambda>n. - int n) (int_unsigned cs)
          else if c = CHR ''+'' then map_option int (int_unsigned cs)
          else map_option int (int_unsigned (c # cs)))"

lemma of_digit_char: "n < 10 \<Longrightarrow> (of_char (digit_char n) :: nat) = 48 + n"
  by (simp add: digit_char_def)

lemma is_decimal_digit_char [simp]: "n < 10 \<Longrightarrow> is_decimal_char (digit_char n)"
  by (simp add: is_decimal_char_def of_digit_char)

lemma nat_digits_decimal: "list_all is_decimal_char (nat_digits n)"
proof (induction n rule: nat_digits.induct)
  case (1 n)
  then show ?case by (subst nat_digits.simps) simp
qed

lemma nat_digits_ne [simp]: "nat_digits n \<noteq> []"
  by (subst nat_digits.simps) simp

lemma decimal_not_space: "is_decimal_char c \<Longrightarrow> \<not> is_space_char c"
  by (auto simp: is_decimal_char_def is_space_char_def Let_def)

lemma decimal_not_sign: "is_decimal_char c \<Longrightarrow> c \<noteq> CHR ''-'' \<and> c \<noteq> CHR ''+'' \<and> c \<noteq> CHR ''_''"
  by (auto simp: is_decimal_char_def)

lemma int_digits_snoc:
  "list_all is_decimal_char s \<Longrightarrow> is_decimal_char c \<Longrightarrow>
   int_digits acc (s @ [c]) = map_option (\<lambda>n. 10 * n + (of_char c - 48)) (int_digits acc s)"
  by (induction acc s rule: int_digits.induct) auto

lemma int_digits_nat_digits: "int_digits 0 (nat_digits n) = Some n"
proof (induction n rule: nat_digits.induct)
  case (1 n)
  show ?case
  proof (cases "n < 10")
    case True
    then show ?thesis by (subst nat_digits.simps) (simp add: of_digit_char)
  next
    case False
    then show ?thesis using 1
      by (subst nat_digits.simps) (simp add: int_digits_snoc nat_digits_decimal of_digit_char)
  qed
qed

lemma int_unsigned_nat_digits [simp]: "int_unsigned (nat_digits n) = Some n"
  using nat_digits_decimal [of n] int_digits_nat_digits [of n]
  by (cases "nat_digits n") (auto simp: int_unsigned_def)

text \<open>Reading back what \<open>str\<close> wrote gives the same integer.\<close>

lemma py_int_str_int [simp]: "py_int (str_int i) = Some i"
proof -
  have dec: "list_all is_decimal_char (nat_digits n)" for n by (rule nat_digits_decimal)
  have ns: "list_all (\<lambda>c. \<not> is_space_char c) (nat_digits n)" for n
    using dec [of n] by (auto simp: list_all_iff decimal_not_space)
  have minus: "\<not> is_space_char (CHR ''-'')" by (simp add: is_space_char_def Let_def)
  have strip: "py_strip (str_int i) = str_int i"
    using ns minus by (intro py_strip_id) (simp add: str_int_def)
  show ?thesis
  proof (cases "i < 0")
    case True
    then show ?thesis using strip by (simp add: py_int_def str_int_def)
  next
    case False
    obtain c cs where n: "nat_digits (nat i) = c # cs" by (cases "nat_digits (nat i)") auto
    with dec [of "nat i"] have "is_decimal_char c" by simp
    then have "c \<noteq> CHR ''-''" "c \<noteq> CHR ''+''" using decimal_not_sign by auto
    then show ?thesis using False strip n int_unsigned_nat_digits [of "nat i"]
      by (simp add: py_int_def str_int_def del: int_unsigned_nat_digits)
  qed
qed

end
