(* ===== verification/Events.thy ===== *)
theory Events
  imports Values
begin

text \<open>
  The domain events (\<open>events/*.py\<close>): references, form inputs and the event classes. The fields of
  the base class \<open>Event\<close> are the fields of the type \<open>event\<close>; \<open>body\<close> says which subclass an event is
  and holds the subclass's own fields. \<open>event_time\<close> is a time stamp; the decoded JSON the adapter
  kept is \<open>raw\<close>. Snapshots of the raw message are functions of \<open>raw\<close>, as in the code.
\<close>

section \<open>References\<close>

record user_ref =
  user_name :: "string option"
  user_display_name :: "string option"
  user_type :: "string option"

record space_ref =
  space_name :: "string option"
  space_display_name :: "string option"
  space_kind :: "string option"
  space_type :: "string option"
  single_user_bot_dm :: "bool option"

record thread_ref =
  thread_name :: "string option"
  thread_key :: "string option"
  thread_space :: "space_ref option"

record message_ref =
  message_name :: "string option"

text \<open>\<open>SpaceRef | str\<close>, the type a send accepts.\<close>

datatype space_like = SpaceObj space_ref | SpaceName string

text \<open>\<open>ThreadRef._parent_space\<close>: the explicit space, else the thread's own, else the prefix of its
  resource name.\<close>

definition parent_space :: "thread_ref \<Rightarrow> space_like option \<Rightarrow> (pyexn, space_like) result" where
  "parent_space th explicit =
     (case explicit of
        Some s \<Rightarrow> Inr s
      | None \<Rightarrow>
         (case thread_space th of
            Some s \<Rightarrow> Inr (SpaceObj s)
          | None \<Rightarrow>
             (case thread_name th of
                None \<Rightarrow> Inl (exn (Py RuntimeErr))
              | Some n \<Rightarrow>
                 (case py_partition ''/threads/'' n of
                    None \<Rightarrow> Inl (exn (Py RuntimeErr))
                  | Some (parent, _) \<Rightarrow>
                      if py_startswith parent ''spaces/'' then Inr (SpaceName parent)
                      else Inl (exn (Py RuntimeErr))))))"

section \<open>Metadata and form inputs\<close>

datatype dialog_type = REQUEST_DIALOG | SUBMIT_DIALOG | CANCEL_DIALOG | OtherDialog string

record dialog_metadata =
  dialog_event_type :: dialog_type
  is_dialog_event :: bool

record time_zone =
  tz_id :: "string option"
  offset_ms :: "int option"

datatype form_value =
    StringInput "string list"
  | DateInput int
  | DateTimeInput int "bool option" "bool option"
  | TimeInput int int
  | UnknownFormInput string "(pyval \<times> pyval) list"

type_synonym form_inputs = "(string, form_value) pdict"

section \<open>Event classes\<close>

datatype action_source = FromMessage | FromDialog | FromHome

datatype command_kind = SLASH_COMMAND | QUICK_COMMAND | MESSAGE_ACTION

record message_body =
  msg_text :: string
  msg_ref :: "message_ref option"
  matched_url :: "string option"
  msg_sender_type :: "string option"
  argument_text :: "string option"

record action_body =
  action_name :: string
  action_params :: "(string, pyval) pdict"
  action_inputs :: form_inputs
  action_sender_type :: "string option"
  action_source :: "action_source option"
  action_message :: "message_ref option"

record command_body =
  command_id :: int
  command_type :: "string option"
  cmd_kind :: "command_kind option"
  source_kind :: "string option"
  message_text :: "string option"
  target_message :: "message_ref option"

record function_body =
  function_name :: string
  fn_params :: "(string, string) pdict"
  fn_inputs :: form_inputs

text \<open>An event of the base class itself has the body \<open>PlainEvent\<close>; an \<open>ErrorEvent\<close> carries the
  original event and the exception.\<close>

datatype event =
  Event (body: event_body) (raw: pyval) (event_time: "time option") (actor: "user_ref option")
    (ev_space: "space_ref option") (ev_thread: "thread_ref option") (dialog: "dialog_metadata option")
    (ev_locale: "string option") (ev_timezone: "time_zone option")
and event_body =
    PlainEvent
  | MessageEvent message_body
  | ActionEvent action_body
  | CommandEvent command_body
  | FormSubmitEvent function_body
  | WidgetUpdatedEvent function_body
  | AddedToSpaceEvent
  | RemovedFromSpaceEvent
  | AppHomeEvent
  | UnknownEvent string
  | ErrorEvent event pyexn

fun body_type :: "event_body \<Rightarrow> string" where
  "body_type PlainEvent = ''event''"
| "body_type (MessageEvent b) = ''message''"
| "body_type (ActionEvent b) = ''action''"
| "body_type (CommandEvent b) = ''command''"
| "body_type (FormSubmitEvent b) = ''form_submit''"
| "body_type (WidgetUpdatedEvent b) = ''widget_updated''"
| "body_type AddedToSpaceEvent = ''added_to_space''"
| "body_type RemovedFromSpaceEvent = ''removed_from_space''"
| "body_type AppHomeEvent = ''app_home''"
| "body_type (UnknownEvent t) = ''unknown''"
| "body_type (ErrorEvent e x) = ''error''"

text \<open>The values of the enumerations, and \<open>CommandKind(text)\<close>.\<close>

fun kind_value :: "command_kind \<Rightarrow> string" where
  "kind_value SLASH_COMMAND = ''SLASH_COMMAND''"
| "kind_value QUICK_COMMAND = ''QUICK_COMMAND''"
| "kind_value MESSAGE_ACTION = ''MESSAGE_ACTION''"

definition kind_of_value :: "string \<Rightarrow> command_kind option" where
  "kind_of_value s = find (\<lambda>k. kind_value k = s) [SLASH_COMMAND, QUICK_COMMAND, MESSAGE_ACTION]"

lemma kind_of_kind_value [simp]: "kind_of_value (kind_value k) = Some k"
  by (cases k) (simp_all add: kind_of_value_def)

text \<open>\<open>CommandEvent.__post_init__\<close>: a kind and a source kind that name different families are
  refused, and a missing source kind is taken from the kind.\<close>

definition command_init :: "command_body \<Rightarrow> (pyexn, command_body) result" where
  "command_init c =
     (let named = Option.bind (source_kind c) kind_of_value
      in if cmd_kind c \<noteq> None \<and> named \<noteq> None \<and> cmd_kind c \<noteq> named then Inl (exn (Py ValueErr))
         else if source_kind c = None \<and> cmd_kind c \<noteq> None
         then Inr (c\<lparr> source_kind := map_option kind_value (cmd_kind c) \<rparr>)
         else Inr c)"

text \<open>After construction the two fields agree wherever both name a family.\<close>

lemma command_init_agrees:
  "command_init c = Inr c' \<Longrightarrow> cmd_kind c' = Some k \<Longrightarrow>
   \<exists>s. source_kind c' = Some s \<and> (kind_of_value s = Some k \<or> kind_of_value s = None)"
  by (cases "source_kind c") (auto simp: command_init_def Let_def split: if_splits)

section \<open>Snapshots of the raw message\<close>

definition raw_message :: "pyval \<Rightarrow> (pyval \<times> pyval) list" where
  "raw_message r =
     (case r of
        PDict d \<Rightarrow>
          (let ev = (case obj_get d ''chat'' of PDict w \<Rightarrow> w | _ \<Rightarrow> d)
           in case obj_get ev ''message'' of PDict m \<Rightarrow> m | _ \<Rightarrow> [])
      | _ \<Rightarrow> [])"

fun immutable_snapshot :: "(pyval \<Rightarrow> string) \<Rightarrow> pyval \<Rightarrow> pyval" where
  "immutable_snapshot other (PDict d) =
     PDict (dict_of (map (\<lambda>(k, v). (PStr (py_str other k), immutable_snapshot other v)) d))"
| "immutable_snapshot other (PList xs) = PTuple (map (immutable_snapshot other) xs)"
| "immutable_snapshot other (PTuple xs) = PTuple (map (immutable_snapshot other) xs)"
| "immutable_snapshot other v = v"

definition mapping_snapshot :: "(pyval \<Rightarrow> string) \<Rightarrow> pyval \<Rightarrow> pyval option" where
  "mapping_snapshot other v =
     (case v of PDict d \<Rightarrow> Some (immutable_snapshot other v) | _ \<Rightarrow> None)"

definition mapping_sequence :: "(pyval \<Rightarrow> string) \<Rightarrow> pyval \<Rightarrow> pyval list" where
  "mapping_sequence other v =
     (case v of
        PList xs \<Rightarrow> List.map_filter (mapping_snapshot other) xs
      | PTuple xs \<Rightarrow> List.map_filter (mapping_snapshot other) xs
      | _ \<Rightarrow> [])"

definition attachments :: "(pyval \<Rightarrow> string) \<Rightarrow> event \<Rightarrow> pyval list" where
  "attachments other e = mapping_sequence other (obj_get (raw_message (raw e)) ''attachment'')"

definition annotations :: "(pyval \<Rightarrow> string) \<Rightarrow> event \<Rightarrow> pyval list" where
  "annotations other e = mapping_sequence other (obj_get (raw_message (raw e)) ''annotations'')"

definition mentions :: "(pyval \<Rightarrow> string) \<Rightarrow> event \<Rightarrow> pyval list" where
  "mentions other e =
     filter (\<lambda>a. case a of PDict d \<Rightarrow> obj_get d ''type'' = PStr ''USER_MENTION'' | _ \<Rightarrow> False)
       (annotations other e)"

definition quote :: "(pyval \<Rightarrow> string) \<Rightarrow> event \<Rightarrow> pyval option" where
  "quote other e = mapping_snapshot other (obj_get (raw_message (raw e)) ''quotedMessageMetadata'')"

definition reaction_summaries :: "(pyval \<Rightarrow> string) \<Rightarrow> event \<Rightarrow> pyval list" where
  "reaction_summaries other e =
     mapping_sequence other (obj_get (raw_message (raw e)) ''emojiReactionSummaries'')"

definition is_private :: "event \<Rightarrow> bool" where
  "is_private e \<longleftrightarrow> obj_get (raw_message (raw e)) ''privateMessageViewer'' \<noteq> PNone"

definition is_silent :: "event \<Rightarrow> bool" where
  "is_silent e \<longleftrightarrow> obj_get (raw_message (raw e)) ''silent'' = PBool True"

text \<open>A snapshot holds no list: nothing a caller could mutate is left inside.\<close>

fun frozen_value :: "pyval \<Rightarrow> bool" where
  "frozen_value (PList xs) = False"
| "frozen_value (PTuple xs) = list_all frozen_value xs"
| "frozen_value (PDict d) = list_all (\<lambda>(k, v). frozen_value v) d"
| "frozen_value v = True"

lemma immutable_snapshot_frozen: "frozen_value (immutable_snapshot other v)"
proof (induction other v rule: immutable_snapshot.induct)
  case (1 other d)
  then show ?case
    using set_dict_of_subset [of "map (\<lambda>(k, v). (PStr (py_str other k), immutable_snapshot other v)) d"]
    by (fastforce simp: list_all_iff)
qed (auto simp: list_all_iff)

lemma mapping_snapshot_frozen: "mapping_snapshot other v = Some w \<Longrightarrow> frozen_value w"
  using immutable_snapshot_frozen [of other v] by (cases v) (auto simp: mapping_snapshot_def)

lemma set_map_filter: "set (List.map_filter f xs) = {y. \<exists>x \<in> set xs. f x = Some y}"
  by (induction xs) (auto simp: List.map_filter_def)

lemma mapping_sequence_frozen: "w \<in> set (mapping_sequence other v) \<Longrightarrow> frozen_value w"
  by (cases v) (auto simp: mapping_sequence_def set_map_filter mapping_snapshot_frozen)

end
