(* ===== verification/Json.thy ===== *)
theory Json
  imports Values
begin

text \<open>
  The deep snapshot of JSON-like data (\<open>_json_snapshot.py\<close>). \<open>fsm/record.py\<close> and
  \<open>experimental/ai/google.py\<close> repeat the same function under the names \<open>_require_json_value\<close>
  and \<open>_freeze_json\<close>. A snapshot is a fresh value: the model's values carry no identity, so what
  there is to show is that the result is JSON, that a snapshot of it changes nothing, and exactly
  which inputs are refused.
\<close>

fun deep_snapshot :: "(pyval \<Rightarrow> string) \<Rightarrow> pyval \<Rightarrow> (pyexn, pyval) result" where
  "deep_snapshot other (PEnum c n v) = deep_snapshot other v"
| "deep_snapshot other (PDict d) =
     bind_res (traverse (\<lambda>(k, v). map_sum id (Pair (PStr (py_str other k))) (deep_snapshot other v)) d)
       (\<lambda>ps. Inr (PDict (dict_of ps)))"
| "deep_snapshot other (PList xs) = bind_res (traverse (deep_snapshot other) xs) (\<lambda>ys. Inr (PList ys))"
| "deep_snapshot other (PTuple xs) = bind_res (traverse (deep_snapshot other) xs) (\<lambda>ys. Inr (PList ys))"
| "deep_snapshot other (PBytes b) = Inl (exn (Py TypeErr))"
| "deep_snapshot other (PObj c i) = Inl (exn (Py TypeErr))"
| "deep_snapshot other v = Inr v"

definition require_json_value :: "(pyval \<Rightarrow> string) \<Rightarrow> pyval \<Rightarrow> (pyexn, pyval) result" where
  "require_json_value other v = deep_snapshot other v"

definition freeze_json :: "(pyval \<Rightarrow> string) \<Rightarrow> pyval \<Rightarrow> (pyexn, pyval) result" where
  "freeze_json other v = deep_snapshot other v"

text \<open>JSON data: no bytes, tuples, enum members or objects, and string keys without repetition.\<close>

fun is_json :: "pyval \<Rightarrow> bool" where
  "is_json (PList xs) = list_all is_json xs"
| "is_json (PDict d) = (dict_ok d \<and> list_all (\<lambda>(k, v). (\<exists>s. k = PStr s) \<and> is_json v) d)"
| "is_json (PTuple xs) = False"
| "is_json (PBytes b) = False"
| "is_json (PEnum c n v) = False"
| "is_json (PObj c i) = False"
| "is_json v = True"

text \<open>What is inside a value, dictionary keys apart: the values a snapshot visits.\<close>

fun foreign_inside :: "pyval \<Rightarrow> bool" where
  "foreign_inside (PBytes b) = True"
| "foreign_inside (PObj c i) = True"
| "foreign_inside (PEnum c n v) = foreign_inside v"
| "foreign_inside (PList xs) = list_ex foreign_inside xs"
| "foreign_inside (PTuple xs) = list_ex foreign_inside xs"
| "foreign_inside (PDict d) = list_ex (\<lambda>(k, v). foreign_inside v) d"
| "foreign_inside v = False"

lemma deep_snapshot_json: "deep_snapshot other v = Inr w \<Longrightarrow> is_json w"
proof (induction other v arbitrary: w rule: deep_snapshot.induct)
  case (2 other d)
  then obtain ps where ps: "traverse (\<lambda>(k, v). map_sum id (Pair (PStr (py_str other k))) (deep_snapshot other v)) d = Inr ps"
    and w: "w = PDict (dict_of ps)"
    by (auto simp: bind_res_Inr_iff)
  have "list_all (\<lambda>(k, v). (\<exists>s. k = PStr s) \<and> is_json v) ps"
    using ps by (rule traverse_all) (use 2(1) in \<open>auto simp: map_sum_Inr_iff\<close>)
  then have "list_all (\<lambda>(k, v). (\<exists>s. k = PStr s) \<and> is_json v) (dict_of ps)"
    using set_dict_of_subset [of ps] by (auto simp: list_all_iff)
  then show ?case by (simp add: w)
next
  case (3 other xs)
  from 3(2) obtain ys where "traverse (deep_snapshot other) xs = Inr ys" and "w = PList ys"
    by (auto simp: bind_res_Inr_iff)
  with 3(1) show ?case by (auto intro: traverse_all)
next
  case (4 other xs)
  from 4(2) obtain ys where "traverse (deep_snapshot other) xs = Inr ys" and "w = PList ys"
    by (auto simp: bind_res_Inr_iff)
  with 4(1) show ?case by (auto intro: traverse_all)
qed auto

lemma deep_snapshot_fixed: "is_json v \<Longrightarrow> deep_snapshot other v = Inr v"
proof (induction other v rule: deep_snapshot.induct)
  case (2 other d)
  then have "traverse (\<lambda>(k, v). map_sum id (Pair (PStr (py_str other k))) (deep_snapshot other v)) d
    = Inr (map (\<lambda>x. x) d)"
    by (intro traverse_all_Inr) (fastforce simp: list_all_iff)
  with 2(2) show ?case by simp
next
  case (3 other xs)
  then have "traverse (deep_snapshot other) xs = Inr (map (\<lambda>x. x) xs)"
    by (intro traverse_all_Inr) (auto simp: list_all_iff)
  then show ?case by simp
qed auto

lemma deep_snapshot_TypeErr: "deep_snapshot other v = Inl e \<Longrightarrow> e = exn (Py TypeErr)"
proof (induction other v arbitrary: e rule: deep_snapshot.induct)
  case (2 other d)
  then show ?case
    by (fastforce simp: bind_res_Inl_iff map_sum_Inl_iff dest!: traverse_Inl_elem)
qed (auto simp: bind_res_Inl_iff dest!: traverse_Inl_elem)

lemma deep_snapshot_fails: "(\<exists>e. deep_snapshot other v = Inl e) \<longleftrightarrow> foreign_inside v"
proof (induction other v rule: deep_snapshot.induct)
  case (2 other d)
  have "(\<exists>e. map_sum id (Pair (PStr (py_str other (fst x)))) (deep_snapshot other (snd x)) = Inl e)
    \<longleftrightarrow> foreign_inside (snd x)" if "x \<in> set d" for x
    using 2 [OF that, of "fst x" "snd x"] by (simp add: map_sum_Inl_iff)
  then show ?case
    by (auto simp: bind_res_Inl_iff traverse_ex_Inl list_ex_iff case_prod_beta)
qed (auto simp: bind_res_Inl_iff traverse_ex_Inl list_ex_iff)

text \<open>A snapshot that is returned is JSON data, and taking the snapshot again returns the same
  value; a snapshot is refused, always with a \<open>TypeError\<close>, exactly when the value holds bytes or a
  foreign object somewhere inside.\<close>

theorem snapshot_contract:
  "(case deep_snapshot other v of
      Inr w \<Rightarrow> is_json w \<and> deep_snapshot other w = Inr w \<and> \<not> foreign_inside v
    | Inl e \<Rightarrow> e = exn (Py TypeErr) \<and> foreign_inside v)"
  using deep_snapshot_json deep_snapshot_fixed deep_snapshot_TypeErr deep_snapshot_fails [of other v]
  by (auto split: sum.split)

end
