(* ===== verification/Fsm.thy ===== *)
theory Fsm
  imports Events Json
begin

text \<open>
  Workflow state (\<open>fsm/storage.py\<close>, \<open>fsm/context.py\<close>, \<open>fsm/states.py\<close>, \<open>fsm/filter.py\<close>): the key a
  record is stored under, the in-process six-method storage, the context bound to one event, state
  markers and the state filter. The methods of a storage run under the key's lock and are atomic.
  The locale \<open>six_method_storage\<close> is the contract the storages meet; its lemma \<open>run_spec\<close> is
  about every sequence of calls.
\<close>

section \<open>Keys\<close>

datatype fsm_strategy = USER_IN_SPACE | USER | SPACE

record storage_key =
  key_user :: "string option"
  key_space :: "string option"
  key_thread :: "string option"

definition build_key :: "event \<Rightarrow> fsm_strategy \<Rightarrow> storage_key option" where
  "build_key e strategy =
     (let user = Option.bind (actor e) user_name;
          space = Option.bind (ev_space e) space_name;
          thread = Option.bind (ev_thread e) thread_name
      in case strategy of
           USER_IN_SPACE \<Rightarrow>
             (if user = None \<or> space = None then None
              else Some \<lparr> key_user = user, key_space = space, key_thread = thread \<rparr>)
         | USER \<Rightarrow>
             (if user = None then None
              else Some \<lparr> key_user = user, key_space = None, key_thread = None \<rparr>)
         | SPACE \<Rightarrow>
             (if space = None then None
              else Some \<lparr> key_user = None, key_space = space, key_thread = None \<rparr>))"

text \<open>The names in an event a strategy looks at.\<close>

definition scope_names :: "event \<Rightarrow> fsm_strategy \<Rightarrow> string option \<times> string option \<times> string option" where
  "scope_names e strategy =
     (if strategy = SPACE then None else Option.bind (actor e) user_name,
      if strategy = USER then None else Option.bind (ev_space e) space_name,
      if strategy = USER_IN_SPACE then Option.bind (ev_thread e) thread_name else None)"

text \<open>Two events share a workflow exactly when the strategy derives a key for both and they agree on
  every name the strategy looks at; a key is missing exactly when a user or space name the strategy
  needs is missing; and keys derived by different strategies never coincide.\<close>

theorem key_isolation:
  "(build_key e s = None \<longleftrightarrow>
      (s \<noteq> SPACE \<and> Option.bind (actor e) user_name = None) \<or>
      (s \<noteq> USER \<and> Option.bind (ev_space e) space_name = None)) \<and>
   (build_key e s = Some k \<and> build_key e' s' = Some k \<longleftrightarrow>
      build_key e s = Some k \<and> s' = s \<and> scope_names e' s = scope_names e s)"
  by (auto simp: build_key_def scope_names_def Let_def split: fsm_strategy.splits if_splits)

section \<open>The in-process storage\<close>

type_synonym fsm_data = "(string, pyval) pdict"

record fsm_slot =
  slot_state :: "string option"
  slot_data :: fsm_data

type_synonym memory_storage = "(storage_key, fsm_slot) pdict"

definition empty_slot :: fsm_slot where
  "empty_slot = \<lparr> slot_state = None, slot_data = [] \<rparr>"

text \<open>\<open>_record\<close>: the slot of a key, created empty when there is none.\<close>

definition slot_of :: "memory_storage \<Rightarrow> storage_key \<Rightarrow> fsm_slot" where
  "slot_of s k = (case dict_get s k of Some r \<Rightarrow> r | None \<Rightarrow> empty_slot)"

definition mem_get_state :: "storage_key \<Rightarrow> memory_storage \<Rightarrow> string option" where
  "mem_get_state k s = (case dict_get s k of Some r \<Rightarrow> slot_state r | None \<Rightarrow> None)"

definition mem_set_state :: "storage_key \<Rightarrow> string option \<Rightarrow> memory_storage \<Rightarrow> memory_storage" where
  "mem_set_state k st s =
     (if st = None \<and> \<not> dict_has s k then s
      else dict_set k ((slot_of s k)\<lparr> slot_state := st \<rparr>) s)"

definition mem_get_data :: "storage_key \<Rightarrow> memory_storage \<Rightarrow> fsm_data" where
  "mem_get_data k s = (case dict_get s k of Some r \<Rightarrow> slot_data r | None \<Rightarrow> [])"

definition mem_set_data :: "storage_key \<Rightarrow> fsm_data \<Rightarrow> memory_storage \<Rightarrow> memory_storage" where
  "mem_set_data k d s = dict_set k ((slot_of s k)\<lparr> slot_data := d \<rparr>) s"

definition mem_update_data :: "storage_key \<Rightarrow> fsm_data \<Rightarrow> memory_storage \<Rightarrow> memory_storage \<times> fsm_data" where
  "mem_update_data k p s =
     (let d = dict_update (slot_data (slot_of s k)) p
      in (dict_set k ((slot_of s k)\<lparr> slot_data := d \<rparr>) s, d))"

definition mem_finish :: "storage_key \<Rightarrow> memory_storage \<Rightarrow> memory_storage" where
  "mem_finish k s = filter (\<lambda>(k', r). k' \<noteq> k) s"

lemma dict_get_filter_key [simp]:
  "dict_get (filter (\<lambda>(k', r). k' \<noteq> k) s) k' = (if k' = k then None else dict_get s k')"
  by (induction s) auto

section \<open>The six-method contract\<close>

datatype fsm_call =
    GetState storage_key
  | SetState storage_key "string option"
  | GetData storage_key
  | SetData storage_key fsm_data
  | UpdateData storage_key fsm_data
  | Finish storage_key

fun call_key :: "fsm_call \<Rightarrow> storage_key" where
  "call_key (GetState k) = k"
| "call_key (SetState k st) = k"
| "call_key (GetData k) = k"
| "call_key (SetData k d) = k"
| "call_key (UpdateData k p) = k"
| "call_key (Finish k) = k"

datatype fsm_out = StateOut "string option" | DataOut fsm_data | NoOut

text \<open>One call on a storage may raise; \<open>'s storage\<close> is its behaviour.\<close>

type_synonym 's storage = "fsm_call \<Rightarrow> 's \<Rightarrow> 's \<times> (pyexn, fsm_out) result"

fun mem_call :: "memory_storage storage" where
  "mem_call (GetState k) s = (s, Inr (StateOut (mem_get_state k s)))"
| "mem_call (SetState k st) s = (mem_set_state k st s, Inr NoOut)"
| "mem_call (GetData k) s = (s, Inr (DataOut (mem_get_data k s)))"
| "mem_call (SetData k d) s = (mem_set_data k d s, Inr NoOut)"
| "mem_call (UpdateData k p) s = map_prod id (Inr \<circ> DataOut) (mem_update_data k p s)"
| "mem_call (Finish k) s = (mem_finish k s, Inr NoOut)"

text \<open>What a storage promises, on an abstract map from keys to a state and a data dictionary in
  which every key starts with no state and no data.\<close>

type_synonym fsm_view = "storage_key \<Rightarrow> string option \<times> fsm_data"

fun spec_call :: "fsm_call \<Rightarrow> fsm_view \<Rightarrow> fsm_view \<times> fsm_out" where
  "spec_call (GetState k) v = (v, StateOut (fst (v k)))"
| "spec_call (SetState k st) v = (v(k := (st, snd (v k))), NoOut)"
| "spec_call (GetData k) v = (v, DataOut (snd (v k)))"
| "spec_call (SetData k d) v = (v(k := (fst (v k), d)), NoOut)"
| "spec_call (UpdateData k p) v =
     (v(k := (fst (v k), dict_update (snd (v k)) p)), DataOut (dict_update (snd (v k)) p))"
| "spec_call (Finish k) v = (v(k := (None, [])), NoOut)"

fun storage_run :: "'s storage \<Rightarrow> fsm_call list \<Rightarrow> 's \<Rightarrow> 's \<times> (pyexn, fsm_out) result list" where
  "storage_run f [] s = (s, [])"
| "storage_run f (c # cs) s =
     (fst (storage_run f cs (fst (f c s))), snd (f c s) # snd (storage_run f cs (fst (f c s))))"

fun spec_run :: "fsm_call list \<Rightarrow> fsm_view \<Rightarrow> fsm_view \<times> fsm_out list" where
  "spec_run [] v = (v, [])"
| "spec_run (c # cs) v =
     (fst (spec_run cs (fst (spec_call c v))), snd (spec_call c v) # snd (spec_run cs (fst (spec_call c v))))"

text \<open>Data that is a dictionary of JSON values, and calls that pass such data.\<close>

definition json_data :: "fsm_data \<Rightarrow> bool" where
  "json_data d \<longleftrightarrow> dict_ok d \<and> list_all (\<lambda>(k, v). is_json v) d"

fun json_call :: "fsm_call \<Rightarrow> bool" where
  "json_call (SetData k d) = json_data d"
| "json_call (UpdateData k p) = json_data p"
| "json_call c = True"

locale six_method_storage =
  fixes ok :: "'s \<Rightarrow> bool"
    and allowed :: "fsm_call \<Rightarrow> bool"
    and view :: "'s \<Rightarrow> fsm_view"
    and call :: "'s storage"
  assumes call_ok: "ok s \<Longrightarrow> allowed c \<Longrightarrow> ok (fst (call c s))"
    and call_out: "ok s \<Longrightarrow> allowed c \<Longrightarrow> snd (call c s) = Inr (snd (spec_call c (view s)))"
    and call_view: "ok s \<Longrightarrow> allowed c \<Longrightarrow> view (fst (call c s)) = fst (spec_call c (view s))"
begin

lemma run_spec:
  "ok s \<Longrightarrow> list_all allowed cs \<Longrightarrow>
   ok (fst (storage_run call cs s)) \<and>
   snd (storage_run call cs s) = map Inr (snd (spec_run cs (view s))) \<and>
   view (fst (storage_run call cs s)) = fst (spec_run cs (view s))"
  by (induction cs arbitrary: s) (simp_all add: call_ok call_out call_view)

end

definition memory_view :: "memory_storage \<Rightarrow> fsm_view" where
  "memory_view s k = (case dict_get s k of Some r \<Rightarrow> (slot_state r, slot_data r) | None \<Rightarrow> (None, []))"

lemmas mem_defs = mem_get_state_def mem_set_state_def mem_get_data_def mem_set_data_def
  mem_update_data_def mem_finish_def slot_of_def empty_slot_def memory_view_def

lemma mem_call_view: "memory_view (fst (mem_call c s)) = fst (spec_call c (memory_view s))"
  by (cases c) (auto simp: mem_defs Let_def dict_has_def fun_eq_iff split: option.split)

lemma mem_call_out: "snd (mem_call c s) = Inr (snd (spec_call c (memory_view s)))"
  by (cases c) (auto simp: mem_defs Let_def split: option.split)

interpretation mem: six_method_storage "\<lambda>s. True" json_call memory_view mem_call
  by unfold_locales (simp_all add: mem_call_view mem_call_out)

text \<open>C20. On the in-process storage every sequence of calls returns what the contract prescribes and
  leaves every key with the state and data it prescribes; no call raises.\<close>

theorem memory_storage_refines:
  "snd (storage_run mem_call cs s) = map Inr (snd (spec_run cs (memory_view s))) \<and>
   memory_view (fst (storage_run mem_call cs s)) = fst (spec_run cs (memory_view s))"
  by (induction cs arbitrary: s) (simp_all add: mem_call_view mem_call_out)

section \<open>States, the event's context and the state filter\<close>

text \<open>A \<open>State\<close>: an explicit key, or the group and attribute name its class gave it.\<close>

record state_marker =
  explicit_key :: "string option"
  group_name :: "string option"
  attr_name :: "string option"

definition marker_key :: "state_marker \<Rightarrow> (pyexn, string) result" where
  "marker_key m =
     (case explicit_key m of
        Some s \<Rightarrow> Inr s
      | None \<Rightarrow>
         (case (group_name m, attr_name m) of
            (Some g, Some a) \<Rightarrow> Inr (g @ '':'' @ a)
          | _ \<Rightarrow> Inl (exn (Py RuntimeErr))))"

text \<open>\<open>StatesGroupMeta.__new__\<close>: the states of the bases, then those of the class body, which it
  binds to the class and attribute name. A class attribute that is no \<open>State\<close> is \<open>None\<close> here.\<close>

definition collect_states ::
  "string \<Rightarrow> (string, state_marker) pdict list \<Rightarrow> (string, state_marker option) pdict
   \<Rightarrow> (string, state_marker) pdict" where
  "collect_states name bases namespace =
     dict_update (foldl dict_update [] bases)
       (List.map_filter
          (\<lambda>(a, m). map_option (\<lambda>m. (a, m\<lparr> group_name := Some name, attr_name := Some a \<rparr>)) m)
          namespace)"

text \<open>\<open>FSMContext\<close>: reads without a key see an empty record, writes without a key raise.\<close>

definition require_key :: "storage_key option \<Rightarrow> (pyexn, storage_key) result" where
  "require_key k = (case k of Some k \<Rightarrow> Inr k | None \<Rightarrow> Inl (exn (St FSMError)))"

datatype state_arg = StateName "string option" | StateObj state_marker

definition state_of_arg :: "state_arg \<Rightarrow> (pyexn, string option) result" where
  "state_of_arg a = (case a of StateName s \<Rightarrow> Inr s | StateObj m \<Rightarrow> bind_res (marker_key m) (\<lambda>s. Inr (Some s)))"

definition keyed_call :: "'s storage \<Rightarrow> storage_key option \<Rightarrow> (storage_key \<Rightarrow> fsm_call) \<Rightarrow> 's
    \<Rightarrow> 's \<times> (pyexn, fsm_out) result" where
  "keyed_call f k c s = (case require_key k of Inl e \<Rightarrow> (s, Inl e) | Inr k \<Rightarrow> f (c k) s)"

definition ctx_get_state :: "'s storage \<Rightarrow> storage_key option \<Rightarrow> 's \<Rightarrow> 's \<times> (pyexn, fsm_out) result" where
  "ctx_get_state f k s = (case k of None \<Rightarrow> (s, Inr (StateOut None)) | Some k \<Rightarrow> f (GetState k) s)"

definition ctx_set_state :: "'s storage \<Rightarrow> storage_key option \<Rightarrow> state_arg \<Rightarrow> 's \<Rightarrow> 's \<times> (pyexn, fsm_out) result" where
  "ctx_set_state f k a s =
     (case state_of_arg a of Inl e \<Rightarrow> (s, Inl e) | Inr st \<Rightarrow> keyed_call f k (\<lambda>k. SetState k st) s)"

definition ctx_get_data :: "'s storage \<Rightarrow> storage_key option \<Rightarrow> 's \<Rightarrow> 's \<times> (pyexn, fsm_out) result" where
  "ctx_get_data f k s = (case k of None \<Rightarrow> (s, Inr (DataOut [])) | Some k \<Rightarrow> f (GetData k) s)"

definition ctx_set_data :: "'s storage \<Rightarrow> storage_key option \<Rightarrow> fsm_data \<Rightarrow> 's \<Rightarrow> 's \<times> (pyexn, fsm_out) result" where
  "ctx_set_data f k d s = keyed_call f k (\<lambda>k. SetData k d) s"

definition ctx_update_data :: "'s storage \<Rightarrow> storage_key option \<Rightarrow> fsm_data \<Rightarrow> 's \<Rightarrow> 's \<times> (pyexn, fsm_out) result" where
  "ctx_update_data f k p s = keyed_call f k (\<lambda>k. UpdateData k p) s"

definition ctx_finish :: "'s storage \<Rightarrow> storage_key option \<Rightarrow> 's \<Rightarrow> 's \<times> (pyexn, fsm_out) result" where
  "ctx_finish f k s = keyed_call f k Finish s"

text \<open>\<open>StateFilter\<close>: its construction, and its call with the \<open>state\<close> entry of the filter context,
  which is absent (\<open>None\<close>) or the context of the event with its key.\<close>

definition state_filter_init :: "state_marker list \<Rightarrow> (pyexn, string list) result" where
  "state_filter_init ms = traverse marker_key ms"

definition state_filter_call ::
  "'s storage \<Rightarrow> string list \<Rightarrow> storage_key option option \<Rightarrow> 's \<Rightarrow> 's \<times> (pyexn, bool) result" where
  "state_filter_call f states ctx s =
     (case ctx of
        None \<Rightarrow> (s, Inr False)
      | Some k \<Rightarrow>
         (case ctx_get_state f k s of
            (s', Inl e) \<Rightarrow> (s', Inl e)
          | (s', Inr (StateOut (Some st))) \<Rightarrow> (s', Inr (states = [] \<or> st \<in> set states))
          | (s', Inr _) \<Rightarrow> (s', Inr False)))"

text \<open>The state filter after a transition: on the in-process storage, once a handler set a state
  for its event, a filter matches an event exactly when the event has a key and either the key is that
  handler's and the filter is empty or lists the new state, or the key is another one and the filter
  matched before.\<close>

theorem state_filter_after_transition:
  assumes "marker_key m = Inr st" and "k \<noteq> None"
  shows "snd (state_filter_call mem_call states ctx (fst (ctx_set_state mem_call k (StateObj m) s))) =
    (if ctx = Some k then Inr (states = [] \<or> st \<in> set states)
     else snd (state_filter_call mem_call states ctx s))"
proof -
  obtain key where "k = Some key" using assms(2) by auto
  then show ?thesis using assms(1)
    by (cases ctx)
      (auto simp: state_filter_call_def ctx_set_state_def ctx_get_state_def keyed_call_def
        require_key_def state_of_arg_def mem_defs dict_has_def split: option.splits)
qed

lemma state_filter_after_transition_witness:
  "snd (state_filter_call mem_call [''Form:name'']
      (Some (Some \<lparr> key_user = Some ''users/1'', key_space = None, key_thread = None \<rparr>))
      (fst (ctx_set_state mem_call (Some \<lparr> key_user = Some ''users/1'', key_space = None, key_thread = None \<rparr>)
        (StateObj \<lparr> explicit_key = None, group_name = Some ''Form'', attr_name = Some ''name'' \<rparr>) []))) = Inr True"
  by (subst state_filter_after_transition [where st = "''Form:name''"]) (simp_all add: marker_key_def)

end
