(* ===== verification/FsmRecord.thy ===== *)
theory FsmRecord
  imports Fsm
begin

text \<open>
  Versioned records (\<open>fsm/record.py\<close>): the record, the in-process record store with compare-and-set
  and lazy expiry, and the adapter \<open>BaseStorageFromRecord\<close> that serves the six-method contract over
  any record store. \<open>plan\<close> is what a method does with the record it read; \<open>client_step\<close> is one
  access to the store, the unit of interleaving; \<open>base_exec\<close> runs one call alone, and the relation
  \<open>conc_step\<close> interleaves the accesses of any number of calls. Clock readings are arguments.
\<close>

section \<open>Records\<close>

record fsm_record =
  rec_state :: "string option"
  rec_data :: fsm_data
  revision :: nat
  updated_at :: "rat option"
  expires_at :: "rat option"
  schema_version :: int

text \<open>The dictionary as a value, and \<open>FSMRecord(...)\<close> with its check of the data.\<close>

definition data_value :: "fsm_data \<Rightarrow> pyval" where
  "data_value d = PDict (map (\<lambda>(k, v). (PStr k, v)) d)"

definition mk_record ::
  "(pyval \<Rightarrow> string) \<Rightarrow> string option \<Rightarrow> fsm_data \<Rightarrow> rat option \<Rightarrow> int \<Rightarrow> (pyexn, fsm_record) result" where
  "mk_record other st d expires version =
     (case require_json_value other (data_value d) of
        Inr (PDict d') \<Rightarrow>
          Inr \<lparr> rec_state = st, rec_data = str_items d', revision = 0, updated_at = None,
                expires_at = expires, schema_version = version \<rparr>
      | Inr _ \<Rightarrow> Inl (exn (Py TypeErr))
      | Inl e \<Rightarrow> Inl e)"

definition expired :: "fsm_record \<Rightarrow> rat \<Rightarrow> bool" where
  "expired r now \<longleftrightarrow> (case expires_at r of Some t \<Rightarrow> t \<le> now | None \<Rightarrow> False)"

section \<open>The in-process record store\<close>

type_synonym record_map = "(storage_key, fsm_record) pdict"

definition del_record :: "storage_key \<Rightarrow> record_map \<Rightarrow> record_map" where
  "del_record k s = filter (\<lambda>(k', r). k' \<noteq> k) s"

definition get_record :: "storage_key \<Rightarrow> rat \<Rightarrow> record_map \<Rightarrow> record_map \<times> fsm_record option" where
  "get_record k now s =
     (case dict_get s k of
        None \<Rightarrow> (s, None)
      | Some r \<Rightarrow> if expired r now then (del_record k s, None) else (s, Some r))"

definition compare_and_set ::
  "storage_key \<Rightarrow> nat \<Rightarrow> fsm_record \<Rightarrow> rat \<Rightarrow> rat \<Rightarrow> record_map
   \<Rightarrow> record_map \<times> (pyexn, fsm_record) result" where
  "compare_and_set k expected replacement t1 t2 s0 =
     (let drop = (case dict_get s0 k of Some r \<Rightarrow> expired r t1 | None \<Rightarrow> False);
          s = (if drop then del_record k s0 else s0);
          current_revision = (case dict_get s k of None \<Rightarrow> 0 | Some r \<Rightarrow> revision r)
      in if current_revision \<noteq> expected then (s, Inl (exn (St FSMRecordConflict)))
         else
           (let stored = replacement\<lparr> revision := current_revision + 1, updated_at := Some t2 \<rparr>
            in (dict_set k stored s, Inr stored)))"

text \<open>A record storage as its two operations.\<close>

record 's record_ops =
  rs_get :: "storage_key \<Rightarrow> rat \<Rightarrow> 's \<Rightarrow> 's \<times> fsm_record option"
  rs_cas :: "storage_key \<Rightarrow> nat \<Rightarrow> fsm_record \<Rightarrow> rat \<Rightarrow> rat \<Rightarrow> 's \<Rightarrow> 's \<times> (pyexn, fsm_record) result"

definition memory_records :: "record_map record_ops" where
  "memory_records = \<lparr> rs_get = get_record, rs_cas = compare_and_set \<rparr>"

section \<open>The six methods over a record store\<close>

text \<open>
  What a method still has to do: the call itself, or the body of \<open>_mutate\<close> with a new state and new
  data where they were given. \<open>set_state\<close> and \<open>set_data\<close> are \<open>_mutate\<close> from the start, and
  \<open>finish\<close> goes on to it after its own reading.
\<close>

datatype todo =
    Body fsm_call
  | Mutate storage_key "string option option" "fsm_data option"

fun todo_key :: "todo \<Rightarrow> storage_key" where
  "todo_key (Body c) = call_key c"
| "todo_key (Mutate k st d) = k"

fun entry :: "fsm_call \<Rightarrow> todo" where
  "entry (SetState k st) = Mutate k (Some st) None"
| "entry (SetData k d) = Mutate k None (Some d)"
| "entry c = Body c"

text \<open>After reading \<open>r\<close>: return, go on with another reading, or store a replacement if the revision
  is still the one read; the flag says whether a conflict makes the method read again.\<close>

datatype next_step =
    Return "(pyexn, fsm_out) result"
  | Next todo
  | Commit nat fsm_record fsm_out bool

definition rev_of :: "fsm_record option \<Rightarrow> nat" where
  "rev_of r = (case r of None \<Rightarrow> 0 | Some r \<Rightarrow> revision r)"

definition state_of :: "fsm_record option \<Rightarrow> string option" where
  "state_of r = (case r of None \<Rightarrow> None | Some r \<Rightarrow> rec_state r)"

definition data_of :: "fsm_record option \<Rightarrow> fsm_data" where
  "data_of r = (case r of None \<Rightarrow> [] | Some r \<Rightarrow> rec_data r)"

definition replacement ::
  "(pyval \<Rightarrow> string) \<Rightarrow> fsm_record option \<Rightarrow> string option \<Rightarrow> fsm_data \<Rightarrow> (pyexn, fsm_record) result" where
  "replacement other r st d =
     mk_record other st d (Option.bind r expires_at) (case r of None \<Rightarrow> 0 | Some r \<Rightarrow> schema_version r)"

definition commit :: "fsm_record option \<Rightarrow> (pyexn, fsm_record) result \<Rightarrow> fsm_out \<Rightarrow> bool \<Rightarrow> next_step" where
  "commit r rep out retry =
     (case rep of Inl e \<Rightarrow> Return (Inl e) | Inr rep \<Rightarrow> Commit (rev_of r) rep out retry)"

fun plan :: "(pyval \<Rightarrow> string) \<Rightarrow> todo \<Rightarrow> fsm_record option \<Rightarrow> next_step" where
  "plan other (Body (GetState k)) r = Return (Inr (StateOut (state_of r)))"
| "plan other (Body (GetData k)) r = Return (Inr (DataOut (data_of r)))"
| "plan other (Body (UpdateData k p)) r =
     (let merged = dict_update (data_of r) p
      in commit r (replacement other r (state_of r) merged) (DataOut merged) True)"
| "plan other (Body (Finish k)) r =
     (if r = None then Return (Inr NoOut) else Next (Mutate k (Some None) (Some [])))"
| "plan other (Mutate k st d) r =
     commit r
       (replacement other r (case st of None \<Rightarrow> state_of r | Some st \<Rightarrow> st)
          (case d of None \<Rightarrow> data_of r | Some d \<Rightarrow> d))
       NoOut False"
| "plan other (Body c) r = Next (entry c)"

text \<open>
  Where a call stands between two accesses to the store: about to read, or about to store. One
  access takes the clock readings it makes (\<open>t1\<close> for the expiry check, \<open>t2\<close> for \<open>updated_at\<close>).
\<close>

datatype pc =
    Reading todo
  | Writing todo nat fsm_record fsm_out bool
  | Returned "(pyexn, fsm_out) result"

fun client_step ::
  "'s record_ops \<Rightarrow> (pyval \<Rightarrow> string) \<Rightarrow> rat \<Rightarrow> rat \<Rightarrow> pc \<Rightarrow> 's \<Rightarrow> 's \<times> pc" where
  "client_step ops other t1 t2 (Reading td) s =
     (case rs_get ops (todo_key td) t1 s of
        (s1, r) \<Rightarrow>
          (s1, case plan other td r of
                 Return x \<Rightarrow> Returned x
               | Next td' \<Rightarrow> Reading td'
               | Commit rv rep out retry \<Rightarrow> Writing td rv rep out retry))"
| "client_step ops other t1 t2 (Writing td rv rep out retry) s =
     (case rs_cas ops (todo_key td) rv rep t1 t2 s of
        (s1, Inr _) \<Rightarrow> (s1, Returned (Inr out))
      | (s1, Inl e) \<Rightarrow>
          (s1, if retry \<and> issubclass (exn_cls e) (St FSMRecordConflict) then Reading td
               else Returned (Inl e)))"
| "client_step ops other t1 t2 (Returned x) s = (s, Returned x)"

text \<open>One call alone, with a clock and a bound on the accesses; \<open>None\<close> when the bound is reached.\<close>

fun base_exec ::
  "'s record_ops \<Rightarrow> (pyval \<Rightarrow> string) \<Rightarrow> (nat \<Rightarrow> rat) \<Rightarrow> nat \<Rightarrow> pc \<Rightarrow> 's
   \<Rightarrow> 's \<times> (pyexn, fsm_out) result option" where
  "base_exec ops other clk n (Returned x) s = (s, Some x)"
| "base_exec ops other clk 0 p s = (s, None)"
| "base_exec ops other clk (Suc n) p s =
     (case client_step ops other (clk 0) (clk 1) p s of
        (s1, p1) \<Rightarrow> base_exec ops other (\<lambda>i. clk (i + 2)) n p1 s1)"

definition base_call ::
  "'s record_ops \<Rightarrow> (pyval \<Rightarrow> string) \<Rightarrow> (nat \<Rightarrow> rat) \<Rightarrow> nat \<Rightarrow> fsm_call \<Rightarrow> 's
   \<Rightarrow> 's \<times> (pyexn, fsm_out) result option" where
  "base_call ops other clk n c s = base_exec ops other clk n (Reading (entry c)) s"

lemma json_data_value: "json_data d \<Longrightarrow> is_json (data_value d)"
  by (auto simp: json_data_def data_value_def dict_ok_def list_all_iff comp_def case_prod_beta
      distinct_map inj_on_def)

lemma str_items_data [simp]: "str_items (map (\<lambda>(k, v). (PStr k, v)) d) = d"
  by (induction d) auto

lemma mk_record_json:
  "json_data d \<Longrightarrow> mk_record other st d ex v =
     Inr \<lparr> rec_state = st, rec_data = d, revision = 0, updated_at = None, expires_at = ex, schema_version = v \<rparr>"
  using json_data_value [of d]
  by (simp add: mk_record_def require_json_value_def deep_snapshot_fixed) (simp add: data_value_def)

lemma json_data_Nil [simp]: "json_data []"
  by (simp add: json_data_def)

lemma json_data_update: "json_data d \<Longrightarrow> json_data p \<Longrightarrow> json_data (dict_update d p)"
  using set_dict_update_subset [of d p] by (auto simp: json_data_def list_all_iff)

section \<open>The contract of a record store\<close>

text \<open>\<open>stored s k\<close> is the record under a key, expired or not; \<open>live\<close> what a reading at a time sees.\<close>

definition alive :: "rat \<Rightarrow> fsm_record option \<Rightarrow> fsm_record option" where
  "alive now v = (case v of Some r \<Rightarrow> if expired r now then None else Some r | None \<Rightarrow> None)"

text \<open>The state and data a key shows, and what a call does to them.\<close>

definition shown :: "fsm_record option \<Rightarrow> string option \<times> fsm_data" where
  "shown v = (state_of v, data_of v)"

text \<open>Records without an expiry whose data is JSON.\<close>

definition durable :: "fsm_record option \<Rightarrow> bool" where
  "durable v \<longleftrightarrow> (\<forall>r. v = Some r \<longrightarrow> expires_at r = None \<and> json_data (rec_data r) \<and> 0 < revision r)"

lemma alive_durable [simp]: "durable v \<Longrightarrow> alive t v = v"
  by (auto simp: durable_def alive_def expired_def split: option.split)

fun json_todo :: "todo \<Rightarrow> bool" where
  "json_todo (Body c) = json_call c"
| "json_todo (Mutate k st d) = (case d of None \<Rightarrow> True | Some d \<Rightarrow> json_data d)"

text \<open>What the rest of a method does to the state and data of its key when it is run at once.\<close>

fun effect :: "todo \<Rightarrow> string option \<times> fsm_data \<Rightarrow> string option \<times> fsm_data" where
  "effect (Body (UpdateData k p)) sd = (fst sd, dict_update (snd sd) p)"
| "effect (Body (Finish k)) sd = (None, [])"
| "effect (Body (SetState k st)) sd = (st, snd sd)"
| "effect (Body (SetData k d)) sd = (fst sd, d)"
| "effect (Body c) sd = sd"
| "effect (Mutate k st d) sd =
     (case st of None \<Rightarrow> fst sd | Some st \<Rightarrow> st, case d of None \<Rightarrow> snd sd | Some d \<Rightarrow> d)"

fun reply :: "todo \<Rightarrow> string option \<times> fsm_data \<Rightarrow> fsm_out" where
  "reply (Body (GetState k)) sd = StateOut (fst sd)"
| "reply (Body (GetData k)) sd = DataOut (snd sd)"
| "reply (Body (UpdateData k p)) sd = DataOut (dict_update (snd sd) p)"
| "reply td sd = NoOut"

fun is_update :: "todo \<Rightarrow> bool" where
  "is_update (Body (UpdateData k p)) = True"
| "is_update td = False"

lemma effect_entry: "effect (entry c) sd = fst (spec_call c (\<lambda>k. sd)) (call_key c)"
  by (cases c) simp_all

lemma reply_entry: "reply (entry c) sd = snd (spec_call c (\<lambda>k. sd))"
  by (cases c) simp_all

lemma spec_call_entry:
  "spec_call c v = (v(call_key c := effect (entry c) (v (call_key c))), reply (entry c) (v (call_key c)))"
  by (cases c) simp_all

lemma json_entry: "json_call c \<Longrightarrow> json_todo (entry c)"
  by (cases c) simp_all

lemma todo_key_entry [simp]: "todo_key (entry c) = call_key c"
  by (cases c) simp_all

text \<open>A plan made from a durable record does what the rest of the method is to do.\<close>

lemma plan_cases:
  assumes "durable r" and "json_todo td"
  shows "case plan other td r of
      Return x \<Rightarrow> x = Inr (reply td (shown r)) \<and> effect td (shown r) = shown r
    | Next td' \<Rightarrow> todo_key td' = todo_key td \<and> json_todo td' \<and> effect td' = effect td \<and> reply td' = reply td \<and>
        is_update td' = is_update td \<and> (\<exists>k st d. td' = Mutate k st d) \<and> (\<exists>c. td = Body c)
    | Commit n rep out retry \<Rightarrow>
        n = rev_of r \<and> expires_at rep = None \<and> json_data (rec_data rep) \<and>
        (rec_state rep, rec_data rep) = effect td (shown r) \<and> out = reply td (shown r) \<and>
        retry = is_update td"
proof -
  have r: "json_data (data_of r)" "Option.bind r expires_at = None"
    using assms(1) by (auto simp: durable_def data_of_def split: option.split bind_split)
  show ?thesis
  proof (cases td)
    case (Body c)
    then show ?thesis using assms(2) r
      by (cases c)
        (auto simp: shown_def Let_def commit_def replacement_def mk_record_json json_data_update
          state_of_def data_of_def fun_eq_iff)
  next
    case (Mutate k st d)
    then show ?thesis using assms(2) r
      by (cases d) (auto simp: shown_def commit_def replacement_def mk_record_json split: option.split)
  qed
qed

section \<open>Interleaved calls\<close>

text \<open>
  The store, the calls under way by caller, and the calls that returned, in the order they did.
  A caller with no call under way may begin one of \<open>calls\<close>; one with a call makes its next access, at
  any clock readings.
\<close>

record 's config =
  conf_store :: 's
  conf_pc :: "nat \<Rightarrow> (fsm_call \<times> pc) option"
  conf_hist :: "(fsm_call \<times> (pyexn, fsm_out) result) list"

fun settle :: "nat \<Rightarrow> fsm_call \<Rightarrow> 's \<times> pc \<Rightarrow> 's config \<Rightarrow> 's config" where
  "settle i q (s, Returned x) c =
     c\<lparr> conf_store := s, conf_pc := (conf_pc c)(i := None), conf_hist := conf_hist c @ [(q, x)] \<rparr>"
| "settle i q (s, p) c = c\<lparr> conf_store := s, conf_pc := (conf_pc c)(i := Some (q, p)) \<rparr>"

inductive conc_step ::
  "'s record_ops \<Rightarrow> (pyval \<Rightarrow> string) \<Rightarrow> (fsm_call \<Rightarrow> bool) \<Rightarrow> 's config \<Rightarrow> 's config \<Rightarrow> bool"
  for ops other calls where
  begin_call: "conf_pc c i = None \<Longrightarrow> calls q \<Longrightarrow>
    conc_step ops other calls c (c\<lparr> conf_pc := (conf_pc c)(i := Some (q, Reading (entry q))) \<rparr>)"
| access: "conf_pc c i = Some (q, p) \<Longrightarrow>
    conc_step ops other calls c (settle i q (client_step ops other t1 t2 p (conf_store c)) c)"

inductive conc_reach ::
  "'s record_ops \<Rightarrow> (pyval \<Rightarrow> string) \<Rightarrow> (fsm_call \<Rightarrow> bool) \<Rightarrow> 's config \<Rightarrow> 's config \<Rightarrow> bool"
  for ops other calls c0 where
  start: "conc_reach ops other calls c0 c0"
| more: "conc_reach ops other calls c0 c \<Longrightarrow> conc_step ops other calls c c' \<Longrightarrow> conc_reach ops other calls c0 c'"

definition initial :: "'s \<Rightarrow> 's config" where
  "initial s = \<lparr> conf_store = s, conf_pc = (\<lambda>i. None), conf_hist = [] \<rparr>"

text \<open>The calls that returned normally, with what they returned.\<close>

fun succeeded :: "(fsm_call \<times> (pyexn, fsm_out) result) list \<Rightarrow> (fsm_call \<times> fsm_out) list" where
  "succeeded [] = []"
| "succeeded ((q, Inr x) # h) = (q, x) # succeeded h"
| "succeeded ((q, Inl e) # h) = succeeded h"

lemma succeeded_append [simp]: "succeeded (h @ h') = succeeded h @ succeeded h'"
  by (induction h rule: succeeded.induct) simp_all

lemma spec_run_snoc:
  "spec_run (cs @ [c]) v =
     (fst (spec_call c (fst (spec_run cs v))),
      snd (spec_run cs v) @ [snd (spec_call c (fst (spec_run cs v)))])"
  by (induction cs arbitrary: v) simp_all

text \<open>What a call under way still does is what the call is to do.\<close>

definition todo_of :: "fsm_call \<Rightarrow> todo \<Rightarrow> bool" where
  "todo_of q td \<longleftrightarrow>
     todo_key td = call_key q \<and> json_todo td \<and> effect td = effect (entry q) \<and> reply td = reply (entry q) \<and>
     (is_update td \<longleftrightarrow> is_update (entry q))"

fun pc_ok :: "fsm_record option \<Rightarrow> fsm_call \<Rightarrow> pc \<Rightarrow> bool" where
  "pc_ok r q (Reading td) = todo_of q td"
| "pc_ok r q (Writing td n rep out retry) =
     (todo_of q td \<and> expires_at rep = None \<and> json_data (rec_data rep) \<and> retry = is_update td \<and>
      n \<le> rev_of r \<and>
      (n = rev_of r \<longrightarrow>
        (rec_state rep, rec_data rep) = effect td (shown r) \<and> out = reply td (shown r)))"
| "pc_ok r q (Returned x) = False"

text \<open>About to store under the revision \<open>n\<close>; how many readings a method may still make alone.\<close>

fun at_rev :: "nat \<Rightarrow> pc \<Rightarrow> bool" where
  "at_rev n (Writing td m rep out retry) = (m = n)"
| "at_rev n p = True"

fun todo_left :: "todo \<Rightarrow> nat" where
  "todo_left (Mutate k st d) = 1"
| "todo_left (Body c) = 2"

lemma todo_of_entry: "json_call q \<Longrightarrow> todo_of q (entry q)"
  by (simp add: todo_of_def json_entry)

lemma pc_ok_later:
  "pc_ok r q p \<Longrightarrow> rev_of r < rev_of r' \<Longrightarrow> pc_ok r' q p"
  by (cases p) auto

locale record_store =
  fixes stored :: "'s \<Rightarrow> storage_key \<Rightarrow> fsm_record option"
    and ops :: "'s record_ops"
  assumes get_out: "snd (rs_get ops k t s) = alive t (stored s k)"
    and get_stored: "stored (fst (rs_get ops k t s)) k' =
      (if k' = k then alive t (stored s k) else stored s k')"
    and cas_out: "snd (rs_cas ops k n rep t1 t2 s) =
      (if rev_of (alive t1 (stored s k)) = n then Inr (rep\<lparr> revision := n + 1, updated_at := Some t2 \<rparr>)
       else Inl (exn (St FSMRecordConflict)))"
    and cas_stored: "stored (fst (rs_cas ops k n rep t1 t2 s)) k' =
      (if k' \<noteq> k then stored s k'
       else if rev_of (alive t1 (stored s k)) = n
       then Some (rep\<lparr> revision := n + 1, updated_at := Some t2 \<rparr>)
       else alive t1 (stored s k))"
begin

definition good :: "fsm_view \<Rightarrow> 's config \<Rightarrow> bool" where
  "good v0 c \<longleftrightarrow>
     (\<forall>k. durable (stored (conf_store c) k)) \<and>
     (\<forall>i q p. conf_pc c i = Some (q, p) \<longrightarrow> pc_ok (stored (conf_store c) (call_key q)) q p) \<and>
     (let done = succeeded (conf_hist c)
      in spec_run (map fst done) v0 = ((\<lambda>k. shown (stored (conf_store c) k)), map snd done)) \<and>
     (\<forall>q e. (q, Inl e) \<in> set (conf_hist c) \<longrightarrow>
        e = exn (St FSMRecordConflict) \<and> \<not> is_update (entry q))"

lemma get_durable:
  assumes "\<forall>k. durable (stored s k)"
  shows "snd (rs_get ops k t s) = stored s k" and "stored (fst (rs_get ops k t s)) = stored s"
  using assms by (simp_all add: get_out get_stored fun_eq_iff)

lemma reading_outcome:
  assumes dur: "\<forall>k. durable (stored s k)" and pc: "todo_of q td"
    and step: "client_step ops other t1 t2 (Reading td) s = (s', p')"
  shows "stored s' = stored s \<and>
    (pc_ok (stored s (call_key q)) q p' \<and> at_rev (rev_of (stored s (call_key q))) p' \<and>
       (\<forall>td'. p' = Reading td' \<longrightarrow> todo_left td' < todo_left td) \<or>
     p' = Returned (Inr (snd (spec_call q (\<lambda>k. shown (stored s k))))) \<and>
       fst (spec_call q (\<lambda>k. shown (stored s k))) = (\<lambda>k. shown (stored s k)))"
proof -
  let ?r = "stored s (call_key q)"
  have td: "todo_key td = call_key q" "json_todo td" using pc by (simp_all add: todo_of_def)
  have s': "stored s' = stored s" and p': "p' = (case plan other td ?r of Return x \<Rightarrow> Returned x
      | Next td' \<Rightarrow> Reading td' | Commit n rep out retry \<Rightarrow> Writing td n rep out retry)"
    using step get_durable [OF dur, of "todo_key td" t1] td(1) by (auto split: prod.splits)
  have "durable ?r" using dur by simp
  from plan_cases [OF this td(2), of other] show ?thesis
    using s' p' pc
    by (cases "plan other td ?r")
      (auto simp: todo_of_def spec_call_entry fun_upd_idem_iff)
qed

lemma writing_outcome:
  assumes dur: "\<forall>k. durable (stored s k)" and pc: "pc_ok (stored s (call_key q)) q (Writing td n rep out retry)"
    and step: "client_step ops other t1 t2 (Writing td n rep out retry) s = (s', p')"
  shows "(n \<noteq> rev_of (stored s (call_key q)) \<and> stored s' = stored s \<and>
      (p' = Reading td \<or> p' = Returned (Inl (exn (St FSMRecordConflict))) \<and> \<not> is_update (entry q))) \<or>
    (\<exists>r'. durable (Some r') \<and> rev_of (stored s (call_key q)) < revision r' \<and>
      stored s' = (stored s)(call_key q := Some r') \<and>
      p' = Returned (Inr (snd (spec_call q (\<lambda>k. shown (stored s k))))) \<and>
      fst (spec_call q (\<lambda>k. shown (stored s k))) = (\<lambda>k. shown (stored s' k)))"
proof -
  let ?r = "stored s (call_key q)"
  have td: "todo_key td = call_key q" "is_update td = is_update (entry q)" "retry = is_update td"
    "effect td = effect (entry q)" "reply td = reply (entry q)"
    using pc by (simp_all add: todo_of_def)
  have al: "alive t1 (stored s k) = stored s k" for k using dur by simp
  have conf: "issubclass (exn_cls (exn (St FSMRecordConflict))) (St FSMRecordConflict)"
    by (simp add: issubclass_def eval_nat_numeral)
  show ?thesis
  proof (cases "rev_of ?r = n")
    case False
    then have "snd (rs_cas ops (todo_key td) n rep t1 t2 s) = Inl (exn (St FSMRecordConflict))"
      and "stored (fst (rs_cas ops (todo_key td) n rep t1 t2 s)) = stored s"
      by (simp_all add: cas_out cas_stored al td(1) fun_eq_iff)
    then show ?thesis using step td(2,3) conf False by (auto split: prod.splits if_splits)
  next
    case True
    define r' where "r' = rep\<lparr> revision := n + 1, updated_at := Some t2 \<rparr>"
    have out: "snd (rs_cas ops (todo_key td) n rep t1 t2 s) = Inr r'"
      and st: "stored (fst (rs_cas ops (todo_key td) n rep t1 t2 s)) = (stored s)(call_key q := Some r')"
      using True by (simp_all add: cas_out cas_stored al td(1) fun_eq_iff r'_def)
    have eff: "shown (Some r') = effect (entry q) (shown ?r)" and o: "out = reply (entry q) (shown ?r)"
      using pc True td(4,5) by (auto simp: r'_def shown_def state_of_def data_of_def)
    have "durable (Some r')" using pc by (simp add: durable_def r'_def)
    moreover have "fst (spec_call q (\<lambda>k. shown (stored s k))) =
        (\<lambda>k. shown (((stored s)(call_key q := Some r')) k))"
      using eff by (simp add: spec_call_entry fun_eq_iff)
    moreover have "rev_of ?r < revision r'" using True by (simp add: r'_def)
    ultimately show ?thesis using step out st o
      by (auto simp: spec_call_entry split: prod.splits)
  qed
qed

lemma good_keep:
  assumes "good v0 c" and "stored s' = stored (conf_store c)" and "pc_ok (stored s' (call_key q)) q p'"
  shows "good v0 (settle i q (s', p') c)"
  using assms by (cases p') (auto simp: good_def)

lemma good_fail:
  assumes "good v0 c" and "stored s' = stored (conf_store c)" and "\<not> is_update (entry q)"
  shows "good v0 (settle i q (s', Returned (Inl (exn (St FSMRecordConflict)))) c)"
  using assms by (auto simp: good_def Let_def)

lemma good_done:
  assumes good: "good v0 c"
    and dur: "\<forall>k. durable (stored s' k)"
    and grow: "\<forall>k. stored s' k = stored (conf_store c) k \<or> rev_of (stored (conf_store c) k) < rev_of (stored s' k)"
    and spec: "fst (spec_call q (\<lambda>k. shown (stored (conf_store c) k))) = (\<lambda>k. shown (stored s' k))"
  shows "good v0 (settle i q (s', Returned (Inr (snd (spec_call q (\<lambda>k. shown (stored (conf_store c) k)))))) c)"
proof -
  have "pc_ok (stored s' (call_key q')) q' p'" if "conf_pc c j = Some (q', p')" for j q' p'
    using good that grow pc_ok_later [of "stored (conf_store c) (call_key q')" q' p']
    by (metis (no_types, lifting) good_def)
  moreover have "spec_run (map fst (succeeded (conf_hist c))) v0 =
      ((\<lambda>k. shown (stored (conf_store c) k)), map snd (succeeded (conf_hist c)))"
    using good by (simp add: good_def Let_def)
  ultimately show ?thesis using good dur spec
    by (auto simp: good_def Let_def spec_run_snoc split: if_splits)
qed

lemma good_step:
  assumes good: "good v0 c" and json: "\<And>q. calls q \<Longrightarrow> json_call q" and step: "conc_step ops other calls c c'"
  shows "good v0 c'"
  using step
proof cases
  case (begin_call i q)
  then show ?thesis using good json [of q]
    by (auto simp: good_def todo_of_entry)
next
  case (access i q p t1 t2)
  let ?s = "conf_store c"
  obtain s' p' where st: "client_step ops other t1 t2 p ?s = (s', p')" by (metis surj_pair)
  have c': "c' = settle i q (s', p') c" using access(1) st by simp
  have dur: "\<forall>k. durable (stored ?s k)" and pc: "pc_ok (stored ?s (call_key q)) q p"
    using good access(2) by (auto simp: good_def)
  show ?thesis
  proof (cases p)
    case (Reading td)
    then have td: "todo_of q td" using pc by simp
    from reading_outcome [OF dur td st [unfolded Reading]]
    show ?thesis unfolding c' using good_keep [OF good, of s' q p' i] good_done [OF good, of s' q i] dur
      by (auto simp del: settle.simps)
  next
    case (Writing td n rep out retry)
    have "todo_of q td" using pc Writing by simp
    then have rd: "pc_ok (stored ?s (call_key q)) q (Reading td)" by simp
    from writing_outcome [OF dur pc [unfolded Writing] st [unfolded Writing]]
    show ?thesis
    proof
      assume "n \<noteq> rev_of (stored ?s (call_key q)) \<and> stored s' = stored ?s \<and>
        (p' = Reading td \<or> p' = Returned (Inl (exn (St FSMRecordConflict))) \<and> \<not> is_update (entry q))"
      then show ?thesis unfolding c'
        using good_keep [OF good, of s' q p' i] good_fail [OF good, of s' q i] rd
        by (auto simp del: settle.simps)
    next
      assume "\<exists>r'. durable (Some r') \<and> rev_of (stored ?s (call_key q)) < revision r' \<and>
        stored s' = (stored ?s)(call_key q := Some r') \<and>
        p' = Returned (Inr (snd (spec_call q (\<lambda>k. shown (stored ?s k))))) \<and>
        fst (spec_call q (\<lambda>k. shown (stored ?s k))) = (\<lambda>k. shown (stored s' k))"
      then obtain r' where r': "durable (Some r')" "rev_of (stored ?s (call_key q)) < revision r'"
        "stored s' = (stored ?s)(call_key q := Some r')"
        "p' = Returned (Inr (snd (spec_call q (\<lambda>k. shown (stored ?s k)))))"
        "fst (spec_call q (\<lambda>k. shown (stored ?s k))) = (\<lambda>k. shown (stored s' k))" by blast
      have "\<forall>k. stored s' k = stored ?s k \<or> rev_of (stored ?s k) < rev_of (stored s' k)"
        using r'(2,3) by (simp add: rev_of_def)
      moreover have "\<forall>k. durable (stored s' k)" using dur r'(1,3) by simp
      ultimately show ?thesis unfolding c' r'(4) using good_done [OF good _ _ r'(5)] by simp
    qed
  next
    case (Returned x)
    with pc show ?thesis by simp
  qed
qed

lemma good_reach:
  assumes "\<forall>k. durable (stored s k)" and "\<And>q. calls q \<Longrightarrow> json_call q"
    and "conc_reach ops other calls (initial s) c"
  shows "good (\<lambda>k. shown (stored s k)) c"
  using assms(3)
proof induction
  case start
  then show ?case using assms(1) by (simp add: good_def initial_def Let_def)
next
  case (more c c')
  then show ?case using good_step assms(2) by blast
qed

text \<open>One call alone on durable records: it meets no conflict and returns within three accesses.\<close>

lemma exec_writing:
  assumes dur: "\<forall>k. durable (stored s k)" and pc: "pc_ok (stored s (call_key q)) q (Writing td n rep out retry)"
    and n: "n = rev_of (stored s (call_key q))"
  shows "\<exists>s'. base_exec ops other clk (Suc m) (Writing td n rep out retry) s =
      (s', Some (Inr (snd (spec_call q (\<lambda>k. shown (stored s k)))))) \<and>
    (\<forall>k. durable (stored s' k)) \<and>
    (\<lambda>k. shown (stored s' k)) = fst (spec_call q (\<lambda>k. shown (stored s k)))"
proof -
  obtain s' p' where st: "client_step ops other (clk 0) (clk (Suc 0)) (Writing td n rep out retry) s = (s', p')"
    by (metis surj_pair)
  have run: "base_exec ops other clk (Suc m) (Writing td n rep out retry) s =
      base_exec ops other (\<lambda>i. clk (i + 2)) m p' s'"
    by (simp add: st del: client_step.simps)
  from writing_outcome [OF dur pc st] n dur show ?thesis unfolding run by auto
qed

lemma exec_reading:
  assumes dur: "\<forall>k. durable (stored s k)" and td: "todo_of q td"
  shows "\<exists>s'. base_exec ops other clk (todo_left td + Suc m) (Reading td) s =
      (s', Some (Inr (snd (spec_call q (\<lambda>k. shown (stored s k)))))) \<and>
    (\<forall>k. durable (stored s' k)) \<and>
    (\<lambda>k. shown (stored s' k)) = fst (spec_call q (\<lambda>k. shown (stored s k)))"
  using assms
proof (induction "todo_left td" arbitrary: td s clk rule: less_induct)
  case less
  obtain s' p' where st: "client_step ops other (clk 0) (clk (Suc 0)) (Reading td) s = (s', p')"
    by (metis surj_pair)
  note out = reading_outcome [OF less.prems st]
  have dur': "\<forall>k. durable (stored s' k)" using out less.prems(1) by simp
  have left: "todo_left td + Suc m = Suc (todo_left td + m)" by simp
  have step: "base_exec ops other clk (todo_left td + Suc m) (Reading td) s =
      base_exec ops other (\<lambda>i. clk (i + 2)) (todo_left td + m) p' s'"
    unfolding left base_exec.simps by (simp add: st del: client_step.simps)
  have pos: "0 < todo_left td" by (cases td) simp_all
  show ?case
  proof (cases p')
    case (Returned x)
    then show ?thesis using step out dur' by auto
  next
    case (Writing td' n rep out' retry)
    then have "pc_ok (stored s' (call_key q)) q p'" "n = rev_of (stored s' (call_key q))" using out by auto
    with exec_writing [OF dur', of q td' n rep out' retry other "\<lambda>i. clk (i + 2)" "todo_left td + m - 1"]
    show ?thesis using step Writing pos out by simp
  next
    case (Reading td')
    then have td': "todo_of q td'" "todo_left td' < todo_left td" using out by auto
    from less.hyps [OF td'(2) dur' td'(1)] obtain s2 where
      "base_exec ops other (\<lambda>i. clk (i + 2)) (todo_left td' + Suc m) (Reading td') s' =
        (s2, Some (Inr (snd (spec_call q (\<lambda>k. shown (stored s' k))))))" and
      s2: "\<forall>k. durable (stored s2 k)" "(\<lambda>k. shown (stored s2 k)) = fst (spec_call q (\<lambda>k. shown (stored s' k)))"
      by blast
    moreover have "todo_left td + m = todo_left td' + Suc m"
      using td'(2) by (cases td; cases td') simp_all
    ultimately show ?thesis using step Reading out by auto
  qed
qed

text \<open>Alone, but with records that may expire: a conflict means the record was dropped meanwhile, and
  the second attempt starts from nothing.\<close>

lemma exec_read:
  "base_exec ops other clk (Suc n) (Reading td) s =
     base_exec ops other (\<lambda>i. clk (i + 2)) n
       (case plan other td (alive (clk 0) (stored s (todo_key td))) of
          Return x \<Rightarrow> Returned x
        | Next td' \<Rightarrow> Reading td'
        | Commit rv rep out retry \<Rightarrow> Writing td rv rep out retry)
       (fst (rs_get ops (todo_key td) (clk 0) s))"
  by (simp add: case_prod_beta get_out)

lemma exec_write:
  "base_exec ops other clk (Suc n) (Writing td rv rep out retry) s =
     base_exec ops other (\<lambda>i. clk (i + 2)) n
       (if rev_of (alive (clk 0) (stored s (todo_key td))) = rv then Returned (Inr out)
        else if retry then Reading td else Returned (Inl (exn (St FSMRecordConflict))))
       (fst (rs_cas ops (todo_key td) rv rep (clk 0) (clk 1) s))"
  by (simp add: case_prod_beta cas_out issubclass_def eval_nat_numeral)

lemmas exec_access = exec_read exec_write

lemma alive_None [simp]: "alive t None = None"
  by (simp add: alive_def)

lemma exec_mutate_returns:
  "\<exists>x. snd (base_exec ops other clk (Suc (Suc m)) (Reading (Mutate k st d)) s) = Some x"
  by (auto simp: exec_access commit_def simp del: base_exec.simps(2-) split: sum.split)

lemma exec_update_fresh:
  "stored s k = None \<Longrightarrow>
   \<exists>x. snd (base_exec ops other clk (Suc (Suc m)) (Reading (Body (UpdateData k p))) s) = Some x"
  by (auto simp: exec_access commit_def Let_def get_stored rev_of_def simp del: base_exec.simps(2-)
      split: sum.split)

lemma alive_alive: "alive t' (alive t v) = None \<or> alive t' (alive t v) = alive t v"
  by (auto simp: alive_def split: option.split)

lemma exec_update_returns:
  "\<exists>x. snd (base_exec ops other clk (Suc (Suc (Suc (Suc m)))) (Reading (Body (UpdateData k p))) s) = Some x"
proof -
  let ?r = "alive (clk 0) (stored s k)"
  let ?s = "fst (rs_get ops k (clk 0) s)"
  show ?thesis
  proof (cases "replacement other ?r (state_of ?r) (dict_update (data_of ?r) p)")
    case (Inl e)
    then show ?thesis by (simp add: exec_access commit_def Let_def del: base_exec.simps(2-))
  next
    case (Inr rep)
    show ?thesis
    proof (cases "rev_of (alive (clk 2) ?r) = rev_of ?r")
      case True
      with Inr show ?thesis
        by (simp add: exec_access commit_def Let_def get_stored numeral_2_eq_2 del: base_exec.simps(2-))
    next
      case False
      then have "alive (clk 2) ?r = None" using alive_alive [of "clk 2" "clk 0" "stored s k"] by auto
      with False have gone: "stored (fst (rs_cas ops k (rev_of ?r) rep (clk 2) (clk 3) ?s)) k = None"
        by (simp add: cas_stored get_stored)
      have "base_exec ops other clk (Suc (Suc (Suc (Suc m)))) (Reading (Body (UpdateData k p))) s =
          base_exec ops other (\<lambda>i. clk (i + 2)) (Suc (Suc (Suc m)))
            (Writing (Body (UpdateData k p)) (rev_of ?r) rep (DataOut (dict_update (data_of ?r) p)) True) ?s"
        by (subst exec_read) (simp add: commit_def Let_def Inr)
      also have "\<dots> = base_exec ops other (\<lambda>i. clk (i + 2 + 2)) (Suc (Suc m)) (Reading (Body (UpdateData k p)))
          (fst (rs_cas ops k (rev_of ?r) rep (clk 2) (clk 3) ?s))"
        by (subst exec_write) (use False in \<open>simp add: get_stored numeral_2_eq_2 numeral_3_eq_3\<close>)
      finally show ?thesis using exec_update_fresh [OF gone] by simp
    qed
  qed
qed

lemma call_returns: "\<exists>x. snd (base_call ops other clk 4 q s) = Some x"
proof -
  have four: "4 = Suc (Suc (Suc (Suc 0)))" by simp
  show ?thesis
  proof (cases q)
    case (UpdateData k p)
    then show ?thesis using exec_update_returns by (simp add: base_call_def four del: base_exec.simps(2-))
  next
    case (SetState k st)
    then show ?thesis using exec_mutate_returns by (simp add: base_call_def four del: base_exec.simps(2-))
  next
    case (SetData k d)
    then show ?thesis using exec_mutate_returns by (simp add: base_call_def four del: base_exec.simps(2-))
  next
    case (Finish k)
    then show ?thesis using exec_mutate_returns [where m = 1]
      by (simp add: base_call_def four exec_read [where td = "Body (Finish k)"] del: base_exec.simps(2-))
  qed (simp_all add: base_call_def four exec_access del: base_exec.simps(2-))
qed

lemma call_alone:
  assumes "\<forall>k. durable (stored s k)" and "json_call q"
  shows "\<exists>s'. base_call ops other clk 4 q s = (s', Some (Inr (snd (spec_call q (\<lambda>k. shown (stored s k)))))) \<and>
    (\<forall>k. durable (stored s' k)) \<and>
    (\<lambda>k. shown (stored s' k)) = fst (spec_call q (\<lambda>k. shown (stored s k)))"
proof -
  have "\<exists>m. (4::nat) = todo_left (entry q) + Suc m"
    by (intro exI [of _ "3 - todo_left (entry q)"]) (cases q; simp)
  then obtain m where m: "(4::nat) = todo_left (entry q) + Suc m" by blast
  show ?thesis unfolding base_call_def m
    by (rule exec_reading [OF assms(1) todo_of_entry [OF assms(2)]])
qed

end

section \<open>Schedules\<close>

text \<open>A concrete interleaving, to be evaluated.\<close>

datatype move = Begin nat fsm_call | Access nat rat rat

fun do_move :: "'s record_ops \<Rightarrow> (pyval \<Rightarrow> string) \<Rightarrow> move \<Rightarrow> 's config \<Rightarrow> 's config" where
  "do_move ops other (Begin i q) c =
     (case conf_pc c i of
        None \<Rightarrow> c\<lparr> conf_pc := (conf_pc c)(i := Some (q, Reading (entry q))) \<rparr>
      | Some _ \<Rightarrow> c)"
| "do_move ops other (Access i t1 t2) c =
     (case conf_pc c i of
        None \<Rightarrow> c
      | Some (q, p) \<Rightarrow> settle i q (client_step ops other t1 t2 p (conf_store c)) c)"

fun move_allowed :: "(fsm_call \<Rightarrow> bool) \<Rightarrow> move \<Rightarrow> bool" where
  "move_allowed calls (Begin i q) = calls q"
| "move_allowed calls (Access i t1 t2) = True"

lemma do_moves_reach:
  "conc_reach ops other calls c0 c \<Longrightarrow> list_all (move_allowed calls) ms \<Longrightarrow>
   conc_reach ops other calls c0 (fold (do_move ops other) ms c)"
proof (induction ms arbitrary: c)
  case Nil
  then show ?case by simp
next
  case (Cons m ms)
  have "conc_reach ops other calls c0 (do_move ops other m c)"
  proof (cases m)
    case (Begin i q)
    then show ?thesis using Cons.prems
      by (auto split: option.split intro: conc_reach.more conc_step.begin_call)
  next
    case (Access i t1 t2)
    show ?thesis
    proof (cases "conf_pc c i")
      case None
      then show ?thesis using Access Cons.prems by simp
    next
      case (Some qp)
      obtain q p where "qp = (q, p)" by (cases qp)
      then have "conc_step ops other calls c (settle i q (client_step ops other t1 t2 p (conf_store c)) c)"
        using Some by (intro conc_step.access) simp
      then show ?thesis using Access Some \<open>qp = (q, p)\<close> conc_reach.more [OF Cons.prems(1)] by simp
    qed
  qed
  then show ?case using Cons by simp
qed

lemmas moves_reach = do_moves_reach [OF conc_reach.start]

section \<open>The in-process store meets the contract\<close>

lemma dict_get_del_record [simp]: "dict_get (del_record k s) k' = (if k' = k then None else dict_get s k')"
  by (simp add: del_record_def)

interpretation mem_records: record_store dict_get memory_records
  by unfold_locales
    (auto simp: memory_records_def get_record_def compare_and_set_def alive_def rev_of_def Let_def
      split: option.splits)

text \<open>C8. Linearizability without a TTL: run the six methods over the in-process record store in any
  interleaving of any number of callers. The calls that returned normally, in the order in which they
  returned, are a run of the contract: each returned what the contract prescribes at its place and
  the store shows what they leave together. A call that failed had no effect, failed with the conflict
  and is no \<open>update_data\<close>: no update is lost.\<close>

theorem no_lost_update:
  assumes "\<forall>k. durable (dict_get s k)" and "\<forall>q. calls q \<longrightarrow> json_call q"
    and "conc_reach memory_records other calls (initial s) c"
  shows "spec_run (map fst (succeeded (conf_hist c))) (\<lambda>k. shown (dict_get s k)) =
      ((\<lambda>k. shown (dict_get (conf_store c) k)), map snd (succeeded (conf_hist c))) \<and>
    (\<forall>q e. (q, Inl e) \<in> set (conf_hist c) \<longrightarrow>
      e = exn (St FSMRecordConflict) \<and> (\<forall>k p. q \<noteq> UpdateData k p))"
proof -
  from mem_records.good_reach [of s calls other c] assms
  have "mem_records.good (\<lambda>k. shown (dict_get s k)) c" by blast
  then show ?thesis
    by (fastforce simp: mem_records.good_def Let_def)
qed

text \<open>Two updates of one key that meet: the second to store conflicts, reads again and keeps both.\<close>

definition sample_key :: storage_key where
  "sample_key = \<lparr> key_user = Some ''users/1'', key_space = None, key_thread = None \<rparr>"

definition sample_calls :: "fsm_call \<Rightarrow> bool" where
  "sample_calls q \<longleftrightarrow> q = UpdateData sample_key [(''a'', PInt 1)] \<or> q = UpdateData sample_key [(''b'', PInt 1)]"

definition sample_moves :: "rat \<Rightarrow> rat \<Rightarrow> move list" where
  "sample_moves t u =
     [Begin 0 (UpdateData sample_key [(''a'', PInt 1)]), Begin 1 (UpdateData sample_key [(''b'', PInt 1)]),
      Access 0 t t, Access 1 u u, Access 1 u u, Access 0 u u]"

lemma sample_moves_allowed: "list_all (move_allowed sample_calls) (sample_moves t u)"
  by (simp add: sample_moves_def sample_calls_def)

lemmas sample_eval = sample_moves_def sample_key_def initial_def memory_records_def get_record_def
  compare_and_set_def expired_def del_record_def commit_def replacement_def mk_record_json json_data_def
  dict_ok_def state_of_def data_of_def rev_of_def issubclass_def eval_nat_numeral Let_def

lemma no_lost_update_witness:
  "spec_run (map fst (succeeded (conf_hist
      (fold (do_move memory_records (\<lambda>v. [])) (sample_moves 1 2) (initial []))))) (\<lambda>k. (None, [])) =
    ((\<lambda>k. shown (dict_get (conf_store
        (fold (do_move memory_records (\<lambda>v. [])) (sample_moves 1 2) (initial []))) k)),
     map snd (succeeded (conf_hist
        (fold (do_move memory_records (\<lambda>v. [])) (sample_moves 1 2) (initial [])))))"
  using no_lost_update [of "[]" sample_calls "\<lambda>v. []"
      "fold (do_move memory_records (\<lambda>v. [])) (sample_moves 1 2) (initial [])"]
    moves_reach [OF sample_moves_allowed, of memory_records "\<lambda>v. []" "initial []" 1 2]
  by (simp add: durable_def sample_calls_def json_data_def dict_ok_def shown_def state_of_def data_of_def)

text \<open>The adapter as a six-method storage, with the clock of one call fixed.\<close>

definition record_call :: "'s record_ops \<Rightarrow> (pyval \<Rightarrow> string) \<Rightarrow> (nat \<Rightarrow> rat) \<Rightarrow> 's storage" where
  "record_call ops other clk c s =
     (case base_call ops other clk 4 c s of
        (s', Some x) \<Rightarrow> (s', x)
      | (s', None) \<Rightarrow> (s', Inl (exn (Py RuntimeErr))))"

definition record_view :: "record_map \<Rightarrow> fsm_view" where
  "record_view s k = shown (dict_get s k)"

interpretation adapter: six_method_storage "\<lambda>s. \<forall>k. durable (dict_get s k)" json_call record_view
    "record_call memory_records other clk" for other clk
proof unfold_locales
  fix s :: record_map and c assume a: "\<forall>k. durable (dict_get s k)" "json_call c"
  have v: "record_view s' = (\<lambda>k. shown (dict_get s' k))" for s' by (simp add: record_view_def fun_eq_iff)
  from mem_records.call_alone [OF a, of other clk]
  show "\<forall>k. durable (dict_get (fst (record_call memory_records other clk c s)) k)"
    and "snd (record_call memory_records other clk c s) = Inr (snd (spec_call c (record_view s)))"
    and "record_view (fst (record_call memory_records other clk c s)) = fst (spec_call c (record_view s))"
    by (auto simp: record_call_def v)
qed

text \<open>The two storages are interchangeable: on JSON data and records without a TTL, every sequence
  of calls returns the same results from the in-process storage and from the adapter over the
  in-process record store, and leaves the same state and data under every key.\<close>

theorem storages_agree:
  assumes "list_all json_call cs" and "\<forall>k. durable (dict_get r k)" and "memory_view s = record_view r"
  shows "snd (storage_run (record_call memory_records other clk) cs r) = snd (storage_run mem_call cs s) \<and>
    record_view (fst (storage_run (record_call memory_records other clk) cs r)) =
      memory_view (fst (storage_run mem_call cs s))"
  using adapter.run_spec [OF assms(2,1)] mem.run_spec [OF _ assms(1), of s] assms(3) by simp

lemma storages_agree_witness:
  "snd (storage_run (record_call memory_records (\<lambda>v. []) (\<lambda>i. of_nat i))
      [SetState sample_key (Some ''Form:name''), UpdateData sample_key [(''a'', PInt 1)], GetData sample_key] []) =
   [Inr NoOut, Inr (DataOut [(''a'', PInt 1)]), Inr (DataOut [(''a'', PInt 1)])]"
proof -
  have "snd (storage_run (record_call memory_records (\<lambda>v. []) (\<lambda>i. of_nat i))
      [SetState sample_key (Some ''Form:name''), UpdateData sample_key [(''a'', PInt 1)], GetData sample_key] []) =
    snd (storage_run mem_call
      [SetState sample_key (Some ''Form:name''), UpdateData sample_key [(''a'', PInt 1)], GetData sample_key] [])"
    by (rule conjunct1 [OF storages_agree])
      (simp_all add: json_data_def dict_ok_def durable_def memory_view_def record_view_def shown_def
        state_of_def data_of_def fun_eq_iff)
  then show ?thesis by (simp add: mem_defs Let_def)
qed

text \<open>Alone, every call of the adapter over the in-process record store returns within four accesses,
  whatever the records, their expiry, the data and the clock.\<close>

theorem adapter_returns:
  "\<exists>x. snd (base_call memory_records other clk 4 c s) = Some x"
  by (rule mem_records.call_returns)

text \<open>C36. With a TTL an update can be lost: the revision of a key starts again at one after its record
  expired, so a caller that read the old record stores its replacement over what another caller
  wrote in between. Here the second update returned with its field stored; the first one then
  returned too, and afterwards a reading of the key finds neither.\<close>

theorem ttl_loses_update:
  "\<exists>s c. conc_reach memory_records other sample_calls (initial s) c \<and>
     conf_hist c =
       [(UpdateData sample_key [(''b'', PInt 1)], Inr (DataOut [(''b'', PInt 1)])),
        (UpdateData sample_key [(''a'', PInt 1)], Inr (DataOut [(''n'', PInt 1), (''a'', PInt 1)]))] \<and>
     snd (get_record sample_key 20 (conf_store c)) = None"
proof -
  define s :: record_map where
    "s = [(sample_key, \<lparr> rec_state = None, rec_data = [(''n'', PInt 1)], revision = 1,
            updated_at = Some 0, expires_at = Some 10, schema_version = 0 \<rparr>)]"
  define c where "c = fold (do_move memory_records other) (sample_moves 5 20) (initial s)"
  have "conc_reach memory_records other sample_calls (initial s) c"
    unfolding c_def by (rule moves_reach [OF sample_moves_allowed])
  moreover have "conf_hist c =
       [(UpdateData sample_key [(''b'', PInt 1)], Inr (DataOut [(''b'', PInt 1)])),
        (UpdateData sample_key [(''a'', PInt 1)], Inr (DataOut [(''n'', PInt 1), (''a'', PInt 1)]))]"
    by (simp add: c_def s_def sample_eval)
  moreover have "snd (get_record sample_key 20 (conf_store c)) = None"
    by (simp add: c_def s_def sample_eval)
  ultimately show ?thesis by blast
qed

end
