(* ===== verification/Idempotency.thy ===== *)
theory Idempotency
  imports Exceptions
begin

text \<open>
  Owner-safe idempotency of push deliveries (\<open>idempotency.py\<close>): the claims of the in-process store
  and its four operations. Each operation runs under the key's lock and has no suspension point
  inside, so it is one atomic step; what \<open>self._clock()\<close> returns is an argument, one per reading.
  The locale \<open>claim_store\<close> states the contract in terms of what a key shows; its lemmas are about
  every sequence of operations. The Redis store is in \<open>RedisClaims\<close>.
\<close>

section \<open>The store\<close>

datatype claim_result = FIRST | COMPLETED | ACTIVE

record claim_entry =
  owner :: string
  lease_until :: rat
  completed :: bool

type_synonym claims = "(string, claim_entry) pdict"

definition del_claim :: "string \<Rightarrow> claims \<Rightarrow> claims" where
  "del_claim k s = filter (\<lambda>(k', c). k' \<noteq> k) s"

definition prune_expired :: "string \<Rightarrow> rat \<Rightarrow> claims \<Rightarrow> claims" where
  "prune_expired k now s =
     (case dict_get s k of
        Some c \<Rightarrow> if \<not> completed c \<and> lease_until c \<le> now then del_claim k s else s
      | None \<Rightarrow> s)"

definition claim :: "string \<Rightarrow> string \<Rightarrow> rat \<Rightarrow> rat \<Rightarrow> rat \<Rightarrow> claims \<Rightarrow> claims \<times> claim_result" where
  "claim k ow lease t1 t2 s0 =
     (let s = prune_expired k t1 s0
      in case dict_get s k of
           None \<Rightarrow>
             (dict_set k \<lparr> owner = ow, lease_until = t2 + lease, completed = False \<rparr> s, FIRST)
         | Some c \<Rightarrow> if completed c then (s, COMPLETED) else (s, ACTIVE))"

definition complete :: "string \<Rightarrow> string \<Rightarrow> claims \<Rightarrow> claims" where
  "complete k ow s =
     (case dict_get s k of
        Some c \<Rightarrow> if owner c = ow then dict_set k (c\<lparr> completed := True \<rparr>) s else s
      | None \<Rightarrow> s)"

definition release :: "string \<Rightarrow> string \<Rightarrow> claims \<Rightarrow> claims" where
  "release k ow s =
     (case dict_get s k of
        Some c \<Rightarrow> if owner c = ow then del_claim k s else s
      | None \<Rightarrow> s)"

definition renew :: "string \<Rightarrow> string \<Rightarrow> rat \<Rightarrow> rat \<Rightarrow> claims \<Rightarrow> claims \<times> bool" where
  "renew k ow lease now s =
     (case dict_get s k of
        None \<Rightarrow> (s, False)
      | Some c \<Rightarrow>
          if owner c \<noteq> ow \<or> completed c then (s, False)
          else (dict_set k (c\<lparr> lease_until := now + lease \<rparr>) s, True))"

lemma dict_get_del [simp, dict_simps]:
  "dict_get (del_claim k s) k' = (if k = k' then None else dict_get s k')"
  by (induction s) (auto simp: del_claim_def)

section \<open>Sequences of operations\<close>

text \<open>The operations of the protocol as data, with the clock readings each one makes.\<close>

datatype idem_op =
    Claim string string rat rat rat
  | Complete string string
  | Release string string
  | Renew string string rat rat

fun op_key :: "idem_op \<Rightarrow> string" where
  "op_key (Claim k ow l t1 t2) = k"
| "op_key (Complete k ow) = k"
| "op_key (Release k ow) = k"
| "op_key (Renew k ow l t) = k"

fun op_owner :: "idem_op \<Rightarrow> string" where
  "op_owner (Claim k ow l t1 t2) = ow"
| "op_owner (Complete k ow) = ow"
| "op_owner (Release k ow) = ow"
| "op_owner (Renew k ow l t) = ow"

text \<open>The first clock reading of an operation, when it reads the clock.\<close>

fun op_time :: "idem_op \<Rightarrow> rat option" where
  "op_time (Claim k ow l t1 t2) = Some t1"
| "op_time (Renew k ow l t) = Some t"
| "op_time _ = None"

text \<open>What a call returns: the outcome of \<open>claim\<close>, the boolean of \<open>renew\<close>, nothing otherwise.\<close>

datatype idem_out = Claimed claim_result | Renewed bool | Unit

text \<open>An implementation of the protocol, and one operation or a sequence of them run on it.\<close>

record 's claim_ops =
  op_claim :: "string \<Rightarrow> string \<Rightarrow> rat \<Rightarrow> rat \<Rightarrow> rat \<Rightarrow> 's \<Rightarrow> 's \<times> claim_result"
  op_complete :: "string \<Rightarrow> string \<Rightarrow> 's \<Rightarrow> 's"
  op_release :: "string \<Rightarrow> string \<Rightarrow> 's \<Rightarrow> 's"
  op_renew :: "string \<Rightarrow> string \<Rightarrow> rat \<Rightarrow> rat \<Rightarrow> 's \<Rightarrow> 's \<times> bool"

definition memory_ops :: "claims claim_ops" where
  "memory_ops = \<lparr> op_claim = claim, op_complete = complete, op_release = release, op_renew = renew \<rparr>"

fun idem_step :: "'s claim_ops \<Rightarrow> idem_op \<Rightarrow> 's \<Rightarrow> 's \<times> idem_out" where
  "idem_step ops (Claim k ow l t1 t2) s = map_prod id Claimed (op_claim ops k ow l t1 t2 s)"
| "idem_step ops (Complete k ow) s = (op_complete ops k ow s, Unit)"
| "idem_step ops (Release k ow) s = (op_release ops k ow s, Unit)"
| "idem_step ops (Renew k ow l t) s = map_prod id Renewed (op_renew ops k ow l t s)"

fun idem_run :: "'s claim_ops \<Rightarrow> idem_op list \<Rightarrow> 's \<Rightarrow> 's \<times> idem_out list" where
  "idem_run ops [] s = (s, [])"
| "idem_run ops (a # as) s =
     (fst (idem_run ops as (fst (idem_step ops a s))),
      snd (idem_step ops a s) # snd (idem_run ops as (fst (idem_step ops a s))))"

definition is_first :: "idem_out \<Rightarrow> bool" where
  "is_first r \<longleftrightarrow> r = Claimed FIRST"

section \<open>The contract\<close>

text \<open>
  What a key shows at a time: nothing, or its claim; an unfinished claim whose lease has run out
  shows nothing.
\<close>

definition live :: "rat \<Rightarrow> claim_entry option \<Rightarrow> claim_entry option" where
  "live now v =
     (case v of
        None \<Rightarrow> None
      | Some c \<Rightarrow> if \<not> completed c \<and> lease_until c \<le> now then None else Some c)"

text \<open>
  An operation that does not disturb the claim of \<open>ow\<close> on \<open>k\<close> before \<open>until\<close>: a claim of \<open>k\<close> made
  earlier, a renewal by \<open>ow\<close> that does not shorten the lease, and no release by \<open>ow\<close> itself.
\<close>

fun undisturbing :: "string \<Rightarrow> string \<Rightarrow> rat \<Rightarrow> idem_op \<Rightarrow> bool" where
  "undisturbing k ow until (Claim k' ow' l t1 t2) = (k' = k \<longrightarrow> t1 < until)"
| "undisturbing k ow until (Complete k' ow') = True"
| "undisturbing k ow until (Release k' ow') = (\<not> (k' = k \<and> ow' = ow))"
| "undisturbing k ow until (Renew k' ow' l t) = (k' = k \<and> ow' = ow \<longrightarrow> until \<le> t + l)"

definition holds :: "string \<Rightarrow> rat \<Rightarrow> claim_entry option \<Rightarrow> bool" where
  "holds ow until v \<longleftrightarrow> (\<exists>c. v = Some c \<and> owner c = ow \<and> (completed c \<or> until \<le> lease_until c))"

definition done_by :: "string \<Rightarrow> claim_entry option \<Rightarrow> bool" where
  "done_by ow v \<longleftrightarrow> (\<exists>c. v = Some c \<and> owner c = ow \<and> completed c)"

locale claim_store =
  fixes view :: "'s \<Rightarrow> string \<Rightarrow> claim_entry option"
    and ops :: "'s claim_ops"
  assumes clm_out: "snd (op_claim ops k ow l t1 t2 s) =
      (case live t1 (view s k) of None \<Rightarrow> FIRST | Some c \<Rightarrow> if completed c then COMPLETED else ACTIVE)"
    and clm_view: "view (fst (op_claim ops k ow l t1 t2 s)) k' =
      (if k' \<noteq> k then view s k'
       else case live t1 (view s k) of
              None \<Rightarrow> Some \<lparr> owner = ow, lease_until = t2 + l, completed = False \<rparr>
            | Some c \<Rightarrow> Some c)"
    and cmp_view: "view (op_complete ops k ow s) k' =
      map_option (\<lambda>c. if k' = k \<and> owner c = ow then c\<lparr> completed := True \<rparr> else c) (view s k')"
    and rel_view: "view (op_release ops k ow s) k' =
      Option.bind (view s k') (\<lambda>c. if k' = k \<and> owner c = ow then None else Some c)"
    and ren_view: "view (fst (op_renew ops k ow l t s)) k' =
      map_option (\<lambda>c. if k' = k \<and> owner c = ow \<and> \<not> completed c then c\<lparr> lease_until := t + l \<rparr> else c)
        (view s k')"
    and ren_out: "snd (op_renew ops k ow l t s) =
      (case view s k of Some c \<Rightarrow> owner c = ow \<and> \<not> completed c | None \<Rightarrow> False)"
begin

lemmas views = clm_out clm_view cmp_view rel_view ren_view ren_out

text \<open>An operation on another key changes nothing a key shows, and its outcome depends on its own
  key only.\<close>

lemma step_frame: "op_key a \<noteq> k \<Longrightarrow> view (fst (idem_step ops a s)) k = view s k"
  by (cases a) (auto simp: views option.map_ident split: option.split bind_split)

lemma step_local:
  "view s (op_key a) = view s' (op_key a) \<Longrightarrow>
   view (fst (idem_step ops a s)) (op_key a) = view (fst (idem_step ops a s')) (op_key a) \<and>
   snd (idem_step ops a s) = snd (idem_step ops a s')"
  by (cases a) (simp_all add: views)

lemma run_local:
  "view s k = view s' k \<Longrightarrow>
   view (fst (idem_run ops as s)) k = view (fst (idem_run ops (filter (\<lambda>a. op_key a = k) as) s')) k \<and>
   map snd (filter (\<lambda>(a, r). op_key a = k) (zip as (snd (idem_run ops as s)))) =
     snd (idem_run ops (filter (\<lambda>a. op_key a = k) as) s')"
proof (induction as arbitrary: s s')
  case Nil
  then show ?case by simp
next
  case (Cons a as)
  show ?case
  proof (cases "op_key a = k")
    case True
    with Cons.prems step_local [of s a s'] Cons.IH show ?thesis by simp
  next
    case False
    with Cons.prems step_frame [of a k s] Cons.IH show ?thesis by simp
  qed
qed

text \<open>While a claim holds it stays held and no claim of the key is a first one.\<close>

lemma step_holds:
  assumes "holds ow until (view s k)" and "undisturbing k ow until a"
  shows "holds ow until (view (fst (idem_step ops a s)) k)"
    and "op_key a = k \<Longrightarrow> \<not> is_first (snd (idem_step ops a s))"
proof -
  obtain c where c: "view s k = Some c" "owner c = ow" "completed c \<or> until \<le> lease_until c"
    using assms(1) by (auto simp: holds_def)
  show "holds ow until (view (fst (idem_step ops a s)) k)"
    using c assms(2) by (cases a) (auto simp: views holds_def live_def)
  show "op_key a = k \<Longrightarrow> \<not> is_first (snd (idem_step ops a s))"
    using c assms(2) by (cases a) (auto simp: views live_def is_first_def)
qed

lemma step_done:
  assumes "done_by ow (view s k)" and "a \<noteq> Release k ow"
  shows "done_by ow (view (fst (idem_step ops a s)) k)"
    and "op_key a = k \<Longrightarrow> snd (idem_step ops a s) \<in> {Claimed COMPLETED, Renewed False, Unit}"
proof -
  obtain c where c: "view s k = Some c" "owner c = ow" "completed c"
    using assms(1) by (auto simp: done_by_def)
  show "done_by ow (view (fst (idem_step ops a s)) k)"
    using c assms(2) by (cases a) (auto simp: views done_by_def live_def)
  show "op_key a = k \<Longrightarrow> snd (idem_step ops a s) \<in> {Claimed COMPLETED, Renewed False, Unit}"
    using c assms(2) by (cases a) (auto simp: views live_def)
qed

lemma run_holds:
  "holds ow until (view s k) \<Longrightarrow> \<forall>a \<in> set as. undisturbing k ow until a \<Longrightarrow>
   \<forall>(a, r) \<in> set (zip as (snd (idem_run ops as s))). op_key a = k \<longrightarrow> \<not> is_first r"
proof (induction as arbitrary: s)
  case Nil
  then show ?case by simp
next
  case (Cons a as)
  then have a: "undisturbing k ow until a" by simp
  note here = step_holds [OF Cons.prems(1) a]
  from Cons.IH [OF here(1)] Cons.prems(2) here(2) show ?case by simp
qed

lemma run_done:
  "done_by ow (view s k) \<Longrightarrow> Release k ow \<notin> set as \<Longrightarrow>
   \<forall>(a, r) \<in> set (zip as (snd (idem_run ops as s))).
     op_key a = k \<longrightarrow> r \<in> {Claimed COMPLETED, Renewed False, Unit}"
proof (induction as arbitrary: s)
  case Nil
  then show ?case by simp
next
  case (Cons a as)
  then have a: "a \<noteq> Release k ow" by auto
  note here = step_done [OF Cons.prems(1) a]
  from Cons.IH [OF here(1)] Cons.prems(2) here(2) show ?case by simp
qed

lemma first_holds:
  "snd (idem_step ops (Claim k ow l t1 t2) s) = Claimed FIRST \<Longrightarrow>
   view (fst (idem_step ops (Claim k ow l t1 t2) s)) k =
     Some \<lparr> owner = ow, lease_until = t2 + l, completed = False \<rparr>"
  by (auto simp: views split: option.splits if_splits)

text \<open>Nobody else's operation touches an unexpired claim.\<close>

lemma step_others:
  assumes "view s k = Some c" and "op_key a = k \<Longrightarrow> op_owner a \<noteq> owner c"
    and "\<And>ow l t1 t2. a = Claim k ow l t1 t2 \<Longrightarrow> t1 < lease_until c"
  shows "view (fst (idem_step ops a s)) k = Some c"
  using assms by (cases a) (auto simp: views live_def)

lemma run_others:
  "view s k = Some c \<Longrightarrow> \<forall>a \<in> set as. op_key a = k \<longrightarrow> op_owner a \<noteq> owner c \<Longrightarrow>
   \<forall>ow l t1 t2. Claim k ow l t1 t2 \<in> set as \<longrightarrow> t1 < lease_until c \<Longrightarrow>
   view (fst (idem_run ops as s)) k = Some c"
proof (induction as arbitrary: s)
  case Nil
  then show ?case by simp
next
  case (Cons a as)
  then have "view (fst (idem_step ops a s)) k = Some c"
    by (intro step_others) auto
  then have "view (fst (idem_run ops as (fst (idem_step ops a s)))) k = Some c"
    by (rule Cons.IH) (use Cons.prems(2,3) in auto)
  then show ?case by simp
qed

end

section \<open>The memory store meets the contract\<close>

lemmas memory_defs = memory_ops_def claim_def complete_def release_def renew_def prune_expired_def live_def

interpretation mem: claim_store dict_get memory_ops
  by unfold_locales
    (auto simp: memory_defs Let_def map_option_case split: option.splits bind_splits)

text \<open>After \<open>claim\<close> answered FIRST to an owner, no operation of any sequence answers FIRST for that
  key as long as the owner does not release it, no renewal by the owner shortens the lease and every
  claim comes before the lease runs out: two workers never hold one delivery at a time.\<close>

theorem claim_exclusive:
  assumes "snd (idem_step memory_ops (Claim k ow l t1 t2) s) = Claimed FIRST"
    and "\<forall>a \<in> set as. undisturbing k ow (t2 + l) a"
  shows "\<forall>(a, r) \<in> set (zip as (snd (idem_run memory_ops as
           (fst (idem_step memory_ops (Claim k ow l t1 t2) s))))). op_key a = k \<longrightarrow> \<not> is_first r"
proof (rule mem.run_holds [OF _ assms(2)])
  show "holds ow (t2 + l) (dict_get (fst (idem_step memory_ops (Claim k ow l t1 t2) s)) k)"
    using mem.first_holds [OF assms(1)] by (simp add: holds_def)
qed

lemma claim_exclusive_witness:
  "map is_first (snd (idem_run memory_ops [Renew ''m'' ''A'' 60 5, Claim ''m'' ''B'' 60 9 9]
      (fst (idem_step memory_ops (Claim ''m'' ''A'' 60 0 0) [])))) = [False, False]"
proof -
  have "\<forall>(a, r) \<in> set (zip [Renew ''m'' ''A'' 60 5, Claim ''m'' ''B'' 60 9 9]
      (snd (idem_run memory_ops [Renew ''m'' ''A'' 60 5, Claim ''m'' ''B'' 60 9 9]
         (fst (idem_step memory_ops (Claim ''m'' ''A'' 60 0 0) []))))).
     op_key a = ''m'' \<longrightarrow> \<not> is_first r"
    by (rule claim_exclusive) (simp_all add: memory_ops_def claim_def prune_expired_def)
  then show ?thesis by simp
qed

text \<open>Once the owner completed a claim, every later operation on the key, whatever the time,
  leaves it done: a claim answers COMPLETED and a renewal is refused, until that owner itself
  releases the key.\<close>

theorem completed_absorbs:
  assumes "dict_get s k = Some c" and "Release k (owner c) \<notin> set as"
  shows "\<forall>(a, r) \<in> set (zip as (snd (idem_run memory_ops as (complete k (owner c) s)))).
           op_key a = k \<longrightarrow> r \<in> {Claimed COMPLETED, Renewed False, Unit}"
  using mem.run_done [of "owner c" "complete k (owner c) s" k as] assms
  by (simp add: done_by_def complete_def)

lemma completed_absorbs_witness:
  "snd (idem_run memory_ops [Claim ''m'' ''B'' 60 900 900]
      (complete ''m'' ''A'' [(''m'', \<lparr> owner = ''A'', lease_until = 60, completed = False \<rparr>)])) =
    [Claimed COMPLETED]"
proof -
  let ?c = "\<lparr> owner = ''A'', lease_until = 60, completed = False \<rparr>"
  have "\<forall>(a, r) \<in> set (zip [Claim ''m'' ''B'' 60 900 900]
      (snd (idem_run memory_ops [Claim ''m'' ''B'' 60 900 900] (complete ''m'' (owner ?c) [(''m'', ?c)])))).
     op_key a = ''m'' \<longrightarrow> r \<in> {Claimed COMPLETED, Renewed False, Unit}"
    by (rule completed_absorbs) simp_all
  then show ?thesis by simp
qed

text \<open>Crash recovery: when the owner of a claim does nothing more, whatever the others try before
  the lease runs out leaves its claim as it is, and the first claim after that takes the key over.\<close>

theorem expired_claim_taken_over:
  assumes "dict_get s k = Some c" and "\<not> completed c"
    and "\<forall>a \<in> set as. op_key a = k \<longrightarrow> op_owner a \<noteq> owner c"
    and "\<forall>ow l t1 t2. Claim k ow l t1 t2 \<in> set as \<longrightarrow> t1 < lease_until c"
    and "lease_until c \<le> t"
  shows "dict_get (fst (idem_run memory_ops as s)) k = Some c \<and>
    claim k ow l t t' (fst (idem_run memory_ops as s)) =
      (dict_set k \<lparr> owner = ow, lease_until = t' + l, completed = False \<rparr>
         (del_claim k (fst (idem_run memory_ops as s))), FIRST)"
proof
  show v: "dict_get (fst (idem_run memory_ops as s)) k = Some c"
    using assms(1,3,4) by (rule mem.run_others)
  then show "claim k ow l t t' (fst (idem_run memory_ops as s)) =
      (dict_set k \<lparr> owner = ow, lease_until = t' + l, completed = False \<rparr>
         (del_claim k (fst (idem_run memory_ops as s))), FIRST)"
    using assms(2,5) by (simp add: claim_def prune_expired_def)
qed

lemma expired_claim_taken_over_witness:
  "snd (claim ''m'' ''C'' 60 60 61 (fst (idem_run memory_ops
      [Claim ''m'' ''B'' 60 30 30, Complete ''m'' ''B'', Release ''m'' ''B'']
      [(''m'', \<lparr> owner = ''A'', lease_until = 60, completed = False \<rparr>)]))) = FIRST"
  using expired_claim_taken_over [of "[(''m'', \<lparr> owner = ''A'', lease_until = 60, completed = False \<rparr>)]"
      "''m''" "\<lparr> owner = ''A'', lease_until = 60, completed = False \<rparr>"
      "[Claim ''m'' ''B'' 60 30 30, Complete ''m'' ''B'', Release ''m'' ''B'']" 60 "''C''" 60 61]
  by auto

text \<open>The keys are independent: what any sequence of operations leaves under a key, and the
  outcomes of the operations on it, are those of its own operations run alone. So one lock per key
  is enough.\<close>

theorem keys_independent:
  "dict_get (fst (idem_run memory_ops as s)) k =
     dict_get (fst (idem_run memory_ops (filter (\<lambda>a. op_key a = k) as) s)) k \<and>
   map snd (filter (\<lambda>(a, r). op_key a = k) (zip as (snd (idem_run memory_ops as s)))) =
     snd (idem_run memory_ops (filter (\<lambda>a. op_key a = k) as) s)"
  using mem.run_local [of s k s as] by simp

end
