(* ===== verification/RedisServer.thy ===== *)
theory RedisServer
  imports Prelude
begin

text \<open>
  A Redis server as its documentation describes the commands the two Redis stores use, SET, SET NX, GET, DEL,
  WATCH, MULTI and EXEC, on one key (keys share nothing), and the clients that send them. The server counts the
  writes of the key; an expired key is absent. EXEC executes nothing when the key was written since the WATCH or
  has expired since. The server and the clients read one clock. \<open>rstep\<close> interleaves the commands of any number
  of clients with the passing of time; the locale \<open>redis_client\<close> says what a client has to show for its
  invariant to hold in every run.
\<close>

section \<open>The server\<close>

record 'v server =
  sv_now :: rat
  sv_value :: "'v option"
  sv_deadline :: "rat option"
  sv_version :: nat

definition run_out :: "rat option \<Rightarrow> rat \<Rightarrow> bool" where
  "run_out d now \<longleftrightarrow> (case d of None \<Rightarrow> False | Some t \<Rightarrow> t \<le> now)"

definition visible :: "'v server \<Rightarrow> 'v option" where
  "visible sv = (if run_out (sv_deadline sv) (sv_now sv) then None else sv_value sv)"

text \<open>SET with a time to live or without one, and DEL.\<close>

definition write_key :: "'v \<Rightarrow> rat option \<Rightarrow> 'v server \<Rightarrow> 'v server" where
  "write_key c px sv =
     sv\<lparr> sv_value := Some c, sv_deadline := map_option (\<lambda>t. sv_now sv + t) px, sv_version := Suc (sv_version sv) \<rparr>"

definition delete_key :: "'v server \<Rightarrow> 'v server" where
  "delete_key sv = sv\<lparr> sv_value := None, sv_version := Suc (sv_version sv) \<rparr>"

text \<open>What WATCH remembers of the key: its version and whether it was there. EXEC fails on a conflict.\<close>

type_synonym watch = "nat \<times> bool"

definition watch_key :: "'v server \<Rightarrow> watch" where
  "watch_key sv = (sv_version sv, visible sv \<noteq> None)"

definition conflict :: "'v server \<Rightarrow> watch \<Rightarrow> bool" where
  "conflict sv w \<longleftrightarrow> fst w \<noteq> sv_version sv \<or> snd w \<and> visible sv = None"

text \<open>\<open>max(1, int(seconds * 1000))\<close> milliseconds, in seconds; \<open>int\<close> rounds towards zero.\<close>

definition to_int :: "rat \<Rightarrow> int" where
  "to_int x = (if 0 \<le> x then \<lfloor>x\<rfloor> else \<lceil>x\<rceil>)"

definition expiry :: "rat \<Rightarrow> rat" where
  "expiry seconds = of_int (max 1 (to_int (seconds * 1000))) / 1000"

lemma watch_key_current [simp]: "\<not> conflict sv (watch_key sv)"
  by (auto simp: conflict_def watch_key_def)

lemma watch_key_version [simp]: "fst (watch_key sv) = sv_version sv"
  by (simp add: watch_key_def)

lemma no_conflictD: "\<not> conflict sv w \<Longrightarrow> fst w = sv_version sv"
  by (simp add: conflict_def)

lemma visible_value: "visible sv = Some x \<Longrightarrow> sv_value sv = Some x"
  by (simp add: visible_def split: if_splits)

section \<open>The server moves on\<close>

text \<open>Time passes, and a key that was not written keeps its value.\<close>

definition later :: "'v server \<Rightarrow> 'v server \<Rightarrow> bool" where
  "later sv sv' \<longleftrightarrow>
     sv_now sv \<le> sv_now sv' \<and> sv_version sv \<le> sv_version sv' \<and>
     (sv_version sv = sv_version sv' \<longrightarrow> sv_value sv' = sv_value sv \<and> sv_deadline sv' = sv_deadline sv)"

lemma later_refl [simp]: "later sv sv"
  by (simp add: later_def)

lemma later_write [simp]: "later sv (write_key c px sv)"
  by (simp add: later_def write_key_def)

lemma later_delete [simp]: "later sv (delete_key sv)"
  by (simp add: later_def delete_key_def)

lemma later_tick [simp]: "0 \<le> d \<Longrightarrow> later sv (sv\<lparr> sv_now := sv_now sv + d \<rparr>)"
  by (simp add: later_def)

lemma later_trans: "later a b \<Longrightarrow> later b c \<Longrightarrow> later a c"
  by (auto simp: later_def)

lemma visible_later: "later sv sv' \<Longrightarrow> sv_version sv = sv_version sv' \<Longrightarrow> visible sv = None \<Longrightarrow> visible sv' = None"
  by (auto simp: later_def visible_def run_out_def split: if_splits option.splits)

text \<open>What was read of the key is what it holds, as long as nothing was written since.\<close>

definition read_of :: "'v server \<Rightarrow> 'v option \<Rightarrow> bool" where
  "read_of sv oc \<longleftrightarrow> (case oc of None \<Rightarrow> visible sv = None | Some c \<Rightarrow> sv_value sv = Some c)"

lemma read_of_simps [simp]:
  "read_of sv None \<longleftrightarrow> visible sv = None"
  "read_of sv (Some c) \<longleftrightarrow> sv_value sv = Some c"
  by (simp_all add: read_of_def)

lemma read_of_visible [simp]: "read_of sv (visible sv)"
  by (auto simp: read_of_def visible_def split: option.splits)

lemma read_of_later: "read_of sv oc \<Longrightarrow> later sv sv' \<Longrightarrow> sv_version sv = sv_version sv' \<Longrightarrow> read_of sv' oc"
  using visible_later [of sv sv'] by (cases oc) (auto simp: later_def)

section \<open>Interleavings\<close>

record ('v, 'p) conf =
  cf_server :: "'v server"
  cf_procs :: "nat \<Rightarrow> 'p"

datatype 'c action = Tick rat | Call nat 'c | Run nat

inductive rstep ::
  "('v server \<Rightarrow> 'p \<Rightarrow> 'v server \<times> 'p) \<Rightarrow> ('p \<Rightarrow> bool) \<Rightarrow> ('c \<Rightarrow> 'p)
   \<Rightarrow> ('v, 'p) conf \<Rightarrow> 'c action \<Rightarrow> ('v, 'p) conf \<Rightarrow> bool" for command free start where
  tick: "0 \<le> d \<Longrightarrow>
    rstep command free start s (Tick d) (s\<lparr> cf_server := (cf_server s)\<lparr> sv_now := sv_now (cf_server s) + d \<rparr> \<rparr>)"
| call: "free (cf_procs s i) \<Longrightarrow>
    rstep command free start s (Call i opr) (s\<lparr> cf_procs := (cf_procs s)(i := start opr) \<rparr>)"
| step: "command (cf_server s) (cf_procs s i) = (sv, p) \<Longrightarrow>
    rstep command free start s (Run i) \<lparr> cf_server = sv, cf_procs = (cf_procs s)(i := p) \<rparr>"

inductive_cases runE: "rstep command free start s (Run i) s'"

inductive rruns ::
  "('v server \<Rightarrow> 'p \<Rightarrow> 'v server \<times> 'p) \<Rightarrow> ('p \<Rightarrow> bool) \<Rightarrow> ('c \<Rightarrow> 'p)
   \<Rightarrow> ('v, 'p) conf \<Rightarrow> 'c action list \<Rightarrow> ('v, 'p) conf \<Rightarrow> bool" for command free start where
  none: "rruns command free start s [] s"
| more: "rstep command free start s a s1 \<Longrightarrow> rruns command free start s1 as s2 \<Longrightarrow>
    rruns command free start s (a # as) s2"

definition empty_conf :: "'p \<Rightarrow> ('v, 'p) conf" where
  "empty_conf p =
     \<lparr> cf_server = \<lparr> sv_now = 0, sv_value = None, sv_deadline = None, sv_version = 0 \<rparr>, cf_procs = (\<lambda>i. p) \<rparr>"

lemma rruns_snoc:
  "rruns command free start s as s1 \<Longrightarrow> rstep command free start s1 a s2 \<Longrightarrow>
   rruns command free start s (as @ [a]) s2"
  by (induction rule: rruns.induct) (auto intro: rruns.intros)

lemma one_tick:
  "0 \<le> d \<Longrightarrow> rruns command free start s [Tick d] (s\<lparr> cf_server := (cf_server s)\<lparr> sv_now := sv_now (cf_server s) + d \<rparr> \<rparr>)"
  by (rule rruns.more [OF rstep.tick rruns.none])

text \<open>The configuration a sequence of actions leads to, and whether each of them was possible.\<close>

fun perform ::
  "('v server \<Rightarrow> 'p \<Rightarrow> 'v server \<times> 'p) \<Rightarrow> ('c \<Rightarrow> 'p) \<Rightarrow> 'c action \<Rightarrow> ('v, 'p) conf \<Rightarrow> ('v, 'p) conf" where
  "perform command start (Tick d) s = s\<lparr> cf_server := (cf_server s)\<lparr> sv_now := sv_now (cf_server s) + d \<rparr> \<rparr>"
| "perform command start (Call i opr) s = s\<lparr> cf_procs := (cf_procs s)(i := start opr) \<rparr>"
| "perform command start (Run i) s =
     (case command (cf_server s) (cf_procs s i) of (sv, p) \<Rightarrow> \<lparr> cf_server = sv, cf_procs = (cf_procs s)(i := p) \<rparr>)"

fun possible :: "('p \<Rightarrow> bool) \<Rightarrow> 'c action \<Rightarrow> ('v, 'p) conf \<Rightarrow> bool" where
  "possible free (Tick d) s \<longleftrightarrow> 0 \<le> d"
| "possible free (Call i opr) s \<longleftrightarrow> free (cf_procs s i)"
| "possible free (Run i) s \<longleftrightarrow> True"

fun performs ::
  "('v server \<Rightarrow> 'p \<Rightarrow> 'v server \<times> 'p) \<Rightarrow> ('p \<Rightarrow> bool) \<Rightarrow> ('c \<Rightarrow> 'p) \<Rightarrow> 'c action list \<Rightarrow> ('v, 'p) conf
   \<Rightarrow> ('v, 'p) conf option" where
  "performs command free start [] s = Some s"
| "performs command free start (a # as) s =
     (if possible free a s then performs command free start as (perform command start a s) else None)"

lemma perform_step: "possible free a s \<Longrightarrow> rstep command free start s a (perform command start a s)"
  by (cases a) (auto intro: rstep.intros split: prod.split)

lemma performs_run: "performs command free start as s = Some s' \<Longrightarrow> rruns command free start s as s'"
  by (induction as arbitrary: s) (auto intro: rruns.intros perform_step split: if_splits)

lemma performs_snoc:
  "performs command free start (as @ [a]) s =
     Option.bind (performs command free start as s) (\<lambda>s1. if possible free a s1 then Some (perform command start a s1) else None)"
  by (induction as arbitrary: s) auto

locale redis_client =
  fixes command :: "'v server \<Rightarrow> 'p \<Rightarrow> 'v server \<times> 'p"
    and free :: "'p \<Rightarrow> bool"
    and start :: "'c \<Rightarrow> 'p"
    and ok :: "'v server \<Rightarrow> 'p \<Rightarrow> bool"
  assumes command_later: "command sv p = (sv', p') \<Longrightarrow> later sv sv'"
    and command_ok: "ok sv p \<Longrightarrow> command sv p = (sv', p') \<Longrightarrow> ok sv' p'"
    and ok_later: "ok sv p \<Longrightarrow> later sv sv' \<Longrightarrow> ok sv' p"
    and start_ok: "ok sv (start opr)"
begin

lemma rstep_later: "rstep command free start s a s' \<Longrightarrow> later (cf_server s) (cf_server s')"
  by (induction rule: rstep.induct) (auto dest: command_later)

lemma rruns_later: "rruns command free start s as s' \<Longrightarrow> later (cf_server s) (cf_server s')"
  by (induction rule: rruns.induct) (auto dest: rstep_later intro: later_trans)

lemma rstep_ok:
  "rstep command free start s a s' \<Longrightarrow> \<forall>i. ok (cf_server s) (cf_procs s i) \<Longrightarrow> ok (cf_server s') (cf_procs s' j)"
proof (induction rule: rstep.induct)
  case (tick d s)
  then show ?case using ok_later [OF _ later_tick [OF tick.hyps]] by simp
next
  case (call s i opr)
  then show ?case by (simp add: start_ok)
next
  case (step s i sv p)
  then show ?case using command_ok [OF _ step.hyps] ok_later [OF _ command_later [OF step.hyps]] by simp
qed

lemma rruns_ok:
  "rruns command free start s as s' \<Longrightarrow> \<forall>i. ok (cf_server s) (cf_procs s i) \<Longrightarrow> ok (cf_server s') (cf_procs s' j)"
proof (induction arbitrary: j rule: rruns.induct)
  case (more s a s1 as s2)
  then show ?case using rstep_ok [OF more.hyps(1)] by simp
qed simp

end

end
