(* ===== verification/RedisClaims.thy ===== *)
theory RedisClaims
  imports Idempotency RedisServer
begin

text \<open>
  The Redis store of the idempotency protocol (\<open>idempotency.py\<close>, \<open>RedisIdempotencyStorage\<close>): each operation is
  a sequence of commands that interleaves with those of the other operations, the passing of time and the expiry
  of the key; the server is in \<open>RedisServer\<close>. Claims are stored decoded.
\<close>

section \<open>The operations\<close>

datatype redis_op = RClaim string rat | RComplete string | RRelease string | RRenew string rat

fun rop_owner :: "redis_op \<Rightarrow> string" where
  "rop_owner (RClaim ow l) = ow"
| "rop_owner (RComplete ow) = ow"
| "rop_owner (RRelease ow) = ow"
| "rop_owner (RRenew ow l) = ow"

datatype queued = SetNxCmd claim_entry "rat option" | SetCmd claim_entry "rat option" | DelCmd

text \<open>Where a call is: its value is the claim the call writes, made when \<open>claim\<close> starts; the last
  but one component is what it remembers of the key it watches.\<close>

datatype phase =
    Idle | Started redis_op | TrySet redis_op claim_entry | ToWatch redis_op claim_entry
  | ToGet redis_op claim_entry watch | Got redis_op claim_entry watch "claim_entry option"
  | ToExec redis_op claim_entry watch queued | Finished redis_op idem_out

definition fresh_claim :: "string \<Rightarrow> rat \<Rightarrow> rat \<Rightarrow> claim_entry" where
  "fresh_claim ow lease now = \<lparr> owner = ow, lease_until = now + lease, completed = False \<rparr>"

text \<open>What a call makes of the claim it read: its answer, or the command it queues.\<close>

fun decide :: "rat \<Rightarrow> rat \<Rightarrow> redis_op \<Rightarrow> claim_entry \<Rightarrow> claim_entry option \<Rightarrow> idem_out + queued" where
  "decide retention now (RClaim ow l) v None = Inr (SetNxCmd v (Some (expiry l)))"
| "decide retention now (RClaim ow l) v (Some c) =
     (if completed c then Inl (Claimed COMPLETED)
      else if now < lease_until c then Inl (Claimed ACTIVE)
      else Inr (SetCmd v (Some (expiry l))))"
| "decide retention now (RRenew ow l) v None = Inl (Renewed False)"
| "decide retention now (RRenew ow l) v (Some c) =
     (if owner c \<noteq> ow \<or> completed c then Inl (Renewed False)
      else Inr (SetCmd (fresh_claim ow l now) (Some (expiry l))))"
| "decide retention now (RComplete ow) v None = Inl Unit"
| "decide retention now (RComplete ow) v (Some c) =
     (if owner c \<noteq> ow then Inl Unit
      else Inr (SetCmd \<lparr> owner = ow, lease_until = lease_until c, completed = True \<rparr> (Some (expiry retention))))"
| "decide retention now (RRelease ow) v None = Inl Unit"
| "decide retention now (RRelease ow) v (Some c) = (if owner c \<noteq> ow then Inl Unit else Inr DelCmd)"

text \<open>The answer of a call whose transaction was executed.\<close>

fun done_answer :: "redis_op \<Rightarrow> idem_out" where
  "done_answer (RClaim ow l) = Claimed FIRST"
| "done_answer (RRenew ow l) = Renewed True"
| "done_answer (RComplete ow) = Unit"
| "done_answer (RRelease ow) = Unit"

definition exec_queued :: "redis_op \<Rightarrow> queued \<Rightarrow> claim_entry server \<Rightarrow> claim_entry server \<times> idem_out" where
  "exec_queued opr w sv =
     (case w of
        SetNxCmd c px \<Rightarrow> if visible sv = None then (write_key c px sv, Claimed FIRST) else (sv, Claimed ACTIVE)
      | SetCmd c px \<Rightarrow> (write_key c px sv, done_answer opr)
      | DelCmd \<Rightarrow> (delete_key sv, done_answer opr))"

text \<open>The next command of a call.\<close>

fun proc_step :: "rat \<Rightarrow> claim_entry server \<Rightarrow> phase \<Rightarrow> claim_entry server \<times> phase" where
  "proc_step ret_s sv Idle = (sv, Idle)"
| "proc_step ret_s sv (Finished opr out) = (sv, Finished opr out)"
| "proc_step ret_s sv (Started opr) =
     (case opr of
        RClaim ow l \<Rightarrow> (sv, TrySet opr (fresh_claim ow l (sv_now sv)))
      | _ \<Rightarrow> (sv, ToWatch opr (fresh_claim (rop_owner opr) 0 (sv_now sv))))"
| "proc_step ret_s sv (TrySet opr v) =
     (case opr of
        RClaim ow l \<Rightarrow>
          if visible sv = None then (write_key v (Some (expiry l)) sv, Finished opr (Claimed FIRST)) else (sv, ToWatch opr v)
      | _ \<Rightarrow> (sv, ToWatch opr v))"
| "proc_step ret_s sv (ToWatch opr v) = (sv, ToGet opr v (watch_key sv))"
| "proc_step ret_s sv (ToGet opr v n) = (sv, Got opr v n (visible sv))"
| "proc_step ret_s sv (Got opr v n oc) =
     (case decide ret_s (sv_now sv) opr v oc of
        Inl out \<Rightarrow> (sv, Finished opr out)
      | Inr w \<Rightarrow> (sv, ToExec opr v n w))"
| "proc_step ret_s sv (ToExec opr v n w) =
     (if conflict sv n then (sv, ToWatch opr v)
      else (case exec_queued opr w sv of (sv', out) \<Rightarrow> (sv', Finished opr out)))"

section \<open>Interleavings\<close>

definition callable :: "phase \<Rightarrow> bool" where
  "callable p \<longleftrightarrow> (case p of Idle \<Rightarrow> True | Finished opr out \<Rightarrow> True | _ \<Rightarrow> False)"

abbreviation claim_step :: "rat \<Rightarrow> (claim_entry, phase) conf \<Rightarrow> redis_op action \<Rightarrow> (claim_entry, phase) conf \<Rightarrow> bool" where
  "claim_step ret_s \<equiv> rstep (proc_step ret_s) callable Started"

abbreviation claim_runs :: "rat \<Rightarrow> (claim_entry, phase) conf \<Rightarrow> redis_op action list \<Rightarrow> (claim_entry, phase) conf \<Rightarrow> bool" where
  "claim_runs ret_s \<equiv> rruns (proc_step ret_s) callable Started"

abbreviation no_claims :: "(claim_entry, phase) conf" where
  "no_claims \<equiv> empty_conf Idle"

section \<open>The invariant\<close>

definition made_by :: "string \<Rightarrow> rat \<Rightarrow> rat \<Rightarrow> claim_entry \<Rightarrow> bool" where
  "made_by ow l now c \<longleftrightarrow> (\<exists>t. t \<le> now \<and> c = fresh_claim ow l t)"

lemma made_now [simp]: "made_by ow l now (fresh_claim ow l now)"
  by (auto simp: made_by_def)

lemma made_later: "made_by ow l a c \<Longrightarrow> a \<le> b \<Longrightarrow> made_by ow l b c"
  by (auto simp: made_by_def intro: order_trans)

text \<open>What a call knows of the key while the version it watches is current.\<close>

fun justified :: "claim_entry server \<Rightarrow> redis_op \<Rightarrow> claim_entry \<Rightarrow> queued \<Rightarrow> bool" where
  "justified sv (RClaim ow l) v (SetNxCmd c px) \<longleftrightarrow> c = v \<and> px = Some (expiry l) \<and> visible sv = None"
| "justified sv (RClaim ow l) v (SetCmd c px) \<longleftrightarrow>
     c = v \<and> px = Some (expiry l) \<and> (\<exists>x. sv_value sv = Some x \<and> \<not> completed x \<and> lease_until x \<le> sv_now sv)"
| "justified sv (RRenew ow l) v (SetCmd c px) \<longleftrightarrow>
     made_by ow l (sv_now sv) c \<and> (\<exists>x. sv_value sv = Some x \<and> owner x = ow \<and> \<not> completed x)"
| "justified sv (RComplete ow) v (SetCmd c px) \<longleftrightarrow>
     (\<exists>x. sv_value sv = Some x \<and> owner x = ow \<and> c = x\<lparr> completed := True \<rparr>)"
| "justified sv (RRelease ow) v DelCmd \<longleftrightarrow> (\<exists>x. sv_value sv = Some x \<and> owner x = ow)"
| "justified sv opr v w \<longleftrightarrow> False"

fun claim_value :: "claim_entry server \<Rightarrow> redis_op \<Rightarrow> claim_entry \<Rightarrow> bool" where
  "claim_value sv (RClaim ow l) v \<longleftrightarrow> made_by ow l (sv_now sv) v"
| "claim_value sv opr v \<longleftrightarrow> True"

fun phase_ok :: "claim_entry server \<Rightarrow> phase \<Rightarrow> bool" where
  "phase_ok sv (TrySet opr v) \<longleftrightarrow> (\<exists>ow l. opr = RClaim ow l) \<and> claim_value sv opr v"
| "phase_ok sv (ToWatch opr v) \<longleftrightarrow> claim_value sv opr v"
| "phase_ok sv (ToGet opr v n) \<longleftrightarrow> claim_value sv opr v \<and> fst n \<le> sv_version sv"
| "phase_ok sv (Got opr v n oc) \<longleftrightarrow>
     claim_value sv opr v \<and> fst n \<le> sv_version sv \<and> (fst n = sv_version sv \<longrightarrow> read_of sv oc)"
| "phase_ok sv (ToExec opr v n w) \<longleftrightarrow>
     claim_value sv opr v \<and> fst n \<le> sv_version sv \<and> (fst n = sv_version sv \<longrightarrow> justified sv opr v w)"
| "phase_ok sv p \<longleftrightarrow> True"

lemma claim_value_later: "claim_value sv opr v \<Longrightarrow> later sv sv' \<Longrightarrow> claim_value sv' opr v"
  by (cases opr) (auto simp: later_def intro: made_later)

lemma justified_later: "justified sv opr v w \<Longrightarrow> later sv sv' \<Longrightarrow> sv_version sv = sv_version sv' \<Longrightarrow> justified sv' opr v w"
  using visible_later [of sv sv']
  by (cases "(sv, opr, v, w)" rule: justified.cases) (auto simp: later_def intro: made_later)

lemma phase_ok_later:
  assumes ok: "phase_ok sv p" and l: "later sv sv'"
  shows "phase_ok sv' p"
proof -
  have v: "claim_value sv opr v \<Longrightarrow> claim_value sv' opr v" for opr v using claim_value_later l by blast
  have n: "k \<le> sv_version sv'" if "k \<le> sv_version sv" for k using that l by (simp add: later_def)
  have same: "sv_version sv = sv_version sv'" if "k \<le> sv_version sv" "k = sv_version sv'" for k
    using that l by (simp add: later_def)
  show ?thesis
    using ok v n same justified_later [OF _ l] read_of_later [OF _ l] by (cases p) auto
qed

lemma decide_justified:
  assumes "decide ret_s (sv_now sv) opr v oc = Inr w" and "read_of sv oc"
  shows "justified sv opr v w"
proof (cases opr)
  case (RComplete ow)
  then show ?thesis using assms by (cases oc) (auto split: if_splits)
qed (use assms in \<open>cases oc; auto split: if_splits\<close>)+

lemma exec_queued_later: "exec_queued opr w sv = (sv', out) \<Longrightarrow> later sv sv'"
  by (cases w) (auto simp: exec_queued_def later_def write_key_def delete_key_def split: if_splits)

lemma proc_step_later: "proc_step ret_s sv p = (sv', p') \<Longrightarrow> later sv sv'"
proof (cases p)
  case (ToExec opr v n w)
  assume "proc_step ret_s sv p = (sv', p')"
  then show ?thesis using ToExec exec_queued_later [of opr w sv] by (auto split: if_splits prod.splits)
next
  case (TrySet opr v)
  assume "proc_step ret_s sv p = (sv', p')"
  then show ?thesis using TrySet by (cases opr) (auto split: if_splits)
next
  case (Started opr)
  assume "proc_step ret_s sv p = (sv', p')"
  then show ?thesis using Started by (cases opr) auto
next
  case (Got opr v n oc)
  assume "proc_step ret_s sv p = (sv', p')"
  then show ?thesis using Got by (cases "decide ret_s (sv_now sv) opr v oc") auto
qed auto

lemma proc_step_ok: "phase_ok sv p \<Longrightarrow> proc_step ret_s sv p = (sv', p') \<Longrightarrow> phase_ok sv' p'"
proof (cases p)
  case (Got opr v n oc)
  assume "phase_ok sv p" "proc_step ret_s sv p = (sv', p')"
  then show ?thesis using Got decide_justified [of ret_s sv opr v oc]
    by (cases "decide ret_s (sv_now sv) opr v oc") auto
next
  case (TrySet opr v)
  assume "phase_ok sv p" "proc_step ret_s sv p = (sv', p')"
  then show ?thesis using TrySet by (auto split: if_splits)
next
  case (Started opr)
  assume "phase_ok sv p" "proc_step ret_s sv p = (sv', p')"
  then show ?thesis using Started by (cases opr) auto
next
  case (ToGet opr v n)
  assume "phase_ok sv p" "proc_step ret_s sv p = (sv', p')"
  then show ?thesis using ToGet by auto
next
  case (ToExec opr v n w)
  assume "phase_ok sv p" "proc_step ret_s sv p = (sv', p')"
  then show ?thesis using ToExec by (auto split: if_splits prod.splits)
qed auto

interpretation claim_client: redis_client "proc_step ret_s" callable Started phase_ok
  by unfold_locales (auto intro: proc_step_later proc_step_ok phase_ok_later)

lemma claim_runs_ok: "claim_runs ret_s no_claims as s \<Longrightarrow> phase_ok (cf_server s) (cf_procs s i)"
  using claim_client.rruns_ok [of ret_s no_claims as s i] by (simp add: empty_conf_def)

section \<open>Atomicity\<close>

text \<open>The operation of the in-process store on what one key shows.\<close>

definition one_key :: "claim_entry option \<Rightarrow> claims" where
  "one_key v = (case v of None \<Rightarrow> [] | Some c \<Rightarrow> [(''k'', c)])"

fun idem_op_of :: "redis_op \<Rightarrow> rat \<Rightarrow> rat \<Rightarrow> idem_op" where
  "idem_op_of (RClaim ow l) t1 t2 = Claim ''k'' ow l t1 t2"
| "idem_op_of (RComplete ow) t1 t2 = Complete ''k'' ow"
| "idem_op_of (RRelease ow) t1 t2 = Release ''k'' ow"
| "idem_op_of (RRenew ow l) t1 t2 = Renew ''k'' ow l t2"

definition atomically :: "redis_op \<Rightarrow> rat \<Rightarrow> rat \<Rightarrow> claim_entry option \<Rightarrow> claim_entry option \<times> idem_out" where
  "atomically opr t1 t2 v =
     (case idem_step memory_ops (idem_op_of opr t1 t2) (one_key v) of (s, out) \<Rightarrow> (dict_get s ''k'', out))"

lemma one_key_get [simp]: "dict_get (one_key v) ''k'' = v"
  by (cases v) (simp_all add: one_key_def)

lemma atomically_simps:
  "atomically (RClaim ow l) t1 t2 v =
     (case live t1 v of
        None \<Rightarrow> (Some (fresh_claim ow l t2), Claimed FIRST)
      | Some c \<Rightarrow> (Some c, Claimed (if completed c then COMPLETED else ACTIVE)))"
  "atomically (RComplete ow) t1 t2 v =
     (map_option (\<lambda>c. if owner c = ow then c\<lparr> completed := True \<rparr> else c) v, Unit)"
  "atomically (RRelease ow) t1 t2 v = (Option.bind v (\<lambda>c. if owner c = ow then None else Some c), Unit)"
  "atomically (RRenew ow l) t1 t2 v =
     (map_option (\<lambda>c. if owner c = ow \<and> \<not> completed c then c\<lparr> lease_until := t2 + l \<rparr> else c) v,
      Renewed (case v of Some c \<Rightarrow> owner c = ow \<and> \<not> completed c | None \<Rightarrow> False))"
  by (cases v; force simp: atomically_def memory_ops_def claim_def complete_def release_def renew_def
      prune_expired_def live_def fresh_claim_def Let_def)+

text \<open>A queued command that is executed is the operation on the claim it was decided on.\<close>

lemma live_expired: "\<not> completed x \<Longrightarrow> lease_until x \<le> t \<Longrightarrow> live t (Some x) = None"
  by (simp add: live_def)

lemma exec_atomic:
  assumes j: "justified sv opr v w" and v: "claim_value sv opr v" and ex: "exec_queued opr w sv = (sv', out)"
  shows "\<exists>t1 t2 read. t1 \<le> sv_now sv \<and> t2 \<le> sv_now sv \<and> (read = visible sv \<or> read = sv_value sv) \<and>
    atomically opr t1 t2 read = (sv_value sv', out)"
proof (cases opr)
  case (RClaim ow l)
  then obtain t where t: "t \<le> sv_now sv" "v = fresh_claim ow l t" using v by (auto simp: made_by_def)
  show ?thesis
  proof (cases w)
    case (SetNxCmd c px)
    then have "atomically opr (sv_now sv) t (visible sv) = (sv_value sv', out)"
      using j ex RClaim t by (auto simp: exec_queued_def atomically_simps write_key_def live_def)
    then show ?thesis using t by blast
  next
    case (SetCmd c px)
    then have "atomically opr (sv_now sv) t (sv_value sv) = (sv_value sv', out)"
      using j ex RClaim t by (auto simp: exec_queued_def atomically_simps write_key_def live_expired)
    then show ?thesis using t by blast
  qed (use j RClaim in simp)
next
  case (RRenew ow l)
  then obtain c px x t where w: "w = SetCmd c px" and x: "sv_value sv = Some x" "owner x = ow" "\<not> completed x"
    and t: "t \<le> sv_now sv" "c = fresh_claim ow l t"
    using j by (cases w) (auto simp: made_by_def)
  then have "atomically opr t t (sv_value sv) = (sv_value sv', out)"
    using ex RRenew by (cases x) (auto simp: exec_queued_def atomically_simps write_key_def fresh_claim_def)
  then show ?thesis using t by blast
next
  case (RComplete ow)
  then obtain c px x where w: "w = SetCmd c px" and x: "sv_value sv = Some x" "owner x = ow" "c = x\<lparr> completed := True \<rparr>"
    using j by (cases w) auto
  then have "atomically opr (sv_now sv) (sv_now sv) (sv_value sv) = (sv_value sv', out)"
    using ex RComplete by (auto simp: exec_queued_def atomically_simps write_key_def)
  then show ?thesis by blast
next
  case (RRelease ow)
  then obtain x where w: "w = DelCmd" and x: "sv_value sv = Some x" "owner x = ow"
    using j by (cases w) auto
  then have "atomically opr (sv_now sv) (sv_now sv) (sv_value sv) = (sv_value sv', out)"
    using ex RRelease by (auto simp: exec_queued_def atomically_simps delete_key_def)
  then show ?thesis by blast
qed

text \<open>So is an answer without a transaction, on the claim it was decided on, which it leaves.\<close>

lemma decide_atomic:
  "decide ret_s now opr v oc = Inl out \<Longrightarrow> atomically opr now now oc = (oc, out)"
  by (cases opr; cases oc) (auto simp: atomically_simps live_def split: if_splits)

lemma proc_atomic:
  assumes ok: "phase_ok sv p" and st: "proc_step ret_s sv p = (sv', p')" and busy: "\<not> callable p"
  shows "case p' of
      Finished opr out \<Rightarrow>
        \<exists>t1 t2 read. t1 \<le> sv_now sv \<and> t2 \<le> sv_now sv \<and>
          (case p of
             Got _ v n oc \<Rightarrow> read = oc \<and> atomically opr t1 t2 read = (oc, out) \<and> sv' = sv
           | _ \<Rightarrow> (read = visible sv \<or> read = sv_value sv) \<and> atomically opr t1 t2 read = (sv_value sv', out))
    | _ \<Rightarrow> sv' = sv"
proof (cases p)
  case (TrySet opr v)
  then obtain ow l t where o: "opr = RClaim ow l" and t: "t \<le> sv_now sv" "v = fresh_claim ow l t"
    using ok by (auto simp: made_by_def)
  have "atomically opr (sv_now sv) t (visible sv) = (sv_value (write_key v (Some (expiry l)) sv), Claimed FIRST)"
    if "visible sv = None" using that o t by (auto simp: atomically_simps live_def write_key_def)
  then have took: "visible sv = None \<Longrightarrow> \<exists>t1 t2 read. t1 \<le> sv_now sv \<and> t2 \<le> sv_now sv \<and>
      (read = visible sv \<or> read = sv_value sv) \<and>
      atomically opr t1 t2 read = (sv_value (write_key v (Some (expiry l)) sv), Claimed FIRST)"
    using t by blast
  show ?thesis
  proof (cases "visible sv")
    case None
    then have "p' = Finished opr (Claimed FIRST)" "sv' = write_key v (Some (expiry l)) sv" using st TrySet o by auto
    then show ?thesis using took [OF None] unfolding TrySet by simp
  next
    case (Some c)
    then show ?thesis using st TrySet o by auto
  qed
next
  case (Got opr v n oc)
  show ?thesis
  proof (cases "decide ret_s (sv_now sv) opr v oc")
    case (Inl out)
    then have "p' = Finished opr out" "sv' = sv" using st Got by auto
    then show ?thesis using decide_atomic [OF Inl] unfolding Got by (simp, blast)
  next
    case (Inr w)
    then show ?thesis using st Got by auto
  qed
next
  case (ToExec opr v n w)
  show ?thesis
  proof (cases "conflict sv n")
    case False
    obtain sv2 out where ex: "exec_queued opr w sv = (sv2, out)" by (cases "exec_queued opr w sv")
    then have "sv' = sv2" "p' = Finished opr out" using st ToExec False by auto
    then show ?thesis using exec_atomic [OF _ _ ex] ok ToExec no_conflictD [OF False] by auto
  qed (use st ToExec in auto)
next
  case (Started opr)
  then show ?thesis using st by (cases opr) auto
qed (use st busy in \<open>auto simp: callable_def\<close>)


text \<open>A run in which a process writes, and one that finds the claim.\<close>

definition claim_a :: redis_op where "claim_a = RClaim ''a'' 10"

lemma first_steps:
  "\<exists>s s'. claim_runs 60 no_claims [Call 0 claim_a, Run 0] s \<and> claim_step 60 s (Run 0) s' \<and> \<not> callable (cf_procs s 0) \<and>
     cf_procs s' 0 = Finished claim_a (Claimed FIRST) \<and> (\<forall>i. callable (cf_procs s' i)) \<and>
     cf_server s' = \<lparr> sv_now = 0, sv_value = Some (fresh_claim ''a'' 10 0), sv_deadline = Some 10, sv_version = 1 \<rparr>"
proof -
  define s1 where "s1 = no_claims\<lparr> cf_procs := (cf_procs no_claims)(0 := Started claim_a) \<rparr>"
  define s2 where "s2 = \<lparr> cf_server = cf_server no_claims, cf_procs = (cf_procs s1)(0 := TrySet claim_a (fresh_claim ''a'' 10 0)) \<rparr>"
  define s3 where "s3 = \<lparr> cf_server = write_key (fresh_claim ''a'' 10 0) (Some (expiry 10)) (cf_server no_claims),
      cf_procs = (cf_procs s2)(0 := Finished claim_a (Claimed FIRST)) \<rparr>"
  have a: "claim_step 60 no_claims (Call 0 claim_a) s1"
    unfolding s1_def by (rule rstep.call) (simp add: empty_conf_def callable_def)
  have b: "claim_step 60 s1 (Run 0) s2"
    unfolding s2_def by (rule rstep.step) (simp add: s1_def empty_conf_def claim_a_def)
  have e: "expiry 10 = 10" by code_simp
  have c: "claim_step 60 s2 (Run 0) s3"
    unfolding s3_def by (rule rstep.step) (simp add: s2_def empty_conf_def claim_a_def visible_def)
  have "claim_runs 60 no_claims [Call 0 claim_a, Run 0] s2" using a b by (blast intro: rruns.intros)
  moreover have "\<not> callable (cf_procs s2 0)" by (simp add: s2_def callable_def)
  moreover have "cf_procs s3 0 = Finished claim_a (Claimed FIRST)" "\<forall>i. callable (cf_procs s3 i)"
    by (simp_all add: s3_def s2_def s1_def empty_conf_def callable_def)
  moreover have "cf_server s3 = \<lparr> sv_now = 0, sv_value = Some (fresh_claim ''a'' 10 0), sv_deadline = Some 10, sv_version = 1 \<rparr>"
    using e by (simp add: s3_def write_key_def empty_conf_def)
  ultimately show ?thesis using c by blast
qed


section \<open>Exclusive claims\<close>

fun busy_op :: "phase \<Rightarrow> redis_op option" where
  "busy_op (Started opr) = Some opr"
| "busy_op (TrySet opr v) = Some opr"
| "busy_op (ToWatch opr v) = Some opr"
| "busy_op (ToGet opr v n) = Some opr"
| "busy_op (Got opr v n oc) = Some opr"
| "busy_op (ToExec opr v n w) = Some opr"
| "busy_op p = None"

definition foreign :: "string \<Rightarrow> phase \<Rightarrow> bool" where
  "foreign ow p \<longleftrightarrow> (case busy_op p of None \<Rightarrow> True | Some opr \<Rightarrow> rop_owner opr \<noteq> ow)"

definition foreign_call :: "string \<Rightarrow> redis_op action \<Rightarrow> bool" where
  "foreign_call ow a \<longleftrightarrow> (case a of Call i opr \<Rightarrow> rop_owner opr \<noteq> ow | _ \<Rightarrow> True)"

definition firsts :: "(claim_entry, phase) conf \<Rightarrow> nat set" where
  "firsts s = {i. \<exists>opr. cf_procs s i = Finished opr (Claimed FIRST)}"

text \<open>The claim is in force: not expired, and finished or with a lease that runs.\<close>

definition in_force :: "claim_entry \<Rightarrow> claim_entry server \<Rightarrow> bool" where
  "in_force c sv \<longleftrightarrow> \<not> run_out (sv_deadline sv) (sv_now sv) \<and> (completed c \<or> sv_now sv < lease_until c)"

lemma justified_foreign:
  "justified sv opr v w \<Longrightarrow> sv_value sv = Some c \<Longrightarrow> in_force c sv \<Longrightarrow> rop_owner opr = owner c"
  by (cases "(sv, opr, v, w)" rule: justified.cases) (auto simp: in_force_def visible_def)

lemma held_proc:
  assumes "phase_ok sv p" "sv_value sv = Some c" "in_force c sv" "foreign (owner c) p" "proc_step ret_s sv p = (sv', p')"
  shows "sv' = sv \<and> foreign (owner c) p' \<and> ((\<exists>opr. p' = Finished opr (Claimed FIRST)) \<longrightarrow> p' = p)"
proof (cases p)
  case (Got opr v n oc)
  have "out \<noteq> Claimed FIRST" if "decide ret_s (sv_now sv) opr v oc = Inl out" for out
    using that by (cases opr; cases oc) (auto split: if_splits)
  then show ?thesis using Got assms by (cases "decide ret_s (sv_now sv) opr v oc") (auto simp: foreign_def)
next
  case (ToExec opr v n w)
  then show ?thesis using assms justified_foreign [of sv opr v w c] no_conflictD [of sv n] by (auto simp: foreign_def split: if_splits)
next
  case (TrySet opr v)
  have "visible sv = Some c" using assms by (auto simp: visible_def in_force_def)
  then show ?thesis using TrySet assms by (auto simp: foreign_def)
next
  case (Started opr)
  then show ?thesis using assms by (cases opr) (auto simp: foreign_def)
qed (use assms in \<open>auto simp: foreign_def\<close>)

lemma held_step:
  assumes "claim_step ret_s s a s'" "\<forall>i. phase_ok (cf_server s) (cf_procs s i)" "sv_value (cf_server s) = Some c" "in_force c (cf_server s)"
    and "\<forall>i. foreign (owner c) (cf_procs s i)" "foreign_call (owner c) a"
  shows "sv_value (cf_server s') = Some c \<and> sv_deadline (cf_server s') = sv_deadline (cf_server s) \<and>
    (\<forall>i. foreign (owner c) (cf_procs s' i)) \<and> firsts s' \<subseteq> firsts s"
  using assms
proof (induction rule: rstep.induct)
  case (step s i sv p)
  then show ?case
    using held_proc [OF _ step.prems(2,3) _ step.hyps] by (auto simp: firsts_def)
qed (auto simp: foreign_call_def foreign_def firsts_def)

text \<open>C7. A claim excludes every other claim: while it is in force and its owner makes no call, whatever the other
  owners do in whatever order, the claim stays as it is and no claim is answered FIRST.\<close>

theorem redis_claim_exclusive:
  assumes "claim_runs ret_s no_claims before s" and "claim_runs ret_s s after s'"
    and "sv_value (cf_server s) = Some c" "\<not> run_out (sv_deadline (cf_server s)) (sv_now (cf_server s'))"
    and "completed c \<or> sv_now (cf_server s') < lease_until c"
    and "\<forall>i. foreign (owner c) (cf_procs s i)" "list_all (foreign_call (owner c)) after"
  shows "visible (cf_server s') = Some c \<and> firsts s' \<subseteq> firsts s"
proof -
  have "claim_runs ret_s s after s' \<Longrightarrow> \<forall>i. phase_ok (cf_server s) (cf_procs s i) \<Longrightarrow> sv_value (cf_server s) = Some c \<Longrightarrow>
    \<not> run_out (sv_deadline (cf_server s)) (sv_now (cf_server s')) \<Longrightarrow> completed c \<or> sv_now (cf_server s') < lease_until c \<Longrightarrow>
    \<forall>i. foreign (owner c) (cf_procs s i) \<Longrightarrow> list_all (foreign_call (owner c)) after \<Longrightarrow>
    sv_value (cf_server s') = Some c \<and> sv_deadline (cf_server s') = sv_deadline (cf_server s) \<and> firsts s' \<subseteq> firsts s"
  proof (induction rule: rruns.induct)
    case (more s a s1 as s2)
    have "sv_now (cf_server s) \<le> sv_now (cf_server s2)"
      using later_trans [OF claim_client.rstep_later [OF more.hyps(1)] claim_client.rruns_later [OF more.hyps(2)]]
      by (simp add: later_def)
    then have "in_force c (cf_server s)" using more.prems(3,4) by (auto simp: in_force_def run_out_def split: option.splits)
    then have st: "sv_value (cf_server s1) = Some c \<and> sv_deadline (cf_server s1) = sv_deadline (cf_server s) \<and>
        (\<forall>i. foreign (owner c) (cf_procs s1 i)) \<and> firsts s1 \<subseteq> firsts s"
      using held_step [OF more.hyps(1) more.prems(1,2)] more.prems(5,6) by simp
    then show ?case using more.IH claim_client.rstep_ok [OF more.hyps(1) more.prems(1)] more.prems(3,4,6) by auto
  qed auto
  then show ?thesis using assms claim_runs_ok [OF assms(1)] by (auto simp: visible_def)
qed

text \<open>The first claim is in force for its ten seconds.\<close>

lemma callable_foreign: "callable p \<Longrightarrow> foreign ow p"
  by (auto simp: callable_def foreign_def split: phase.splits)

lemma redis_claim_exclusive_witness:
  "\<exists>s s'. claim_runs 60 s [Tick 5] s' \<and> visible (cf_server s') = Some (fresh_claim ''a'' 10 0) \<and> firsts s' \<subseteq> firsts s \<and> 0 \<in> firsts s"
proof -
  obtain s0 s where run: "claim_runs 60 no_claims [Call 0 claim_a, Run 0] s0" "claim_step 60 s0 (Run 0) s"
    and fin: "cf_procs s 0 = Finished claim_a (Claimed FIRST)" and idle: "\<forall>i. callable (cf_procs s i)"
    and sv: "cf_server s = \<lparr> sv_now = 0, sv_value = Some (fresh_claim ''a'' 10 0), sv_deadline = Some 10, sv_version = 1 \<rparr>"
    using first_steps by blast
  have before: "claim_runs 60 no_claims [Call 0 claim_a, Run 0, Run 0] s"
    using rruns_snoc [OF run] by simp
  let ?s' = "s\<lparr> cf_server := (cf_server s)\<lparr> sv_now := sv_now (cf_server s) + 5 \<rparr> \<rparr>"
  have "visible (cf_server ?s') = Some (fresh_claim ''a'' 10 0) \<and> firsts ?s' \<subseteq> firsts s"
    by (rule redis_claim_exclusive [OF before one_tick])
      (use sv idle in \<open>simp_all add: fresh_claim_def callable_foreign foreign_call_def run_out_def\<close>)
  moreover have "0 \<in> firsts s" using fin by (auto simp: firsts_def)
  ultimately show ?thesis using one_tick [of 5 "proc_step 60" callable Started s] by (simp, blast)
qed

section \<open>Progress\<close>

text \<open>The commands of one call with nothing else in between.\<close>

fun alone :: "rat \<Rightarrow> nat \<Rightarrow> claim_entry server \<Rightarrow> phase \<Rightarrow> claim_entry server \<times> phase" where
  "alone ret_s 0 sv p = (sv, p)"
| "alone ret_s (Suc n) sv p = (case proc_step ret_s sv p of (sv', p') \<Rightarrow> alone ret_s n sv' p')"

definition finished :: "phase \<Rightarrow> bool" where
  "finished p \<longleftrightarrow> (case p of Finished opr out \<Rightarrow> True | _ \<Rightarrow> False)"

lemma alone_finished: "finished p \<Longrightarrow> alone ret_s n sv p = (sv, p)"
  by (induction n) (auto simp: finished_def split: phase.splits)

lemma alone_more: "finished (snd (alone ret_s n sv p)) \<Longrightarrow> finished (snd (alone ret_s (n + k) sv p))"
proof (induction n arbitrary: sv p)
  case 0
  then show ?case by (simp add: alone_finished)
next
  case (Suc n)
  then show ?case by (cases "proc_step ret_s sv p") auto
qed

lemma alone_watch: "finished (snd (alone ret_s 4 sv (ToWatch opr v)))"
proof -
  have n: "(4 :: nat) = Suc (Suc (Suc (Suc 0)))" by simp
  show ?thesis unfolding n
    by (cases "decide ret_s (sv_now sv) opr v (visible sv)")
      (auto simp: finished_def exec_queued_def split: queued.splits)
qed

lemma alone_step: "proc_step ret_s sv p = (sv', p') \<Longrightarrow> finished (snd (alone ret_s n sv' p')) \<Longrightarrow>
    finished (snd (alone ret_s (Suc n) sv p))"
  by simp

lemma alone_now: "proc_step ret_s sv p = (sv', Finished opr out) \<Longrightarrow> finished (snd (alone ret_s (Suc n) sv p))"
  by (simp add: alone_finished finished_def)

lemma alone_exec: "finished (snd (alone ret_s 5 sv (ToExec opr v n w)))"
proof -
  have five: "(5 :: nat) = Suc 4" by simp
  show ?thesis
  proof (cases "conflict sv n")
    case False
    then have "proc_step ret_s sv (ToExec opr v n w) = (fst (exec_queued opr w sv), Finished opr (snd (exec_queued opr w sv)))"
      by (simp split: prod.split)
    then show ?thesis unfolding five by (rule alone_now)
  next
    case True
    then show ?thesis unfolding five by (intro alone_step [OF _ alone_watch]) simp
  qed
qed

lemma alone_got: "finished (snd (alone ret_s 6 sv (Got opr v n oc)))"
proof -
  have six: "(6 :: nat) = Suc 5" by simp
  show ?thesis
  proof (cases "decide ret_s (sv_now sv) opr v oc")
    case (Inl out)
    then show ?thesis unfolding six by (intro alone_now) simp
  next
    case (Inr w)
    then show ?thesis unfolding six by (intro alone_step [OF _ alone_exec]) simp
  qed
qed

lemma alone_try: "finished (snd (alone ret_s 5 sv (TrySet opr v)))"
proof -
  have five: "(5 :: nat) = Suc 4" by simp
  show ?thesis
  proof (cases "\<exists>ow l. opr = RClaim ow l \<and> visible sv = None")
    case True
    then obtain ow l where "proc_step ret_s sv (TrySet opr v) = (write_key v (Some (expiry l)) sv, Finished opr (Claimed FIRST))" by auto
    then show ?thesis unfolding five by (rule alone_now)
  next
    case False
    then have "proc_step ret_s sv (TrySet opr v) = (sv, ToWatch opr v)" by (cases opr) auto
    then show ?thesis unfolding five by (rule alone_step [OF _ alone_watch])
  qed
qed

text \<open>C39. No call waits for another one: from any point, whatever was written in between, a call that runs alone
  returns within seven commands.\<close>

theorem redis_calls_return:
  "case p of Idle \<Rightarrow> True | _ \<Rightarrow> finished (snd (alone ret_s 7 sv p))"
proof -
  have seven: "(7 :: nat) = Suc 6" "(6 :: nat) = 5 + 1" "(7 :: nat) = 6 + 1" "(7 :: nat) = 5 + 2" "(7 :: nat) = 4 + 3" by simp_all
  have started: "finished (snd (alone ret_s 7 sv (Started opr)))" for opr
  proof -
    have "\<exists>v. proc_step ret_s sv (Started opr) = (sv, TrySet opr v) \<or> proc_step ret_s sv (Started opr) = (sv, ToWatch opr v)"
      by (cases opr) auto
    moreover have "finished (snd (alone ret_s 6 sv (TrySet opr v)))" "finished (snd (alone ret_s 6 sv (ToWatch opr v)))" for v
      using alone_more [OF alone_try, where k = 1] alone_more [OF alone_watch, where k = 2] by simp_all
    ultimately show ?thesis unfolding seven(1) using alone_step by blast
  qed
  have get: "finished (snd (alone ret_s 7 sv (ToGet opr v n)))" for opr v n
    unfolding seven(1) by (rule alone_step [OF _ alone_got]) simp
  show ?thesis
    using started get alone_more [OF alone_try, where k = 2] alone_more [OF alone_watch, where k = 3]
      alone_more [OF alone_exec, where k = 2] alone_more [OF alone_got, where k = 1] alone_finished
    by (cases p) (simp_all add: finished_def)
qed

end
