(* ===== verification/RedisRecords.thy ===== *)
theory RedisRecords
  imports FsmRecord RedisServer
begin

text \<open>
  The Redis record store of the workflow (\<open>fsm/record.py\<close>, \<open>RedisFSMRecordStorage\<close>): \<open>get_record\<close> with its lazy
  deletion of an expired record and \<open>compare_and_set\<close>, as the commands they send to the server of \<open>RedisServer\<close>.
  A record is stored decoded: its data is JSON, so decoding its text gives the record back, and two texts are
  equal when the records are. Each reading of the clock is a step of its own.
\<close>

section \<open>The operations\<close>

datatype record_op = GetRecord | CompareAndSet nat fsm_record

datatype record_out = Found "fsm_record option" | Stored fsm_record | Conflict

text \<open>Where a call is. \<open>Stamp\<close> has compared the revisions and goes on to read the clock for \<open>updated_at\<close>,
  \<open>Queue\<close> goes on to compute the time to live and to queue the command.\<close>

datatype phase =
    Idle
  | Started record_op
  | Checked fsm_record
  | Watch_expired fsm_record
  | Get_expired fsm_record watch
  | Reread fsm_record watch "fsm_record option"
  | Exec_delete fsm_record watch
  | Watch_cas nat fsm_record
  | Get_cas nat fsm_record watch
  | Compare nat fsm_record watch "fsm_record option"
  | Stamp nat fsm_record watch "fsm_record option" nat
  | Queue nat fsm_record watch "fsm_record option" fsm_record
  | Exec_set nat fsm_record watch "fsm_record option" fsm_record "rat option"
  | Finished record_op record_out

text \<open>The next step of a call.\<close>

fun record_step :: "fsm_record server \<Rightarrow> phase \<Rightarrow> fsm_record server \<times> phase" where
  "record_step sv Idle = (sv, Idle)"
| "record_step sv (Finished opr out) = (sv, Finished opr out)"
| "record_step sv (Started GetRecord) =
     (case visible sv of None \<Rightarrow> (sv, Finished GetRecord (Found None)) | Some r \<Rightarrow> (sv, Checked r))"
| "record_step sv (Checked r) =
     (if \<not> expired r (sv_now sv) then (sv, Finished GetRecord (Found (Some r))) else (sv, Watch_expired r))"
| "record_step sv (Watch_expired r) = (sv, Get_expired r (watch_key sv))"
| "record_step sv (Get_expired r w) = (sv, Reread r w (visible sv))"
| "record_step sv (Reread r w oc) =
     (if oc \<noteq> Some r then
        (case oc of
           None \<Rightarrow> (sv, Finished GetRecord (Found None))
         | Some c \<Rightarrow> (sv, Finished GetRecord (Found (if expired c (sv_now sv) then None else Some c))))
      else (sv, Exec_delete r w))"
| "record_step sv (Exec_delete r w) =
     (if conflict sv w then (sv, Watch_expired r)
      else (delete_key sv, Finished GetRecord (Found None)))"
| "record_step sv (Started (CompareAndSet e rep)) = (sv, Watch_cas e rep)"
| "record_step sv (Watch_cas e rep) = (sv, Get_cas e rep (watch_key sv))"
| "record_step sv (Get_cas e rep w) = (sv, Compare e rep w (visible sv))"
| "record_step sv (Compare e rep w oc) =
     (let current = (case oc of Some c \<Rightarrow> if expired c (sv_now sv) then None else Some c | None \<Rightarrow> None);
          current_revision = (case current of None \<Rightarrow> 0 | Some c \<Rightarrow> revision c)
      in if current_revision \<noteq> e then (sv, Finished (CompareAndSet e rep) Conflict)
         else (sv, Stamp e rep w oc current_revision))"
| "record_step sv (Stamp e rep w oc n) =
     (sv, Queue e rep w oc (rep\<lparr> revision := n + 1, updated_at := Some (sv_now sv) \<rparr>))"
| "record_step sv (Queue e rep w oc stored) =
     (sv, Exec_set e rep w oc stored (map_option (\<lambda>t. expiry (t - sv_now sv)) (expires_at stored)))"
| "record_step sv (Exec_set e rep w oc stored px) =
     (if conflict sv w then (sv, Watch_cas e rep)
      else (write_key stored px sv, Finished (CompareAndSet e rep) (Stored stored)))"

definition callable :: "phase \<Rightarrow> bool" where
  "callable p \<longleftrightarrow> (case p of Idle \<Rightarrow> True | Finished opr out \<Rightarrow> True | _ \<Rightarrow> False)"

abbreviation record_runs ::
  "(fsm_record, phase) conf \<Rightarrow> record_op action list \<Rightarrow> (fsm_record, phase) conf \<Rightarrow> bool" where
  "record_runs \<equiv> rruns record_step callable Started"

abbreviation record_moves ::
  "(fsm_record, phase) conf \<Rightarrow> record_op action \<Rightarrow> (fsm_record, phase) conf \<Rightarrow> bool" where
  "record_moves \<equiv> rstep record_step callable Started"

abbreviation no_records :: "(fsm_record, phase) conf" where
  "no_records \<equiv> empty_conf Idle"

section \<open>The in-process store on one key\<close>

definition the_key :: storage_key where
  "the_key = \<lparr> key_user = None, key_space = None, key_thread = None \<rparr>"

definition one_record :: "fsm_record option \<Rightarrow> record_map" where
  "one_record v = (case v of None \<Rightarrow> [] | Some r \<Rightarrow> [(the_key, r)])"

fun at_once :: "record_op \<Rightarrow> rat \<Rightarrow> rat \<Rightarrow> fsm_record option \<Rightarrow> fsm_record option \<times> record_out" where
  "at_once GetRecord t1 t2 v =
     (case get_record the_key t1 (one_record v) of (s, r) \<Rightarrow> (dict_get s the_key, Found r))"
| "at_once (CompareAndSet e rep) t1 t2 v =
     (case compare_and_set the_key e rep t1 t2 (one_record v) of
        (s, Inr r) \<Rightarrow> (dict_get s the_key, Stored r)
      | (s, Inl x) \<Rightarrow> (dict_get s the_key, Conflict))"

lemma one_record_get [simp]: "dict_get (one_record v) the_key = v"
  by (cases v) (simp_all add: one_record_def)

lemma at_once_simps:
  "at_once GetRecord t1 t2 v = (alive t1 v, Found (alive t1 v))"
  "at_once (CompareAndSet e rep) t1 t2 v =
     (if rev_of (alive t1 v) = e
      then (Some (rep\<lparr> revision := e + 1, updated_at := Some t2 \<rparr>), Stored (rep\<lparr> revision := e + 1, updated_at := Some t2 \<rparr>))
      else (alive t1 v, Conflict))"
  by (cases v; force simp: get_record_def compare_and_set_def one_record_def del_record_def alive_def rev_of_def Let_def)+

declare at_once.simps [simp del]

section \<open>The invariant\<close>

text \<open>What a call knows of the key while what it watches is unchanged.\<close>

definition watched :: "fsm_record server \<Rightarrow> watch \<Rightarrow> fsm_record option \<Rightarrow> bool" where
  "watched sv w oc \<longleftrightarrow> fst w \<le> sv_version sv \<and> (fst w = sv_version sv \<longrightarrow> read_of sv oc)"

definition matched :: "fsm_record server \<Rightarrow> nat \<Rightarrow> fsm_record option \<Rightarrow> bool" where
  "matched sv e oc \<longleftrightarrow> (\<exists>t. t \<le> sv_now sv \<and> rev_of (alive t oc) = e)"

definition stamped :: "fsm_record server \<Rightarrow> nat \<Rightarrow> fsm_record \<Rightarrow> fsm_record \<Rightarrow> bool" where
  "stamped sv e rep stored \<longleftrightarrow>
     (\<exists>t. t \<le> sv_now sv \<and> stored = rep\<lparr> revision := e + 1, updated_at := Some t \<rparr>)"

fun phase_ok :: "fsm_record server \<Rightarrow> phase \<Rightarrow> bool" where
  "phase_ok sv (Watch_expired r) \<longleftrightarrow> expired r (sv_now sv)"
| "phase_ok sv (Get_expired r w) \<longleftrightarrow> expired r (sv_now sv) \<and> fst w \<le> sv_version sv"
| "phase_ok sv (Reread r w oc) \<longleftrightarrow> expired r (sv_now sv) \<and> watched sv w oc"
| "phase_ok sv (Exec_delete r w) \<longleftrightarrow> expired r (sv_now sv) \<and> watched sv w (Some r)"
| "phase_ok sv (Get_cas e rep w) \<longleftrightarrow> fst w \<le> sv_version sv"
| "phase_ok sv (Compare e rep w oc) \<longleftrightarrow> watched sv w oc"
| "phase_ok sv (Stamp e rep w oc n) \<longleftrightarrow> watched sv w oc \<and> matched sv e oc \<and> n = e"
| "phase_ok sv (Queue e rep w oc stored) \<longleftrightarrow> watched sv w oc \<and> matched sv e oc \<and> stamped sv e rep stored"
| "phase_ok sv (Exec_set e rep w oc stored px) \<longleftrightarrow> watched sv w oc \<and> matched sv e oc \<and> stamped sv e rep stored"
| "phase_ok sv (Finished (CompareAndSet e rep) (Stored x)) \<longleftrightarrow> revision x = e + 1"
| "phase_ok sv p \<longleftrightarrow> True"

lemma expired_mono: "expired r a \<Longrightarrow> a \<le> b \<Longrightarrow> expired r b"
  by (auto simp: expired_def split: option.splits)

lemma watched_later: "watched sv w oc \<Longrightarrow> later sv sv' \<Longrightarrow> watched sv' w oc"
  using read_of_later [of sv oc sv'] by (auto simp: watched_def later_def)

lemma matched_later: "matched sv e oc \<Longrightarrow> later sv sv' \<Longrightarrow> matched sv' e oc"
  by (auto simp: matched_def later_def intro: order_trans)

lemma stamped_later: "stamped sv e rep x \<Longrightarrow> later sv sv' \<Longrightarrow> stamped sv' e rep x"
  by (auto simp: stamped_def later_def intro: order_trans)

lemma watched_now [simp]: "fst w \<le> sv_version sv \<Longrightarrow> watched sv w (visible sv)"
  by (simp add: watched_def)

lemma matched_now: "rev_of (alive (sv_now sv) oc) = e \<Longrightarrow> matched sv e oc"
  by (auto simp: matched_def)

lemma stamped_now [simp]: "stamped sv e rep (rep\<lparr> revision := Suc e, updated_at := Some (sv_now sv) \<rparr>)"
  by (auto simp: stamped_def)

lemma stamped_revision: "stamped sv e rep x \<Longrightarrow> revision x = e + 1"
  by (auto simp: stamped_def)

lemma record_phase_later: "phase_ok sv p \<Longrightarrow> later sv sv' \<Longrightarrow> phase_ok sv' p"
  using watched_later [of sv _ _ sv'] matched_later [of sv _ _ sv'] stamped_later [of sv _ _ _ sv']
  by (cases "(sv, p)" rule: phase_ok.cases) (auto simp: later_def intro: expired_mono)

text \<open>The comparison, in terms of what is alive.\<close>

lemma compare_step:
  "record_step sv (Compare e rep w oc) =
     (if rev_of (alive (sv_now sv) oc) = e then (sv, Stamp e rep w oc e)
      else (sv, Finished (CompareAndSet e rep) Conflict))"
  by (auto simp: rev_of_def alive_def Let_def split: option.splits)

lemma record_step_later: "record_step sv p = (sv', p') \<Longrightarrow> later sv sv'"
  by (cases "(sv, p)" rule: record_step.cases) (auto simp: Let_def split: if_splits option.splits)

lemma record_step_ok: "phase_ok sv p \<Longrightarrow> record_step sv p = (sv', p') \<Longrightarrow> phase_ok sv' p'"
proof (cases "\<exists>e rep w oc. p = Compare e rep w oc")
  case True
  assume "phase_ok sv p" "record_step sv p = (sv', p')"
  then show ?thesis using True matched_now [of sv] by (auto simp: compare_step split: if_splits simp del: record_step.simps)
next
  case False
  assume "phase_ok sv p" "record_step sv p = (sv', p')"
  then show ?thesis using False
    by (cases "(sv, p)" rule: record_step.cases)
      (auto simp: stamped_revision split: if_splits option.splits)
qed

interpretation record_client: redis_client record_step callable Started phase_ok
proof unfold_locales
  show "phase_ok sv (Started opr)" for sv opr by (cases opr) simp_all
qed (fact record_step_later record_step_ok record_phase_later)+

lemma record_runs_ok: "record_runs no_records as s \<Longrightarrow> phase_ok (cf_server s) (cf_procs s i)"
  using record_client.rruns_ok [of no_records as s i] by (simp add: empty_conf_def)

section \<open>Atomicity\<close>

text \<open>What a call that returns without a transaction has read.\<close>

definition has_read :: "fsm_record server \<Rightarrow> phase \<Rightarrow> fsm_record option" where
  "has_read sv p =
     (case p of Checked r \<Rightarrow> Some r | Reread r w oc \<Rightarrow> oc | Compare e rep w oc \<Rightarrow> oc | _ \<Rightarrow> visible sv)"

text \<open>A call that returns: it changed nothing and returns what the in-process operation returns on the record it
  read, or it made of the key what the in-process operation makes of the record the key holds.\<close>

definition took_effect ::
  "fsm_record server \<Rightarrow> phase \<Rightarrow> fsm_record server \<Rightarrow> record_op \<Rightarrow> record_out \<Rightarrow> bool" where
  "took_effect sv p sv' opr out \<longleftrightarrow>
     (\<exists>t1 t2. t1 \<le> sv_now sv \<and> t2 \<le> sv_now sv \<and>
        (if sv' = sv then snd (at_once opr t1 t2 (has_read sv p)) = out
         else \<exists>read. (read = visible sv \<or> read = sv_value sv) \<and> at_once opr t1 t2 read = (sv_value sv', out)))"

lemma unchanged: "snd (at_once opr t1 t2 (has_read sv p)) = out \<Longrightarrow> t1 \<le> sv_now sv \<Longrightarrow> t2 \<le> sv_now sv \<Longrightarrow>
    took_effect sv p sv opr out"
  unfolding took_effect_def by (intro exI [of _ t1] exI [of _ t2]) simp

lemma changed: "at_once opr t1 t2 read = (sv_value sv', out) \<Longrightarrow> read = visible sv \<or> read = sv_value sv \<Longrightarrow>
    t1 \<le> sv_now sv \<Longrightarrow> t2 \<le> sv_now sv \<Longrightarrow> sv' \<noteq> sv \<Longrightarrow> took_effect sv p sv' opr out"
  unfolding took_effect_def by (intro exI [of _ t1] exI [of _ t2]) auto

lemma written_differs [simp]: "write_key c px sv \<noteq> sv" "delete_key sv \<noteq> sv"
  by (cases sv; simp add: write_key_def delete_key_def)+

lemma set_value [simp]: "sv_value (write_key c px sv) = Some c" "sv_value (delete_key sv) = None"
  by (simp_all add: write_key_def delete_key_def)

lemma read_of_cases: "read_of sv oc \<Longrightarrow> oc = visible sv \<or> oc = sv_value sv"
  by (cases oc) auto

lemma set_atomic:
  assumes w: "watched sv w oc" and c: "\<not> conflict sv w" and m: "matched sv e oc" and st: "stamped sv e rep x"
  shows "took_effect sv p (write_key x px sv) (CompareAndSet e rep) (Stored x)"
proof -
  obtain t1 where t1: "t1 \<le> sv_now sv" "rev_of (alive t1 oc) = e" using m by (auto simp: matched_def)
  obtain t2 where t2: "t2 \<le> sv_now sv" "x = rep\<lparr> revision := e + 1, updated_at := Some t2 \<rparr>"
    using st by (auto simp: stamped_def)
  have "oc = visible sv \<or> oc = sv_value sv"
    using w no_conflictD [OF c] read_of_cases by (simp add: watched_def)
  then show ?thesis
    using t1 t2 by (intro changed [of _ t1 t2 oc]) (simp_all add: at_once_simps)
qed

lemma delete_atomic:
  assumes w: "watched sv w (Some r)" and c: "\<not> conflict sv w" and e: "expired r (sv_now sv)"
  shows "took_effect sv p (delete_key sv) GetRecord (Found None)"
proof -
  have "sv_value sv = Some r" using w no_conflictD [OF c] by (simp add: watched_def)
  then show ?thesis
    using e by (intro changed [of _ "sv_now sv" "sv_now sv" "Some r"]) (simp_all add: at_once_simps alive_def)
qed

lemma record_step_atomic:
  assumes ok: "phase_ok sv p" and st: "record_step sv p = (sv', p')" and busy: "\<not> callable p"
  shows "case p' of Finished opr out \<Rightarrow> took_effect sv p sv' opr out | _ \<Rightarrow> sv' = sv"
proof -
  have now: "took_effect sv p sv opr (snd (at_once opr (sv_now sv) (sv_now sv) (has_read sv p)))" for opr
    by (rule unchanged) auto
  show ?thesis
  proof (cases p)
    case (Started opr)
    then show ?thesis using st now [of GetRecord]
      by (cases opr) (auto simp: has_read_def at_once_simps alive_def split: option.splits)
  next
    case (Checked r)
    then show ?thesis using st now [of GetRecord] by (auto simp: has_read_def at_once_simps alive_def split: if_splits)
  next
    case (Reread r w oc)
    then show ?thesis using st now [of GetRecord]
      by (auto simp: has_read_def at_once_simps alive_def split: if_splits option.splits)
  next
    case (Exec_delete r w)
    then show ?thesis using st ok delete_atomic [of sv w r p] by (auto split: if_splits)
  next
    case (Compare e rep w oc)
    then show ?thesis using st now [of "CompareAndSet e rep"]
      by (auto simp: compare_step has_read_def at_once_simps split: if_splits simp del: record_step.simps)
  next
    case (Exec_set e rep w oc x px)
    then show ?thesis using st ok set_atomic [of sv w oc e rep x p px] by (auto split: if_splits)
  qed (use st busy in \<open>auto simp: callable_def\<close>)
qed


section \<open>Revisions\<close>

definition stored_at :: "(fsm_record, phase) conf \<Rightarrow> nat \<Rightarrow> fsm_record option" where
  "stored_at s i = (case cf_procs s i of Finished opr (Stored x) \<Rightarrow> Some x | _ \<Rightarrow> None)"

text \<open>Calls that store records without an expiry.\<close>

fun lasting_op :: "record_op \<Rightarrow> bool" where
  "lasting_op GetRecord \<longleftrightarrow> True"
| "lasting_op (CompareAndSet e rep) \<longleftrightarrow> expires_at rep = None"

definition lasting_action :: "record_op action \<Rightarrow> bool" where
  "lasting_action a \<longleftrightarrow> (case a of Call i opr \<Rightarrow> lasting_op opr | _ \<Rightarrow> True)"

fun lasting :: "phase \<Rightarrow> bool" where
  "lasting (Started opr) \<longleftrightarrow> lasting_op opr"
| "lasting (Watch_cas e rep) \<longleftrightarrow> expires_at rep = None"
| "lasting (Get_cas e rep w) \<longleftrightarrow> expires_at rep = None"
| "lasting (Compare e rep w oc) \<longleftrightarrow> expires_at rep = None"
| "lasting (Stamp e rep w oc n) \<longleftrightarrow> expires_at rep = None"
| "lasting (Queue e rep w oc x) \<longleftrightarrow> expires_at rep = None \<and> expires_at x = None"
| "lasting (Exec_set e rep w oc x px) \<longleftrightarrow> expires_at rep = None \<and> expires_at x = None \<and> px = None"
| "lasting p \<longleftrightarrow> True"

definition lasting_key :: "fsm_record server \<Rightarrow> bool" where
  "lasting_key sv \<longleftrightarrow> sv_deadline sv = None \<and> (case sv_value sv of Some r \<Rightarrow> expires_at r = None | None \<Rightarrow> True)"

definition revisions_ok :: "(fsm_record, phase) conf \<Rightarrow> bool" where
  "revisions_ok s \<longleftrightarrow>
     lasting_key (cf_server s) \<and> (\<forall>i. lasting (cf_procs s i)) \<and>
     (\<forall>i x. stored_at s i = Some x \<longrightarrow> revision x \<le> rev_of (sv_value (cf_server s))) \<and>
     (\<forall>i j x y. i \<noteq> j \<longrightarrow> stored_at s i = Some x \<longrightarrow> stored_at s j = Some y \<longrightarrow> revision x \<noteq> revision y)"

lemma lasting_visible: "lasting_key sv \<Longrightarrow> visible sv = sv_value sv"
  by (simp add: lasting_key_def visible_def run_out_def)

lemma lasting_expired: "lasting_key sv \<Longrightarrow> sv_value sv = Some r \<Longrightarrow> \<not> expired r t"
  by (simp add: lasting_key_def expired_def)

text \<open>A step of a call stores nothing, or stores the revision that follows the one the key held.\<close>

lemma record_step_revision:
  assumes ok: "phase_ok sv p" and k: "lasting_key sv" and l: "lasting p" and st: "record_step sv p = (sv', p')"
    and busy: "\<not> callable p"
  shows "lasting p' \<and> lasting_key sv' \<and>
    (sv' = sv \<and> (\<forall>opr x. p' \<noteq> Finished opr (Stored x)) \<or>
     (\<exists>e rep x. p' = Finished (CompareAndSet e rep) (Stored x) \<and> sv_value sv' = Some x \<and>
       revision x = Suc (rev_of (sv_value sv))))"
proof (cases p)
  case (Started opr)
  then show ?thesis using st l k by (cases opr) (auto split: option.splits)
next
  case (Exec_delete r w)
  have "conflict sv w"
  proof (rule ccontr)
    assume c: "\<not> conflict sv w"
    then have "sv_value sv = Some r" using no_conflictD [OF c] ok Exec_delete by (simp add: watched_def)
    then show False using lasting_expired [OF k] ok Exec_delete by simp
  qed
  then show ?thesis using st Exec_delete k by auto
next
  case (Exec_set e rep w oc x px)
  show ?thesis
  proof (cases "conflict sv w")
    case True
    then show ?thesis using st Exec_set k l by auto
  next
    case False
    then have "read_of sv oc" using no_conflictD [OF False] ok Exec_set by (simp add: watched_def)
    then have oc: "oc = sv_value sv" using lasting_visible [OF k] by (cases oc) simp_all
    have "alive t oc = oc" for t
      using lasting_expired [OF k] by (cases oc) (simp_all add: alive_def oc [symmetric])
    then have "rev_of (sv_value sv) = e" using ok Exec_set by (auto simp: matched_def oc)
    then show ?thesis using False st Exec_set ok k l
      by (auto simp: stamped_revision lasting_key_def write_key_def)
  qed
next
  case (Reread r w oc)
  then show ?thesis using st k by (auto split: if_splits option.splits)
next
  case (Compare e rep w oc)
  then show ?thesis using st k l by (auto simp: compare_step split: if_splits simp del: record_step.simps)
qed (use st k l busy in \<open>auto simp: callable_def split: if_splits\<close>)

lemma callable_stays: "callable p \<Longrightarrow> record_step sv p = (sv', p') \<Longrightarrow> sv' = sv \<and> p' = p"
  by (cases p) (auto simp: callable_def)

lemma record_moves_revisions:
  "record_moves s a s' \<Longrightarrow> (\<And>i. phase_ok (cf_server s) (cf_procs s i)) \<Longrightarrow> lasting_action a \<Longrightarrow> revisions_ok s
   \<Longrightarrow> revisions_ok s'"
proof (induction rule: rstep.induct)
  case (tick d s)
  then show ?case by (auto simp: revisions_ok_def lasting_key_def stored_at_def)
next
  case (call s i opr)
  then show ?case by (auto simp: revisions_ok_def lasting_action_def stored_at_def)
next
  case (step s i sv p)
  show ?case
  proof (cases "callable (cf_procs s i)")
    case True
    then have "\<lparr> cf_server = sv, cf_procs = (cf_procs s)(i := p) \<rparr> = s"
      using callable_stays [OF True step.hyps] by simp
    then show ?thesis using step.prems(3) by simp
  next
    case False
    have old: "lasting_key (cf_server s)" "\<And>j. lasting (cf_procs s j)"
      "\<And>j x. stored_at s j = Some x \<Longrightarrow> revision x \<le> rev_of (sv_value (cf_server s))"
      "\<And>j k x y. j \<noteq> k \<Longrightarrow> stored_at s j = Some x \<Longrightarrow> stored_at s k = Some y \<Longrightarrow> revision x \<noteq> revision y"
      using step.prems(3) by (auto simp: revisions_ok_def)
    let ?s' = "\<lparr> cf_server = sv, cf_procs = (cf_procs s)(i := p) \<rparr>"
    have rest: "stored_at ?s' j = stored_at s j" if "j \<noteq> i" for j using that by (simp add: stored_at_def)
    from record_step_revision [OF step.prems(1) old(1,2) step.hyps False]
    have l: "lasting p" "lasting_key sv"
      and c: "sv = cf_server s \<and> (\<forall>opr x. p \<noteq> Finished opr (Stored x)) \<or>
        (\<exists>e rep x. p = Finished (CompareAndSet e rep) (Stored x) \<and> sv_value sv = Some x \<and>
          revision x = Suc (rev_of (sv_value (cf_server s))))" by auto
    from c show ?thesis
    proof
      assume u: "sv = cf_server s \<and> (\<forall>opr x. p \<noteq> Finished opr (Stored x))"
      then have "stored_at ?s' i = None" by (auto simp: stored_at_def split: phase.splits record_out.splits)
      then have "stored_at ?s' j = Some x \<Longrightarrow> j \<noteq> i \<and> stored_at s j = Some x" for j x
        using rest [of j] by (cases "j = i") auto
      then show ?thesis using l old u by (auto simp: revisions_ok_def) (metis old(4))
    next
      assume "\<exists>e rep x. p = Finished (CompareAndSet e rep) (Stored x) \<and> sv_value sv = Some x \<and>
          revision x = Suc (rev_of (sv_value (cf_server s)))"
      then obtain e rep x where x: "p = Finished (CompareAndSet e rep) (Stored x)" "sv_value sv = Some x"
          "revision x = Suc (rev_of (sv_value (cf_server s)))" by blast
      then have new: "stored_at ?s' i = Some x" by (simp add: stored_at_def)
      have below: "revision y < revision x" if "j \<noteq> i" "stored_at ?s' j = Some y" for j y
        using old(3) [of j y] that rest [of j] x(3) by simp
      have top: "revision y \<le> revision x" if "stored_at ?s' j = Some y" for j y
        using that below [of j y] new by (cases "j = i") auto
      have apart: "revision y \<noteq> revision z" if "j \<noteq> k" "stored_at ?s' j = Some y" "stored_at ?s' k = Some z" for j k y z
        using that below new rest old(4) [of j k y z] by (cases "j = i"; cases "k = i") force+
      show ?thesis
        unfolding revisions_ok_def using l old(2) top apart x(2) by (auto simp: rev_of_def)
    qed
  qed
qed

lemma record_runs_revisions:
  "record_runs s as s' \<Longrightarrow> (\<And>i. phase_ok (cf_server s) (cf_procs s i)) \<Longrightarrow> list_all lasting_action as \<Longrightarrow> revisions_ok s
   \<Longrightarrow> revisions_ok s'"
proof (induction rule: rruns.induct)
  case (more s a s1 as s2)
  have "revisions_ok s1" using record_moves_revisions [OF more.hyps(1) more.prems(1)] more.prems(2,3) by simp
  then show ?case
    using more.IH record_client.rstep_ok [OF more.hyps(1)] more.prems(1,2) by simp
qed

text \<open>C9. Optimistic concurrency over Redis: while no record carries an expiry, two calls of \<open>compare_and_set\<close> that both
  succeeded expected different revisions and returned different ones, whatever commands of whatever calls came in
  between; each returned the revision after the one it expected.\<close>

theorem redis_revisions_unique:
  assumes "record_runs no_records as s" and "list_all lasting_action as"
    and "cf_procs s i = Finished (CompareAndSet e rep) (Stored x)"
    and "cf_procs s j = Finished (CompareAndSet e' rep') (Stored y)" and "i \<noteq> j"
  shows "e \<noteq> e' \<and> revision x = e + 1 \<and> revision y = e' + 1"
proof -
  have "revisions_ok s"
    by (rule record_runs_revisions [OF assms(1) _ assms(2)])
      (simp_all add: empty_conf_def revisions_ok_def lasting_key_def stored_at_def)
  moreover have "stored_at s i = Some x" "stored_at s j = Some y" using assms(3,4) by (simp_all add: stored_at_def)
  ultimately have "revision x \<noteq> revision y" using assms(5) unfolding revisions_ok_def by blast
  moreover have "revision x = e + 1" "revision y = e' + 1"
    using record_runs_ok [OF assms(1), of i] record_runs_ok [OF assms(1), of j] assms(3,4) by simp_all
  ultimately show ?thesis by auto
qed

text \<open>Two calls, one after the other.\<close>

definition sample_record :: "string \<Rightarrow> fsm_record" where
  "sample_record st =
     \<lparr> rec_state = Some st, rec_data = [], revision = 0, updated_at = None, expires_at = None, schema_version = 0 \<rparr>"

definition two_calls :: "record_op action list" where
  "two_calls = Call 0 (CompareAndSet 0 (sample_record ''a'')) # replicate 7 (Run 0) @
     Tick 5 # Call 1 (CompareAndSet 1 (sample_record ''b'')) # replicate 6 (Run 1)"

definition reached :: "record_op action list \<Rightarrow> (fsm_record, phase) conf" where
  "reached as = (case performs record_step callable Started as no_records of Some s \<Rightarrow> s | None \<Rightarrow> no_records)"

lemma reached_run: "performs record_step callable Started as no_records \<noteq> None \<Longrightarrow> record_runs no_records as (reached as)"
  by (auto simp: reached_def intro: performs_run)

lemma two_calls_run: "record_runs no_records two_calls (reached two_calls)"
  "record_runs no_records (two_calls @ [Run 1]) (reached (two_calls @ [Run 1]))"
  by (rule reached_run, code_simp)+

lemma second_call: "\<exists>y. cf_procs (reached (two_calls @ [Run 1])) 1 = Finished (CompareAndSet 1 (sample_record ''b'')) (Stored y)"
  by (rule exI [of _ "(sample_record ''b'')\<lparr> revision := 2, updated_at := Some 5 \<rparr>"]) code_simp

lemma first_call: "\<exists>x. cf_procs (reached (two_calls @ [Run 1])) 0 = Finished (CompareAndSet 0 (sample_record ''a'')) (Stored x)"
  by (rule exI [of _ "(sample_record ''a'')\<lparr> revision := 1, updated_at := Some 0 \<rparr>"]) code_simp

lemma two_calls_lasting: "list_all lasting_action (two_calls @ [Run 1])"
  by code_simp

lemma redis_revisions_unique_witness:
  "\<exists>x y. cf_procs (reached (two_calls @ [Run 1])) 0 = Finished (CompareAndSet 0 (sample_record ''a'')) (Stored x) \<and>
     cf_procs (reached (two_calls @ [Run 1])) 1 = Finished (CompareAndSet 1 (sample_record ''b'')) (Stored y) \<and>
     revision x = 1 \<and> revision y = 2"
proof -
  obtain x y where "cf_procs (reached (two_calls @ [Run 1])) 0 = Finished (CompareAndSet 0 (sample_record ''a'')) (Stored x)"
      "cf_procs (reached (two_calls @ [Run 1])) 1 = Finished (CompareAndSet 1 (sample_record ''b'')) (Stored y)"
    using first_call second_call by blast
  moreover from redis_revisions_unique [OF two_calls_run(2) two_calls_lasting this] have "revision x = 1 \<and> revision y = 2" by simp
  ultimately show ?thesis by blast
qed


end
