(* ===== verification/RedisFsm.thy ===== *)
theory RedisFsm
  imports FsmRecord
begin

text \<open>
  The six methods over Redis (\<open>fsm/redis.py\<close>, \<open>RedisStorage\<close>): two Redis keys for each workflow key, one with the
  state and one with the JSON text of the data. The database is a map from Redis keys to values; each command on it
  is atomic. A value is the text that was stored, or the text \<open>json.dumps\<close> made of a value, kept as what
  \<open>json.loads\<close> gives back. Another client of Redis may have written a text of its own: \<open>loads\<close> is what decoding
  it gives and \<open>dumps\<close> the text of a value.
\<close>

section \<open>Keys\<close>

definition key_part :: "string option \<Rightarrow> string" where
  "key_part o1 = (case o1 of Some s \<Rightarrow> if s = [] then ''*'' else s | None \<Rightarrow> ''*'')"

definition key_base :: "string \<Rightarrow> storage_key \<Rightarrow> string" where
  "key_base pre k =
     pre @ '':'' @ key_part (key_user k) @ '':'' @ key_part (key_space k) @ '':'' @ key_part (key_thread k)"

definition state_key :: "string \<Rightarrow> storage_key \<Rightarrow> string" where
  "state_key pre k = key_base pre k @ '':state''"

definition data_key :: "string \<Rightarrow> storage_key \<Rightarrow> string" where
  "data_key pre k = key_base pre k @ '':data''"

section \<open>JSON text\<close>

definition dumped_key :: "(pyval \<Rightarrow> string) \<Rightarrow> pyval \<Rightarrow> (pyexn, pyval) result" where
  "dumped_key other k =
     (case k of
        PStr s \<Rightarrow> Inr (PStr s)
      | PNone \<Rightarrow> Inr (PStr ''null'')
      | PBool b \<Rightarrow> Inr (PStr (if b then ''true'' else ''false''))
      | PInt i \<Rightarrow> Inr (PStr (py_str other k))
      | PFloat x \<Rightarrow> Inr (PStr (py_str other k))
      | _ \<Rightarrow> Inl (exn (Py TypeErr)))"

text \<open>What \<open>json.loads(json.dumps(v))\<close> is.\<close>

fun dumped :: "(pyval \<Rightarrow> string) \<Rightarrow> pyval \<Rightarrow> (pyexn, pyval) result" where
  "dumped other (PDict d) =
     bind_res (traverse (\<lambda>(k, v). bind_res (dumped_key other k) (\<lambda>k'. map_sum id (Pair k') (dumped other v))) d)
       (\<lambda>ps. Inr (PDict (dict_of ps)))"
| "dumped other (PList xs) = bind_res (traverse (dumped other) xs) (\<lambda>ys. Inr (PList ys))"
| "dumped other (PTuple xs) = bind_res (traverse (dumped other) xs) (\<lambda>ys. Inr (PList ys))"
| "dumped other (PBytes b) = Inl (exn (Py TypeErr))"
| "dumped other (PEnum c n v) = Inl (exn (Py TypeErr))"
| "dumped other (PObj c i) = Inl (exn (Py TypeErr))"
| "dumped other v = Inr v"

section \<open>The database and the methods\<close>

datatype redis_value = Raw string | Document pyval

type_synonym redis_db = "(string, redis_value) pdict"

record redis_env =
  re_prefix :: string
  re_loads :: "string \<Rightarrow> pyval option"
  re_dumps :: "pyval \<Rightarrow> string"
  re_other :: "pyval \<Rightarrow> string"

definition del_keys :: "string list \<Rightarrow> redis_db \<Rightarrow> redis_db" where
  "del_keys ks db = filter (\<lambda>(k, v). k \<notin> set ks) db"

definition redis_get_state :: "redis_env \<Rightarrow> storage_key \<Rightarrow> redis_db \<Rightarrow> string option" where
  "redis_get_state env k db =
     map_option (\<lambda>v. case v of Raw s \<Rightarrow> s | Document d \<Rightarrow> re_dumps env d) (dict_get db (state_key (re_prefix env) k))"

definition redis_set_state :: "redis_env \<Rightarrow> storage_key \<Rightarrow> string option \<Rightarrow> redis_db \<Rightarrow> redis_db" where
  "redis_set_state env k st db =
     (case st of
        None \<Rightarrow> del_keys [state_key (re_prefix env) k] db
      | Some s \<Rightarrow> dict_set (state_key (re_prefix env) k) (Raw s) db)"

definition redis_get_data :: "redis_env \<Rightarrow> storage_key \<Rightarrow> redis_db \<Rightarrow> fsm_data" where
  "redis_get_data env k db =
     (case dict_get db (data_key (re_prefix env) k) of
        None \<Rightarrow> []
      | Some v \<Rightarrow>
          (case (case v of Raw s \<Rightarrow> re_loads env s | Document d \<Rightarrow> Some d) of
             Some (PDict d) \<Rightarrow> str_items d
           | _ \<Rightarrow> []))"

definition write_data :: "redis_env \<Rightarrow> storage_key \<Rightarrow> fsm_data \<Rightarrow> redis_db \<Rightarrow> redis_db \<times> (pyexn, unit) result" where
  "write_data env k d db =
     (case dumped (re_other env) (data_value d) of
        Inl x \<Rightarrow> (db, Inl x)
      | Inr v \<Rightarrow> (dict_set (data_key (re_prefix env) k) (Document v) db, Inr ()))"

definition redis_set_data :: "redis_env \<Rightarrow> storage_key \<Rightarrow> fsm_data \<Rightarrow> redis_db \<Rightarrow> redis_db \<times> (pyexn, unit) result" where
  "redis_set_data env k d db = write_data env k d db"

text \<open>\<open>update_data\<close> is two commands, a GET and a SET; this is the SET with the data the GET gave.\<close>

definition redis_merge ::
  "redis_env \<Rightarrow> storage_key \<Rightarrow> fsm_data \<Rightarrow> fsm_data \<Rightarrow> redis_db \<Rightarrow> redis_db \<times> (pyexn, fsm_data) result" where
  "redis_merge env k read partial db =
     (let merged = dict_update read partial
      in case write_data env k merged db of (db', r) \<Rightarrow> (db', map_sum id (\<lambda>_. merged) r))"

definition redis_update_data ::
  "redis_env \<Rightarrow> storage_key \<Rightarrow> fsm_data \<Rightarrow> redis_db \<Rightarrow> redis_db \<times> (pyexn, fsm_data) result" where
  "redis_update_data env k partial db = redis_merge env k (redis_get_data env k db) partial db"

definition redis_finish :: "redis_env \<Rightarrow> storage_key \<Rightarrow> redis_db \<Rightarrow> redis_db" where
  "redis_finish env k db = del_keys [state_key (re_prefix env) k, data_key (re_prefix env) k] db"

fun redis_call :: "redis_env \<Rightarrow> redis_db storage" where
  "redis_call env (GetState k) db = (db, Inr (StateOut (redis_get_state env k db)))"
| "redis_call env (SetState k st) db = (redis_set_state env k st db, Inr NoOut)"
| "redis_call env (GetData k) db = (db, Inr (DataOut (redis_get_data env k db)))"
| "redis_call env (SetData k d) db = map_prod id (map_sum id (\<lambda>u. NoOut)) (redis_set_data env k d db)"
| "redis_call env (UpdateData k p) db = map_prod id (map_sum id DataOut) (redis_update_data env k p db)"
| "redis_call env (Finish k) db = (redis_finish env k db, Inr NoOut)"

section \<open>Keys do not collide\<close>

text \<open>Names without a colon that are not the placeholder, as the names of Google Chat resources are.\<close>

definition plain_part :: "string option \<Rightarrow> bool" where
  "plain_part o1 \<longleftrightarrow> (case o1 of None \<Rightarrow> True | Some s \<Rightarrow> s \<noteq> [] \<and> s \<noteq> ''*'' \<and> CHR '':'' \<notin> set s)"

definition plain_key :: "storage_key \<Rightarrow> bool" where
  "plain_key k \<longleftrightarrow> plain_part (key_user k) \<and> plain_part (key_space k) \<and> plain_part (key_thread k)"

lemma key_part_no_colon: "plain_part o1 \<Longrightarrow> CHR '':'' \<notin> set (key_part o1)"
  by (auto simp: plain_part_def key_part_def split: option.splits)

lemma key_part_inj: "plain_part a \<Longrightarrow> plain_part b \<Longrightarrow> key_part a = key_part b \<Longrightarrow> a = b"
  by (auto simp: plain_part_def key_part_def split: option.splits if_splits)

lemma split_at: "c \<notin> set a \<Longrightarrow> c \<notin> set b \<Longrightarrow> a @ c # x = b @ c # y \<longleftrightarrow> a = b \<and> x = y"
proof (induction a arbitrary: b)
  case Nil
  then show ?case by (cases b) auto
next
  case (Cons z a)
  then show ?case by (cases b) auto
qed

lemma key_base_inj:
  assumes "plain_key k" and "plain_key k'" and "key_base pre k = key_base pre k'"
  shows "k = k'"
proof -
  note nc = key_part_no_colon
  have "key_part (key_user k) = key_part (key_user k') \<and> key_part (key_space k) = key_part (key_space k') \<and>
      key_part (key_thread k) = key_part (key_thread k')"
    using assms nc [of "key_user k"] nc [of "key_user k'"] nc [of "key_space k"] nc [of "key_space k'"]
    by (simp add: key_base_def plain_key_def split_at)
  then show ?thesis
    using assms(1,2) by (cases k; cases k') (auto simp: plain_key_def intro: key_part_inj)
qed

lemma state_key_inj [simp]: "plain_key k \<Longrightarrow> plain_key k' \<Longrightarrow> state_key pre k = state_key pre k' \<longleftrightarrow> k = k'"
  by (auto simp: state_key_def dest: key_base_inj)

lemma data_key_inj [simp]: "plain_key k \<Longrightarrow> plain_key k' \<Longrightarrow> data_key pre k = data_key pre k' \<longleftrightarrow> k = k'"
  by (auto simp: data_key_def dest: key_base_inj)

lemma last_differs: "last s \<noteq> last t \<Longrightarrow> s \<noteq> t"
  by blast

lemma state_not_data [simp]: "state_key pre k \<noteq> data_key pre k'" "data_key pre k' \<noteq> state_key pre k"
  by (rule last_differs, simp add: state_key_def data_key_def)+

section \<open>Refinement\<close>

lemma dumped_json: "is_json v \<Longrightarrow> dumped other v = Inr v"
proof (induction other v rule: dumped.induct)
  case (1 other d)
  have "traverse (\<lambda>(k, v). bind_res (dumped_key other k) (\<lambda>k'. map_sum id (Pair k') (dumped other v))) d =
      Inr (map (\<lambda>x. x) d)"
    using 1 by (intro traverse_all_Inr) (fastforce simp: list_all_iff dumped_key_def bind_res_def)
  then show ?case using 1 by simp
next
  case (2 other xs)
  then have "traverse (dumped other) xs = Inr (map (\<lambda>x. x) xs)"
    by (intro traverse_all_Inr) (auto simp: list_all_iff)
  then show ?case by simp
qed auto

lemma write_json:
  "json_data d \<Longrightarrow> write_data env k d db =
     (dict_set (data_key (re_prefix env) k) (Document (data_value d)) db, Inr ())"
  by (simp add: write_data_def dumped_json [OF json_data_value])

lemma del_keys_get [simp]: "dict_get (del_keys ks db) k = (if k \<in> set ks then None else dict_get db k)"
  by (induction db) (auto simp: del_keys_def split: if_splits)

text \<open>A database on which nothing else wrote.\<close>

definition own_texts :: "redis_env \<Rightarrow> redis_db \<Rightarrow> bool" where
  "own_texts env db \<longleftrightarrow>
     (\<forall>k. plain_key k \<longrightarrow>
        (\<forall>v. dict_get db (state_key (re_prefix env) k) = Some v \<longrightarrow> (\<exists>s. v = Raw s)) \<and>
        (\<forall>v. dict_get db (data_key (re_prefix env) k) = Some v \<longrightarrow>
           (\<exists>d. json_data d \<and> v = Document (data_value d))))"

definition redis_view :: "redis_env \<Rightarrow> redis_db \<Rightarrow> fsm_view" where
  "redis_view env db k = (if plain_key k then (redis_get_state env k db, redis_get_data env k db) else (None, []))"

definition plain_call :: "fsm_call \<Rightarrow> bool" where
  "plain_call c \<longleftrightarrow> json_call c \<and> plain_key (call_key c)"

lemma read_json:
  assumes "own_texts env db" and "plain_key k"
  shows "json_data (redis_get_data env k db)"
proof (cases "dict_get db (data_key (re_prefix env) k)")
  case None
  then show ?thesis by (simp add: redis_get_data_def json_data_def dict_ok_def)
next
  case (Some v)
  then obtain d where "json_data d" "v = Document (data_value d)"
    using assms unfolding own_texts_def by blast
  then show ?thesis using Some by (simp add: redis_get_data_def data_value_def)
qed

lemmas redis_defs = redis_set_state_def redis_set_data_def redis_update_data_def redis_merge_def redis_finish_def

lemma redis_write:
  assumes "own_texts env db" and "plain_key k" and "json_data d"
  shows "own_texts env (fst (write_data env k d db))" and "snd (write_data env k d db) = Inr ()"
    and "redis_view env (fst (write_data env k d db)) = (redis_view env db)(k := (fst (redis_view env db k), d))"
  using assms by (auto simp: write_json own_texts_def redis_view_def redis_get_state_def redis_get_data_def data_value_def fun_eq_iff)

interpretation redis: six_method_storage "own_texts env" plain_call "redis_view env" "redis_call env" for env
proof unfold_locales
  fix db c
  assume own: "own_texts env db" and c: "plain_call c"
  have m: "json_data (dict_update (redis_get_data env k db) p)" if "c = UpdateData k p" for k p
    using that c read_json [OF own] by (auto simp: plain_call_def intro: json_data_update)
  note w = redis_write [OF own]
  show "own_texts env (fst (redis_call env c db))"
  proof (cases c)
    case (SetState k st)
    then show ?thesis using own by (cases st) (auto simp: own_texts_def redis_defs)
  next
    case (UpdateData k p)
    then show ?thesis using c m w(1) [of k "dict_update (redis_get_data env k db) p"]
      by (simp add: redis_defs plain_call_def Let_def case_prod_beta)
  next
    case (Finish k)
    then show ?thesis using own by (auto simp: own_texts_def redis_defs)
  qed (use own c w(1) in \<open>auto simp: redis_defs plain_call_def\<close>)
  show "snd (redis_call env c db) = Inr (snd (spec_call c (redis_view env db)))"
  proof (cases c)
    case (UpdateData k p)
    then show ?thesis using c m w(2) [of k "dict_update (redis_get_data env k db) p"]
      by (simp add: redis_defs plain_call_def Let_def case_prod_beta redis_view_def)
  qed (use c w(2) in \<open>auto simp: redis_defs plain_call_def redis_view_def\<close>)
  show "redis_view env (fst (redis_call env c db)) = fst (spec_call c (redis_view env db))"
  proof (cases c)
    case (SetState k st)
    then show ?thesis using c
      by (cases st) (auto simp: redis_defs plain_call_def redis_view_def redis_get_state_def redis_get_data_def fun_eq_iff)
  next
    case (UpdateData k p)
    then show ?thesis using c m w(3) [of k "dict_update (redis_get_data env k db) p"]
      by (simp add: redis_defs plain_call_def Let_def case_prod_beta redis_view_def [of env db k])
  next
    case (Finish k)
    then show ?thesis using c
      by (auto simp: redis_defs plain_call_def redis_view_def redis_get_state_def redis_get_data_def fun_eq_iff)
  qed (use c w(3) in \<open>auto simp: redis_defs plain_call_def\<close>)
qed

text \<open>C21. The Redis storage is interchangeable with the in-process one: on workflow keys without a colon, on JSON data and
  with no other writer, every sequence of calls returns the same results and leaves every such key with the same
  state and data.\<close>

theorem redis_storage_agrees:
  assumes "own_texts env db" and "list_all plain_call cs" and "\<forall>k. plain_key k \<longrightarrow> memory_view s k = redis_view env db k"
    and "\<forall>k. \<not> plain_key k \<longrightarrow> memory_view s k = (None, [])"
  shows "snd (storage_run (redis_call env) cs db) = snd (storage_run mem_call cs s) \<and>
    redis_view env (fst (storage_run (redis_call env) cs db)) = memory_view (fst (storage_run mem_call cs s))"
proof -
  have v: "memory_view s = redis_view env db" using assms(3,4) by (auto simp: fun_eq_iff redis_view_def)
  have j: "list_all json_call cs" using assms(2) by (auto simp: list_all_iff plain_call_def)
  show ?thesis using redis.run_spec [OF assms(1,2)] mem.run_spec [OF _ j, of s] v by simp
qed

definition sample_env :: redis_env where
  "sample_env = \<lparr> re_prefix = ''chattice:fsm'', re_loads = (\<lambda>s. None), re_dumps = (\<lambda>v. []), re_other = (\<lambda>v. []) \<rparr>"

definition sample_calls :: "fsm_call list" where
  "sample_calls =
     (let k = \<lparr> key_user = Some ''users/1'', key_space = Some ''spaces/A'', key_thread = None \<rparr>
      in [SetState k (Some ''Form:name''), UpdateData k [(''a'', PInt 1)], GetState k, Finish k, GetData k])"

lemma redis_storage_agrees_witness:
  "snd (storage_run (redis_call sample_env) sample_calls []) =
     [Inr NoOut, Inr (DataOut [(''a'', PInt 1)]), Inr (StateOut (Some ''Form:name'')), Inr NoOut, Inr (DataOut [])]"
proof -
  have "snd (storage_run (redis_call sample_env) sample_calls []) = snd (storage_run mem_call sample_calls [])"
  proof (rule conjunct1 [OF redis_storage_agrees])
    show "own_texts sample_env []" by (simp add: own_texts_def)
    show "list_all plain_call sample_calls"
      by (simp add: sample_calls_def Let_def plain_call_def plain_key_def plain_part_def json_data_def dict_ok_def)
  qed (simp_all add: redis_view_def memory_view_def redis_get_state_def redis_get_data_def)
  then show ?thesis by (simp add: sample_calls_def mem_defs Let_def)
qed

text \<open>
  \<open>update_data\<close> holds a lock that \<open>finish\<close> and \<open>set_data\<close> do not take: one that runs between the GET and the SET
  of an update is undone, although it has returned, also within one process.\<close>

theorem redis_update_race:
  "let k = \<lparr> key_user = Some ''users/1'', key_space = Some ''spaces/A'', key_thread = None \<rparr>;
       db = [(data_key (re_prefix env) k, Document (data_value [(''name'', PStr ''Ann'')]))];
       read = redis_get_data env k db
   in redis_get_data env k (redis_finish env k db) = [] \<and>
      redis_get_data env k (fst (redis_merge env k read [(''age'', PInt 30)] (redis_finish env k db))) =
        [(''name'', PStr ''Ann''), (''age'', PInt 30)] \<and>
      redis_get_data env k (fst (redis_merge env k read [(''age'', PInt 30)] (fst (redis_set_data env k [] db)))) =
        [(''name'', PStr ''Ann''), (''age'', PInt 30)]"
proof -
  have j: "json_data [(''name'', PStr ''Ann''), (''age'', PInt 30)]" "json_data []"
    by (simp_all add: json_data_def dict_ok_def)
  show ?thesis
    using j by (simp add: Let_def redis_defs write_json redis_get_data_def data_value_def)
qed

end
