(* ===== verification/Filters.thy ===== *)
theory Filters
  imports Events
begin

text \<open>
  Filters (\<open>filters/base.py\<close>, \<open>filters/magic.py\<close>). A filter is application code: a function of the
  event, the context and the state \<open>'w\<close> of everything outside the framework, which it may change. The
  context is a dictionary; a filter returns a boolean, a mapping whose keys need not be strings, or
  something else. The magic expressions are evaluated over any objects, whose attribute, item,
  comparison and method access is the argument \<open>ops\<close>.
\<close>

section \<open>Evaluation of filters\<close>

type_synonym 'v ctx = "(string, 'v) pdict"

datatype ctx_key = StrKey string | OtherKey nat

datatype 'v filter_value = FBool bool | FMapping "(ctx_key \<times> 'v) list" | FOther

type_synonym ('w, 'v) event_filter =
  "event \<Rightarrow> 'v ctx \<Rightarrow> 'w \<Rightarrow> 'w \<times> (pyexn, 'v filter_value) result"

text \<open>\<open>BaseFilter.__call__\<close>, for a subclass that does not override it.\<close>

definition base_filter :: "('w, 'v) event_filter" where
  "base_filter e c w = (w, Inl (exn (Py NotImplementedErr)))"

text \<open>Merging the mapping a filter returned: what is merged before a failure stays merged.\<close>

fun merge_mapping :: "(ctx_key \<times> 'v) list \<Rightarrow> 'v ctx \<Rightarrow> 'v ctx \<times> pyexn option" where
  "merge_mapping [] d = (d, None)"
| "merge_mapping ((OtherKey n, v) # ps) d = (d, Some (exn (Fw FilterError)))"
| "merge_mapping ((StrKey k, v) # ps) d =
     (if dict_has d k then (d, Some (exn (Fw ContextConflictError)))
      else merge_mapping ps (dict_set k v d))"

fun evaluate_filters ::
  "('w, 'v) event_filter list \<Rightarrow> event \<Rightarrow> 'v ctx \<Rightarrow> 'w \<Rightarrow> 'w \<times> 'v ctx \<times> (pyexn, bool) result" where
  "evaluate_filters [] e d w = (w, d, Inr True)"
| "evaluate_filters (f # fs) e d w =
     (case f e d w of
        (w1, Inl x) \<Rightarrow> (w1, d, Inl x)
      | (w1, Inr (FBool b)) \<Rightarrow> if b then evaluate_filters fs e d w1 else (w1, d, Inr False)
      | (w1, Inr FOther) \<Rightarrow> (w1, d, Inl (exn (Fw FilterError)))
      | (w1, Inr (FMapping ps)) \<Rightarrow>
         (case merge_mapping ps d of
            (d1, Some x) \<Rightarrow> (w1, d1, Inl x)
          | (d1, None) \<Rightarrow> evaluate_filters fs e d1 w1))"

text \<open>One context extends another: it keeps every entry, in place, and adds new keys at the end.\<close>

definition extends :: "'v ctx \<Rightarrow> 'v ctx \<Rightarrow> bool" where
  "extends d d' \<longleftrightarrow> (\<exists>n. d' = d @ n \<and> fst ` set n \<inter> fst ` set d = {} \<and> dict_ok n)"

lemma extends_refl [simp]: "extends d d"
  by (auto simp: extends_def)

lemma extends_trans: "extends a b \<Longrightarrow> extends b c \<Longrightarrow> extends a c"
proof -
  assume "extends a b" and "extends b c"
  then obtain n m where n: "b = a @ n" "fst ` set n \<inter> fst ` set a = {}" "dict_ok n"
    and m: "c = b @ m" "fst ` set m \<inter> fst ` set b = {}" "dict_ok m" by (auto simp: extends_def)
  have "fst ` set (n @ m) \<inter> fst ` set a = {}" using n m by (simp add: image_Un Int_Un_distrib Int_Un_distrib2)
  moreover have "dict_ok (n @ m)" using n m by (simp add: dict_ok_def image_Un Int_Un_distrib Int_commute)
  ultimately show "extends a c" using n m by (auto simp: extends_def simp del: set_append)
qed

lemma extends_get: "extends d d' \<Longrightarrow> dict_get d k = Some v \<Longrightarrow> dict_get d' k = Some v"
  by (auto simp: extends_def dict_get_def map_add_Some_iff)

lemma extends_set: "\<not> dict_has d k \<Longrightarrow> extends d (dict_set k v d)"
  by (auto simp: extends_def dict_has_def dict_get_None_iff dict_set_fresh dict_ok_def)

lemma merge_extends: "merge_mapping ps d = (d', r) \<Longrightarrow> extends d d'"
proof (induction ps d arbitrary: d' rule: merge_mapping.induct)
  case (3 k v ps d)
  then show ?case by (auto split: if_splits intro: extends_trans extends_set)
qed auto

lemma merge_conflict:
  "merge_mapping ps d = (d', Some x) \<Longrightarrow> x = exn (Fw FilterError) \<or> x = exn (Fw ContextConflictError)"
  by (induction ps d arbitrary: d' rule: merge_mapping.induct) (auto split: if_splits)

text \<open>What the filters leave in the context is what they returned, in order: the mappings joined.\<close>

fun joined :: "('w, 'v) event_filter list \<Rightarrow> event \<Rightarrow> 'v ctx \<Rightarrow> 'w \<Rightarrow> (ctx_key \<times> 'v) list" where
  "joined [] e d w = []"
| "joined (f # fs) e d w =
     (case f e d w of
        (w1, Inr (FBool b)) \<Rightarrow> joined fs e d w1
      | (w1, Inr (FMapping ps)) \<Rightarrow> ps @ joined fs e (fst (merge_mapping ps d)) w1
      | (w1, _) \<Rightarrow> [])"

lemma merge_ok:
  "merge_mapping ps d = (d', None) \<Longrightarrow> \<exists>n. ps = map (\<lambda>(k, v). (StrKey k, v)) n \<and> d' = d @ n"
proof (induction ps d arbitrary: d' rule: merge_mapping.induct)
  case (3 k v ps d)
  then obtain n where "ps = map (\<lambda>(k, v). (StrKey k, v)) n" "d' = dict_set k v d @ n"
    by (auto split: if_splits)
  moreover have "dict_set k v d = d @ [(k, v)]"
    using 3(2) by (auto simp: dict_set_fresh dict_has_def dict_get_None_iff split: if_splits)
  ultimately show ?case by (intro exI [of _ "(k, v) # n"]) simp
qed auto

lemma evaluate_extends: "evaluate_filters fs e d w = (w', d', r) \<Longrightarrow> extends d d'"
proof (induction fs e d w arbitrary: w' d' r rule: evaluate_filters.induct)
  case (2 f fs e d w)
  then show ?case
    by (auto split: prod.splits sum.splits filter_value.splits if_splits option.splits
        intro: extends_trans merge_extends)
qed simp

lemma evaluate_joined:
  "evaluate_filters fs e d w = (w', d', Inr True) \<Longrightarrow>
   \<exists>n. d' = d @ n \<and> joined fs e d w = map (\<lambda>(k, v). (StrKey k, v)) n"
proof (induction fs e d w arbitrary: w' d' rule: evaluate_filters.induct)
  case (1 e d w)
  then show ?case by simp
next
  case (2 f fs e d w)
  obtain w1 x where f: "f e d w = (w1, x)" by (cases "f e d w")
  show ?case
  proof (cases x)
    case (Inl y)
    then show ?thesis using 2(3) f by simp
  next
    case (Inr v)
    show ?thesis
    proof (cases v)
      case (FBool b)
      then show ?thesis using 2(1,3) f Inr by (auto split: if_splits)
    next
      case (FMapping ps)
      obtain d1 r where m: "merge_mapping ps d = (d1, r)" by (cases "merge_mapping ps d")
      then have r: "r = None" using 2(3) f Inr FMapping by (cases r) auto
      obtain n where n: "ps = map (\<lambda>(k, v). (StrKey k, v)) n" "d1 = d @ n"
        using merge_ok m r by blast
      obtain n' where "d' = d1 @ n'" "joined fs e d1 w1 = map (\<lambda>(k, v). (StrKey k, v)) n'"
        using 2(2) [OF f [symmetric] Inr FMapping m [symmetric] r] 2(3) f Inr FMapping m r by auto
      then show ?thesis using f Inr FMapping m n by (intro exI [of _ "n @ n'"]) simp
    next
      case FOther
      then show ?thesis using 2(3) f Inr by simp
    qed
  qed
qed

text \<open>Filters never redefine a key: whatever they return, every entry of the context stays, and
  when all of them match the context has grown by exactly the entries they returned, in order, each
  under a new string key.\<close>

theorem filters_only_add:
  "case evaluate_filters fs e d w of (w', d', r) \<Rightarrow>
     extends d d' \<and>
     (if r = Inr True
      then \<exists>n. d' = d @ n \<and> dict_ok n \<and> fst ` set n \<inter> fst ` set d = {} \<and>
             joined fs e d w = map (\<lambda>(k, v). (StrKey k, v)) n
      else True)"
proof -
  obtain w' d' r where ev: "evaluate_filters fs e d w = (w', d', r)" by (metis prod_cases3)
  have "extends d d'" using evaluate_extends [OF ev] .
  moreover have "\<exists>n. d' = d @ n \<and> dict_ok n \<and> fst ` set n \<inter> fst ` set d = {} \<and>
             joined fs e d w = map (\<lambda>(k, v). (StrKey k, v)) n" if "r = Inr True"
    using evaluate_joined [of fs e d w w' d'] ev that \<open>extends d d'\<close>
    by (auto simp: extends_def)
  ultimately show ?thesis using ev by simp
qed

end
