(* ===== verification/Capabilities.thy ===== *)
theory Capabilities
  imports Events
begin

text \<open>
  Capabilities (\<open>capabilities/matrix.py\<close>, \<open>capabilities/operations.py\<close>,
  \<open>capabilities/registry.py\<close>): what the synchronous response channel allows for an event, the
  Developer Preview enrollment, and the registry of outbound operations with its local check of the
  identity and the scopes. Descriptions, which only appear in messages, are left out. A set of
  capabilities or scopes is a set; the registry is a dictionary in the order of the specifications.
\<close>

section \<open>The response channel\<close>

datatype response_capability =
    SYNC_RESPONSE | DIALOGS | APP_HOME | CARD_UPDATE_BOT | CARD_UPDATE_USER | UPDATE_WIDGET

definition can_open_dialog :: "event option \<Rightarrow> bool" where
  "can_open_dialog e =
     (case e of
        None \<Rightarrow> False
      | Some e \<Rightarrow>
         (case body e of
            CommandEvent c \<Rightarrow> True
          | ActionEvent a \<Rightarrow>
             (case dialog e of None \<Rightarrow> False | Some d \<Rightarrow> dialog_event_type d = REQUEST_DIALOG)
          | _ \<Rightarrow> False))"

text \<open>\<open>ResponseCapabilities.require\<close> and \<open>ResponseCapabilities.resolve\<close>.\<close>

definition require_response :: "response_capability set \<Rightarrow> response_capability \<Rightarrow> (pyexn, unit) result" where
  "require_response cs c = (if c \<in> cs then Inr () else Inl (exn (St CapabilityNotSupported)))"

definition event_capabilities :: "event \<Rightarrow> response_capability set" where
  "event_capabilities e =
     (case body e of
        AppHomeEvent \<Rightarrow> {APP_HOME}
      | FormSubmitEvent f \<Rightarrow> {APP_HOME}
      | WidgetUpdatedEvent f \<Rightarrow> {UPDATE_WIDGET}
      | ActionEvent a \<Rightarrow>
          (if action_sender_type a = Some ''BOT'' then {CARD_UPDATE_BOT}
           else if action_sender_type a = Some ''HUMAN'' then {CARD_UPDATE_USER}
           else {})
      | MessageEvent m \<Rightarrow> (if matched_url m \<noteq> None then {CARD_UPDATE_USER} else {})
      | _ \<Rightarrow> {})"

definition resolve_response :: "string \<Rightarrow> event option \<Rightarrow> (pyexn, response_capability set) result" where
  "resolve_response transport e =
     (if transport \<notin> {''http'', ''pubsub''} then Inl (exn (Py ValueErr))
      else if transport = ''pubsub'' then Inr {}
      else Inr ({SYNC_RESPONSE} \<union> (if can_open_dialog e then {DIALOGS} else {}) \<union>
                (case e of None \<Rightarrow> {} | Some e \<Rightarrow> event_capabilities e)))"

section \<open>Developer Preview\<close>

datatype preview_feature =
    MESSAGE_ACTION_PREVIEW | REPLACE_CARDS | USER_AUTH_CARDS | CUSTOMER_LEVEL_SUBSCRIPTIONS
  | PINNED_MESSAGES | RELEVANCE_SEARCH_ORDERING

definition require_preview :: "preview_feature set \<Rightarrow> preview_feature \<Rightarrow> (pyexn, unit) result" where
  "require_preview fs f = (if f \<in> fs then Inr () else Inl (exn (St CapabilityNotSupported)))"

section \<open>Operations\<close>

datatype auth_mode = APP | USER_AUTH | NO_AUTH

datatype operation =
    MESSAGES_CREATE | MESSAGES_GET | MESSAGES_LIST | MESSAGES_SEARCH | MESSAGES_UPDATE
  | MESSAGES_DELETE | MEDIA_UPLOAD | MEDIA_DOWNLOAD | ATTACHMENT_METADATA_GET | SPACES_GET
  | SPACES_LIST | SPACES_SEARCH | SPACES_FIND_DIRECT_MESSAGE | SPACES_FIND_GROUP_CHATS
  | SPACES_SETUP | SPACES_CREATE | SPACES_UPDATE | SPACES_DELETE | MEMBERSHIPS_CREATE
  | MEMBERSHIPS_GET | MEMBERSHIPS_LIST | MEMBERSHIPS_UPDATE | MEMBERSHIPS_DELETE
  | REACTIONS_CREATE | REACTIONS_LIST | REACTIONS_DELETE | SPACE_READ_STATE_GET
  | SPACE_READ_STATE_UPDATE | THREAD_READ_STATE_GET | NOTIFICATION_SETTING_GET
  | NOTIFICATION_SETTING_UPDATE

datatype execution_variant = NORMAL | ADMIN | IMPORT

record auth_path =
  identity :: auth_mode
  any_scope :: "string set"
  variant :: execution_variant
  request_flag :: "string option"

record operation_spec =
  sp_operation :: operation
  google_method :: string
  auth_paths :: "auth_path list"
  paginated :: bool
  preview :: bool
  retry_policy :: "string option"

definition scopes :: "string list \<Rightarrow> string set" where
  "scopes names = set (map (\<lambda>n. ''https://www.googleapis.com/auth/'' @ n) names)"

definition path :: "auth_mode \<Rightarrow> string list \<Rightarrow> auth_path" where
  "path m names = \<lparr> identity = m, any_scope = scopes names, variant = NORMAL, request_flag = None \<rparr>"

definition spec_of :: "operation \<Rightarrow> string \<Rightarrow> bool \<Rightarrow> auth_path list \<Rightarrow> operation_spec" where
  "spec_of op m pg ps =
     \<lparr> sp_operation = op, google_method = m, auth_paths = ps, paginated = pg, preview = False,
       retry_policy = None \<rparr>"

text \<open>The specifications, in the order of the source.\<close>

definition message_specs :: "operation_spec list" where
  "message_specs =
     [
      spec_of MESSAGES_CREATE ''spaces.messages.create'' False
        [path APP [''chat.bot''], path USER_AUTH [''chat.messages.create'', ''chat.messages'', ''chat.import'']],
      spec_of MESSAGES_UPDATE ''spaces.messages.update'' False
        [path APP [''chat.bot''], path USER_AUTH [''chat.messages'', ''chat.import'']],
      spec_of MESSAGES_GET ''spaces.messages.get'' False
        [path APP [''chat.bot''], path USER_AUTH [''chat.messages.readonly'', ''chat.messages'']],
      spec_of MESSAGES_LIST ''spaces.messages.list'' True
        [path APP [''chat.app.messages.readonly''], path USER_AUTH [''chat.messages.readonly'', ''chat.messages'']],
      spec_of MESSAGES_DELETE ''spaces.messages.delete'' False
        [path APP [''chat.bot''], path USER_AUTH [''chat.messages'']],
      spec_of MEDIA_UPLOAD ''media.upload'' False
        [path USER_AUTH [''chat.messages.create'', ''chat.messages'', ''chat.import'']],
      spec_of MEDIA_DOWNLOAD ''media.download'' False
        [path USER_AUTH [''chat.messages.readonly'', ''chat.messages''], path APP [''chat.bot'']],
      spec_of ATTACHMENT_METADATA_GET ''spaces.messages.attachments.get'' False
        [path APP [''chat.bot'']],
      spec_of SPACES_GET ''spaces.get'' False
        [path APP [''chat.bot'', ''chat.spaces''], path USER_AUTH [''chat.spaces'', ''chat.spaces.readonly'']],
      spec_of SPACES_LIST ''spaces.list'' True
        [path APP [''chat.bot'']],
      spec_of SPACES_FIND_DIRECT_MESSAGE ''spaces.findDirectMessage'' False
        [path USER_AUTH [''chat.spaces'', ''chat.spaces.readonly''], path APP [''chat.bot'']],
      spec_of SPACES_SETUP ''spaces.setup'' False
        [path USER_AUTH [''chat.spaces'', ''chat.spaces.create'']]]"

definition member_specs :: "operation_spec list" where
  "member_specs =
     [
      spec_of MEMBERSHIPS_CREATE ''spaces.members.create'' False
        [path APP [''chat.app.memberships'']],
      spec_of MEMBERSHIPS_GET ''spaces.members.get'' False
        [path APP [''chat.bot'', ''chat.app.memberships'']],
      spec_of MEMBERSHIPS_LIST ''spaces.members.list'' True
        [path APP [''chat.bot'', ''chat.app.memberships'']],
      spec_of MEMBERSHIPS_DELETE ''spaces.members.delete'' False
        [path APP [''chat.app.memberships'']],
      spec_of REACTIONS_CREATE ''spaces.messages.reactions.create'' False
        [path USER_AUTH [''chat.messages.reactions'', ''chat.messages.reactions.create'']],
      spec_of REACTIONS_LIST ''spaces.messages.reactions.list'' True
        [path USER_AUTH [''chat.messages.reactions'', ''chat.messages.reactions.readonly'']],
      spec_of REACTIONS_DELETE ''spaces.messages.reactions.delete'' False
        [path USER_AUTH [''chat.messages.reactions'']],
      spec_of SPACE_READ_STATE_GET ''users.spaces.getSpaceReadState'' False
        [path USER_AUTH [''chat.users.readstate'', ''chat.users.readstate.readonly'']],
      spec_of SPACE_READ_STATE_UPDATE ''users.spaces.updateSpaceReadState'' False
        [path USER_AUTH [''chat.users.readstate'']],
      spec_of THREAD_READ_STATE_GET ''users.spaces.threads.getThreadReadState'' False
        [path USER_AUTH [''chat.users.readstate'', ''chat.users.readstate.readonly'']],
      spec_of NOTIFICATION_SETTING_GET ''users.spaces.spaceNotificationSetting.get'' False
        [path USER_AUTH [''chat.users.spacesettings'']],
      spec_of NOTIFICATION_SETTING_UPDATE ''users.spaces.spaceNotificationSetting.patch'' False
        [path USER_AUTH [''chat.users.spacesettings'']]]"

definition all_specs :: "operation_spec list" where
  "all_specs = message_specs @ member_specs"

section \<open>The registry\<close>

type_synonym registry = "(operation, operation_spec) pdict"

fun build_registry :: "operation_spec list \<Rightarrow> registry \<Rightarrow> (pyexn, registry) result" where
  "build_registry [] r = Inr r"
| "build_registry (s # ss) r =
     (if dict_has r (sp_operation s) then Inl (exn (Py ValueErr))
      else build_registry ss (dict_set (sp_operation s) s r))"

definition registry_spec :: "registry \<Rightarrow> operation \<Rightarrow> (pyexn, operation_spec) result" where
  "registry_spec r op =
     (case dict_get r op of Some s \<Rightarrow> Inr s | None \<Rightarrow> Inl (exn (St UnknownOperation)))"

definition preflight ::
  "registry \<Rightarrow> operation \<Rightarrow> auth_mode option \<Rightarrow> string set option \<Rightarrow> execution_variant \<Rightarrow> (pyexn, bool) result" where
  "preflight r op who known var =
     bind_res (registry_spec r op)
       (\<lambda>s. let paths = filter (\<lambda>p. Some (identity p) = who \<and> variant p = var) (auth_paths s)
            in Inr (if paths = [] then False
                    else (case known of
                            None \<Rightarrow> True
                          | Some k \<Rightarrow> list_ex (\<lambda>p. any_scope p \<inter> k \<noteq> {}) paths)))"

definition require_operation ::
  "registry \<Rightarrow> operation \<Rightarrow> auth_mode option \<Rightarrow> string set option \<Rightarrow> execution_variant \<Rightarrow> (pyexn, unit) result" where
  "require_operation r op who known var =
     bind_res (preflight r op who known var)
       (\<lambda>ok. if ok then Inr () else Inl (exn (St CapabilityNotSupported)))"

lemma build_registry_distinct:
  "distinct (map sp_operation ss) \<Longrightarrow> sp_operation ` set ss \<inter> fst ` set r = {} \<Longrightarrow>
   build_registry ss r = Inr (r @ map (\<lambda>s. (sp_operation s, s)) ss)"
proof (induction ss arbitrary: r)
  case Nil
  then show ?case by simp
next
  case (Cons s ss)
  then have "sp_operation s \<notin> fst ` set r" by auto
  with Cons show ?case by (auto simp: dict_set_fresh dict_has_def dict_get_None_iff)
qed

definition the_registry :: registry where
  "the_registry = (case build_registry all_specs [] of Inr r \<Rightarrow> r | Inl e \<Rightarrow> [])"

lemma all_specs_distinct: "distinct (map sp_operation all_specs)"
  by (simp add: all_specs_def message_specs_def member_specs_def spec_of_def)

lemma registry_built: "build_registry all_specs [] = Inr the_registry"
  by (simp add: the_registry_def build_registry_distinct all_specs_distinct)

lemma the_registry_map: "the_registry = map (\<lambda>s. (sp_operation s, s)) all_specs"
  by (simp add: the_registry_def build_registry_distinct all_specs_distinct)

text \<open>The local check is monotone: for any registry, an identity and a variant, more scopes never
  close an operation, and not knowing the scopes never closes it either; without an identity, or with
  the identity \<open>NONE\<close> that no path of the registry names, nothing is admissible.\<close>

theorem preflight_monotone:
  assumes "preflight r op who (Some k) var = Inr True" and "k \<subseteq> k'"
  shows "preflight r op who (Some k') var = Inr True \<and> preflight r op who None var = Inr True \<and> who \<noteq> None"
proof -
  obtain s where s: "registry_spec r op = Inr s"
    using assms(1) by (auto simp: preflight_def bind_res_Inr_iff)
  let ?paths = "filter (\<lambda>p. Some (identity p) = who \<and> variant p = var) (auth_paths s)"
  have "?paths \<noteq> []" and ex: "list_ex (\<lambda>p. any_scope p \<inter> k \<noteq> {}) ?paths"
    using assms(1) s by (auto simp: preflight_def Let_def split: if_splits)
  moreover have "list_ex (\<lambda>p. any_scope p \<inter> k' \<noteq> {}) ?paths"
    using ex assms(2) by (fastforce simp: list_ex_iff)
  moreover have "who \<noteq> None" using ex by (auto simp: list_ex_iff)
  ultimately show ?thesis using s by (simp add: preflight_def Let_def)
qed

lemma scopes_simps [simp]:
  "scopes [] = {}"
  "scopes (n # ns) = insert (''https://www.googleapis.com/auth/'' @ n) (scopes ns)"
  by (simp_all add: scopes_def)

lemma preflight_monotone_witness:
  "preflight the_registry SPACES_LIST (Some APP)
     (Some (scopes [''chat.bot'', ''chat.spaces''])) NORMAL = Inr True"
  using preflight_monotone [of the_registry SPACES_LIST "Some APP" "scopes [''chat.bot'']" NORMAL
      "scopes [''chat.bot'', ''chat.spaces'']"]
  by (simp add: preflight_def registry_spec_def the_registry_map all_specs_def message_specs_def
      member_specs_def spec_of_def path_def)

text \<open>The operations an app that holds the \<open>chat.bot\<close> scope alone may attempt.\<close>

definition bot_operations :: "operation set" where
  "bot_operations = {MESSAGES_CREATE, MESSAGES_UPDATE, MESSAGES_GET, MESSAGES_DELETE, MEDIA_DOWNLOAD,
     ATTACHMENT_METADATA_GET, SPACES_GET, SPACES_LIST, SPACES_FIND_DIRECT_MESSAGE, MEMBERSHIPS_GET,
     MEMBERSHIPS_LIST}"

text \<open>The registry of the source is built without a duplicate; an app with the scope \<open>chat.bot\<close> may
  attempt exactly the eleven operations listed, no operation has an admin or import variant, the
  identity \<open>NONE\<close> may attempt nothing, and an operation outside the specifications is refused as
  unknown whatever the identity.\<close>

theorem registry_facts:
  "build_registry all_specs [] = Inr the_registry \<and>
   {op. preflight the_registry op (Some APP) (Some (scopes [''chat.bot''])) NORMAL = Inr True} = bot_operations \<and>
   (\<forall>op who known. preflight the_registry op who known ADMIN \<noteq> Inr True) \<and>
   (\<forall>op who known. preflight the_registry op who known IMPORT \<noteq> Inr True) \<and>
   (\<forall>op known var. preflight the_registry op (Some NO_AUTH) known var \<noteq> Inr True) \<and>
   (\<forall>op. (preflight the_registry op who known var = Inl (exn (St UnknownOperation))) =
         (op \<notin> sp_operation ` set all_specs))"
proof (intro conjI allI)
  have normal: "list_all (\<lambda>s. list_all (\<lambda>p. variant p = NORMAL \<and> identity p \<noteq> NO_AUTH) (auth_paths s)) all_specs"
    by (simp add: all_specs_def message_specs_def member_specs_def spec_of_def path_def)
  have spec: "registry_spec the_registry op = Inr s \<Longrightarrow> s \<in> set all_specs" for op s
    by (auto simp: registry_spec_def the_registry_map dest!: dict_get_in_set split: option.splits)
  have no: "preflight the_registry op who known var \<noteq> Inr True" if "var \<noteq> NORMAL \<or> who = Some NO_AUTH"
    for op who known var
  proof
    assume "preflight the_registry op who known var = Inr True"
    then obtain s where "registry_spec the_registry op = Inr s"
      and "filter (\<lambda>p. Some (identity p) = who \<and> variant p = var) (auth_paths s) \<noteq> []"
      by (auto simp: preflight_def bind_res_Inr_iff Let_def split: if_splits)
    then show False using normal spec that by (fastforce simp: list_all_iff filter_empty_conv)
  qed
  show "build_registry all_specs [] = Inr the_registry" by (rule registry_built)
  show "preflight the_registry op who known ADMIN \<noteq> Inr True"
    and "preflight the_registry op who known IMPORT \<noteq> Inr True"
    and "preflight the_registry op (Some NO_AUTH) known var \<noteq> Inr True" for op who known var
    using no by simp_all
  have "preflight the_registry op (Some APP) (Some (scopes [''chat.bot''])) NORMAL = Inr True \<longleftrightarrow> op \<in> bot_operations" for op
    by (cases op) (simp_all add: preflight_def registry_spec_def the_registry_map all_specs_def
        message_specs_def member_specs_def spec_of_def path_def bot_operations_def)
  then show "{op. preflight the_registry op (Some APP) (Some (scopes [''chat.bot''])) NORMAL = Inr True} = bot_operations"
    by blast
  show "(preflight the_registry op who known var = Inl (exn (St UnknownOperation))) =
         (op \<notin> sp_operation ` set all_specs)" for op
    by (auto simp: preflight_def bind_res_Inl_iff registry_spec_def the_registry_map Let_def
        dict_get_None_iff image_iff dest!: dict_get_in_set split: option.splits)
qed

end
