(* ===== verification/Dependency.thy ===== *)
theory Dependency
  imports Filters Capabilities Fsm
begin

text \<open>
  Handlers and their dependencies (\<open>dispatcher/dependency.py\<close>, \<open>dispatcher/handler.py\<close>). A signature
  is what \<open>inspect\<close> and \<open>get_type_hints\<close> report of a callback; a plan says for each parameter
  how it is resolved. Application subclasses of the event classes are not modelled: \<open>isinstance\<close>
  compares the framework's classes. The values a context can hold are the type \<open>ctx_val\<close>: what
  the dispatcher itself puts there, and anything else.
\<close>

datatype ctx_val =
    CVal pyval
  | CBot nat
  | CPreview "preview_feature set"
  | CState "storage_key option"
  | CCapabilities "response_capability set"

section \<open>Event classes\<close>

datatype event_class =
    EventC | MessageC | ActionC | CommandC | FormSubmitC | WidgetUpdatedC | AddedToSpaceC
  | RemovedFromSpaceC | AppHomeC | UnknownC | ErrorC

fun class_of :: "event_body \<Rightarrow> event_class" where
  "class_of PlainEvent = EventC"
| "class_of (MessageEvent b) = MessageC"
| "class_of (ActionEvent b) = ActionC"
| "class_of (CommandEvent b) = CommandC"
| "class_of (FormSubmitEvent b) = FormSubmitC"
| "class_of (WidgetUpdatedEvent b) = WidgetUpdatedC"
| "class_of AddedToSpaceEvent = AddedToSpaceC"
| "class_of RemovedFromSpaceEvent = RemovedFromSpaceC"
| "class_of AppHomeEvent = AppHomeC"
| "class_of (UnknownEvent t) = UnknownC"
| "class_of (ErrorEvent e x) = ErrorC"

definition instance_of :: "event \<Rightarrow> event_class \<Rightarrow> bool" where
  "instance_of e c \<longleftrightarrow> c = EventC \<or> class_of (body e) = c"

definition dialog_is :: "event \<Rightarrow> dialog_type \<Rightarrow> bool" where
  "dialog_is e t \<longleftrightarrow> (case dialog e of None \<Rightarrow> False | Some d \<Rightarrow> dialog_event_type d = t)"

text \<open>\<open>_event_aliases\<close>: the names that stand for the event itself.\<close>

definition event_aliases :: "event \<Rightarrow> string list" where
  "event_aliases e =
     ''event'' #
     (case class_of (body e) of
        MessageC \<Rightarrow> [''message'']
      | ActionC \<Rightarrow>
          ''action'' #
          (if dialog_is e SUBMIT_DIALOG then [''dialog_submit'']
           else if dialog_is e CANCEL_DIALOG then [''dialog_cancel''] else [])
      | CommandC \<Rightarrow> [''command'']
      | AddedToSpaceC \<Rightarrow> [''added_to_space'']
      | RemovedFromSpaceC \<Rightarrow> [''removed_from_space'']
      | WidgetUpdatedC \<Rightarrow> [''widget'']
      | AppHomeC \<Rightarrow> [''app_home'']
      | FormSubmitC \<Rightarrow> [''form'']
      | UnknownC \<Rightarrow> [''unknown'']
      | ErrorC \<Rightarrow> [''error'', ''error_event'']
      | EventC \<Rightarrow> [])"

definition all_aliases :: "string list" where
  "all_aliases =
     [''event'', ''message'', ''action'', ''command'', ''added_to_space'', ''removed_from_space'',
      ''widget'', ''app_home'', ''form'', ''dialog_submit'', ''dialog_cancel'', ''unknown'', ''error'',
      ''error_event'']"

section \<open>Plans\<close>

record param_plan =
  pp_name :: string
  pp_types :: "event_class list"
  pp_alias :: bool
  pp_default :: bool

text \<open>Annotations: missing, \<open>Any\<close>, a union, an event class, or anything else (a string too).\<close>

datatype annotation = AnnEmpty | AnnAny | AnnUnion "annotation list" | AnnEvent event_class | AnnOther nat

datatype param_kind = PositionalOnly | PositionalOrKeyword | VarPositional | KeywordOnly | VarKeyword

record parameter =
  pa_name :: string
  pa_kind :: param_kind
  pa_annotation :: annotation
  pa_has_default :: bool

text \<open>\<open>hints\<close> is \<open>None\<close> when \<open>get_type_hints\<close> fails; \<open>params\<close> is \<open>None\<close> when the signature cannot be read.\<close>

record signature =
  sig_is_async :: bool
  sig_params :: "parameter list option"
  sig_hints :: "(string, annotation) pdict option"

fun event_types :: "annotation \<Rightarrow> event_class list" where
  "event_types (AnnUnion as) = rev (remdups (rev (concat (map event_types as))))"
| "event_types (AnnEvent c) = [c]"
| "event_types a = []"

definition param_annotation :: "signature \<Rightarrow> parameter \<Rightarrow> annotation" where
  "param_annotation s p =
     (case Option.bind (sig_hints s) (\<lambda>h. dict_get h (pa_name p)) of
        Some a \<Rightarrow> a | None \<Rightarrow> pa_annotation p)"

definition plan_param :: "signature \<Rightarrow> parameter \<Rightarrow> (pyexn, param_plan) result" where
  "plan_param s p =
     (if pa_kind p \<in> {PositionalOnly, VarPositional, VarKeyword} then Inl (exn (Fw InvalidHandlerError))
      else
        (let a = param_annotation s p; ts = event_types a
         in Inr \<lparr> pp_name = pa_name p, pp_types = ts,
                  pp_alias = (ts = [] \<and> (a = AnnEmpty \<or> a = AnnAny) \<and> pa_name p \<in> set all_aliases),
                  pp_default = pa_has_default p \<rparr>))"

definition build_handler_plan :: "signature \<Rightarrow> (pyexn, param_plan list) result" where
  "build_handler_plan s =
     (if \<not> sig_is_async s then Inl (exn (Fw InvalidHandlerError))
      else (case sig_params s of
              None \<Rightarrow> Inl (exn (Fw InvalidHandlerError))
            | Some ps \<Rightarrow> traverse (plan_param s) ps))"

section \<open>Invocation\<close>

datatype 'v argument = ArgEvent event | ArgValue 'v

type_synonym 'v kwargs = "(string, 'v argument) pdict"

datatype resolution = FromEvent | FromContext | FromDefault | Unresolved

text \<open>How one parameter is resolved, in the order of the branches of \<open>invoke\<close>.\<close>

definition resolution_of :: "event \<Rightarrow> 'v ctx \<Rightarrow> param_plan \<Rightarrow> resolution" where
  "resolution_of e d p =
     (if pp_types p \<noteq> [] then (if list_ex (instance_of e) (pp_types p) then FromEvent else Unresolved)
      else if pp_alias p \<and> pp_name p \<in> set (event_aliases e) then FromEvent
      else if dict_has d (pp_name p) then FromContext
      else if pp_default p then FromDefault
      else Unresolved)"

fun resolve_kwargs :: "event \<Rightarrow> 'v ctx \<Rightarrow> param_plan list \<Rightarrow> 'v kwargs \<Rightarrow> (pyexn, 'v kwargs) result" where
  "resolve_kwargs e d [] kw = Inr kw"
| "resolve_kwargs e d (p # ps) kw =
     (case resolution_of e d p of
        FromEvent \<Rightarrow> resolve_kwargs e d ps (dict_set (pp_name p) (ArgEvent e) kw)
      | FromContext \<Rightarrow>
          (case dict_get d (pp_name p) of
             Some v \<Rightarrow> resolve_kwargs e d ps (dict_set (pp_name p) (ArgValue v) kw)
           | None \<Rightarrow> resolve_kwargs e d ps kw)
      | FromDefault \<Rightarrow> resolve_kwargs e d ps kw
      | Unresolved \<Rightarrow> Inl (exn (Fw DependencyResolutionError)))"

text \<open>The callback is application code: called with keyword arguments it returns an awaitable, whose
  result is \<open>Awaited\<close>, or a value that cannot be awaited; calling and awaiting may raise.\<close>

datatype 'r reply = Awaited 'r | NotAwaitable

type_synonym ('w, 'v, 'r) callback = "'v kwargs \<Rightarrow> 'w \<Rightarrow> 'w \<times> (pyexn, 'r reply) result"

record ('w, 'v, 'r) handler =
  h_name :: string
  h_callback :: "('w, 'v, 'r) callback"
  h_filters :: "('w, 'v) event_filter list"
  h_plan :: "param_plan list"

text \<open>\<open>HandlerObject(...)\<close> with its plan built; \<open>HandlerPlan.invoke\<close>.\<close>

definition make_handler ::
  "string \<Rightarrow> ('w, 'v, 'r) callback \<Rightarrow> bool \<Rightarrow> signature \<Rightarrow> ('w, 'v) event_filter list
   \<Rightarrow> (pyexn, ('w, 'v, 'r) handler) result" where
  "make_handler n cb hashable s fs =
     (if \<not> hashable then Inl (exn (Fw InvalidHandlerError))
      else bind_res (build_handler_plan s)
             (\<lambda>pl. Inr \<lparr> h_name = n, h_callback = cb, h_filters = fs, h_plan = pl \<rparr>))"

definition invoke_plan :: "('w, 'v, 'r) handler \<Rightarrow> event \<Rightarrow> 'v ctx \<Rightarrow> 'w \<Rightarrow> 'w \<times> (pyexn, 'r) result" where
  "invoke_plan h e d w =
     (case resolve_kwargs e d (h_plan h) [] of
        Inl x \<Rightarrow> (w, Inl x)
      | Inr kw \<Rightarrow>
         (case h_callback h kw w of
            (w1, Inl x) \<Rightarrow> (w1, Inl x)
          | (w1, Inr NotAwaitable) \<Rightarrow> (w1, Inl (exn (Fw InvalidHandlerError)))
          | (w1, Inr (Awaited r)) \<Rightarrow> (w1, Inr r)))"

section \<open>Laws\<close>

definition argument_of :: "event \<Rightarrow> 'v ctx \<Rightarrow> param_plan \<Rightarrow> 'v argument option" where
  "argument_of e d p =
     (case resolution_of e d p of
        FromEvent \<Rightarrow> Some (ArgEvent e)
      | FromContext \<Rightarrow> map_option ArgValue (dict_get d (pp_name p))
      | _ \<Rightarrow> None)"

lemma from_context_has: "resolution_of e d p = FromContext \<Longrightarrow> \<exists>v. dict_get d (pp_name p) = Some v"
  by (auto simp: resolution_of_def dict_has_def split: if_splits)

lemma resolve_kwargs_spec:
  "distinct (map pp_name ps) \<Longrightarrow>
   (case resolve_kwargs e d ps kw of
      Inl x \<Rightarrow> x = exn (Fw DependencyResolutionError) \<and> (\<exists>p \<in> set ps. resolution_of e d p = Unresolved)
    | Inr kw' \<Rightarrow> (\<forall>p \<in> set ps. resolution_of e d p \<noteq> Unresolved) \<and>
        (\<forall>n. n \<notin> pp_name ` set ps \<longrightarrow> dict_get kw' n = dict_get kw n) \<and>
        (\<forall>p \<in> set ps. dict_get kw' (pp_name p) =
            (case argument_of e d p of Some a \<Rightarrow> Some a | None \<Rightarrow> dict_get kw (pp_name p))))"
proof (induction ps arbitrary: kw)
  case Nil
  then show ?case by simp
next
  case (Cons p ps)
  then have d: "distinct (map pp_name ps)" and new: "pp_name p \<notin> pp_name ` set ps" by auto
  show ?case
  proof (cases "argument_of e d p")
    case (Some a)
    then have step: "resolve_kwargs e d (p # ps) kw = resolve_kwargs e d ps (dict_set (pp_name p) a kw)"
      and res: "resolution_of e d p \<noteq> Unresolved"
      by (auto simp: argument_of_def split: resolution.splits)
    have other: "pp_name p \<noteq> pp_name q" if "q \<in> set ps" for q
      using that new by auto
    show ?thesis unfolding step using Cons.IH [OF d, of "dict_set (pp_name p) a kw"] Some res new
      by (auto split: sum.splits option.splits dest: other)
  next
    case None
    show ?thesis
    proof (cases "resolution_of e d p = Unresolved")
      case True
      then show ?thesis by simp
    next
      case False
      then have step: "resolve_kwargs e d (p # ps) kw = resolve_kwargs e d ps kw"
        using None from_context_has [of e d p] by (auto simp: argument_of_def split: resolution.splits)
      show ?thesis unfolding step using Cons.IH [OF d, of kw] None False new
        by (auto split: sum.splits)
    qed
  qed
qed



end
