(* ===== verification/Magic.thy ===== *)
theory Magic
  imports Filters
begin

text \<open>
  The expression trees of \<open>filters/magic.py\<close>. What attribute access, subscripting, truth, comparison
  and the string methods do to the objects of an event is Python's and the application's: it is the
  record \<open>'o obj_ops\<close>, each operation of which may raise. The regular expression library is part of
  it. The nodes and the exceptions each of them swallows are those of the code.
\<close>

section \<open>Expressions\<close>

datatype 'o path_step = Attr string | Item 'o

datatype cmp_op = CEq | CNe | CLt | CLe | CGt | CGe

datatype method_op = MContains | MStartswith | MEndswith | MIn | MIs | MExists | MRegexp

datatype 'o magic =
    Field "'o path_step list"
  | Comparison cmp_op "'o path_step list" 'o
  | Method method_op "'o path_step list" "'o option"
  | AndE "'o magic" "'o magic"
  | OrE "'o magic" "'o magic"
  | NotE "'o magic"

record 'o obj_ops =
  ob_attr :: "'o \<Rightarrow> string \<Rightarrow> (pyexn, 'o) result"
  ob_item :: "'o \<Rightarrow> 'o \<Rightarrow> (pyexn, 'o) result"
  ob_bool :: "'o \<Rightarrow> (pyexn, bool) result"
  ob_compare :: "cmp_op \<Rightarrow> 'o \<Rightarrow> 'o \<Rightarrow> (pyexn, bool) result"
  ob_contains :: "'o \<Rightarrow> 'o \<Rightarrow> (pyexn, bool) result"
  ob_startswith :: "'o \<Rightarrow> 'o \<Rightarrow> (pyexn, bool) result"
  ob_endswith :: "'o \<Rightarrow> 'o \<Rightarrow> (pyexn, bool) result"
  ob_same :: "'o \<Rightarrow> 'o \<Rightarrow> bool"
  ob_is_str :: "'o \<Rightarrow> bool"
  ob_is_pattern :: "'o \<Rightarrow> bool"
  ob_match :: "'o \<Rightarrow> 'o \<Rightarrow> bool"

text \<open>\<open>resolve\<close>: a path that cannot be followed is \<open>MISSING\<close>, here \<open>None\<close>; other failures escape.\<close>

definition path_error :: "exn_class \<Rightarrow> bool" where
  "path_error c \<longleftrightarrow>
     issubclass c (Py AttributeErr) \<or> issubclass c (Py KeyErr) \<or> issubclass c (Py IndexErr) \<or>
     issubclass c (Py TypeErr)"

fun resolve :: "'o obj_ops \<Rightarrow> 'o \<Rightarrow> 'o path_step list \<Rightarrow> (pyexn, 'o option) result" where
  "resolve ops x [] = Inr (Some x)"
| "resolve ops x (p # ps) =
     (case (case p of Attr n \<Rightarrow> ob_attr ops x n | Item k \<Rightarrow> ob_item ops x k) of
        Inr y \<Rightarrow> resolve ops y ps
      | Inl e \<Rightarrow> if path_error (exn_cls e) then Inr None else Inl e)"

text \<open>\<open>try: ... except (...): return False\<close>\<close>

definition false_on :: "(exn_class \<Rightarrow> bool) \<Rightarrow> (pyexn, bool) result \<Rightarrow> (pyexn, bool) result" where
  "false_on caught r = (case r of Inl e \<Rightarrow> if caught (exn_cls e) then Inr False else Inl e | Inr b \<Rightarrow> Inr b)"

definition compare_error :: "exn_class \<Rightarrow> bool" where
  "compare_error c \<longleftrightarrow> issubclass c (Py TypeErr)"

definition method_error :: "exn_class \<Rightarrow> bool" where
  "method_error c \<longleftrightarrow> issubclass c (Py AttributeErr) \<or> issubclass c (Py TypeErr)"

definition call_method :: "'o obj_ops \<Rightarrow> method_op \<Rightarrow> 'o \<Rightarrow> 'o \<Rightarrow> (pyexn, bool) result" where
  "call_method ops m actual expected =
     (case m of
        MContains \<Rightarrow> ob_contains ops actual expected
      | MIn \<Rightarrow> ob_contains ops expected actual
      | MStartswith \<Rightarrow> ob_startswith ops actual expected
      | _ \<Rightarrow> ob_endswith ops actual expected)"

text \<open>The expected value of \<open>exists\<close> is \<open>None\<close>, which its evaluation does not look at.\<close>

fun evaluate :: "'o obj_ops \<Rightarrow> 'o \<Rightarrow> 'o magic \<Rightarrow> (pyexn, bool) result" where
  "evaluate ops ev (Field path) =
     bind_res (resolve ops ev path) (\<lambda>v. case v of None \<Rightarrow> Inr False | Some x \<Rightarrow> ob_bool ops x)"
| "evaluate ops ev (Comparison c path expected) =
     bind_res (resolve ops ev path)
       (\<lambda>v. case v of
          None \<Rightarrow> Inr False
        | Some x \<Rightarrow> false_on compare_error (ob_compare ops c x expected))"
| "evaluate ops ev (Method m path expected) =
     bind_res (resolve ops ev path)
       (\<lambda>v. if m = MExists then Inr (v \<noteq> None)
            else
              (case (v, expected) of
                 (Some x, Some y) \<Rightarrow>
                   if m = MIs then Inr (ob_same ops x y)
                   else if m = MRegexp then Inr (ob_is_str ops x \<and> ob_is_pattern ops y \<and> ob_match ops y x)
                   else false_on method_error (call_method ops m x y)
               | _ \<Rightarrow> Inr False))"
| "evaluate ops ev (AndE a b) = bind_res (evaluate ops ev a) (\<lambda>x. if x then evaluate ops ev b else Inr False)"
| "evaluate ops ev (OrE a b) = bind_res (evaluate ops ev a) (\<lambda>x. if x then Inr True else evaluate ops ev b)"
| "evaluate ops ev (NotE a) = bind_res (evaluate ops ev a) (\<lambda>x. Inr (\<not> x))"

text \<open>\<open>MagicExpression.__call__\<close>: the expression as a filter; \<open>emb\<close> is the event as an object.\<close>

definition magic_filter :: "'o obj_ops \<Rightarrow> (event \<Rightarrow> 'o) \<Rightarrow> 'o magic \<Rightarrow> ('w, 'v) event_filter" where
  "magic_filter ops emb m e c w = (w, map_sum id FBool (evaluate ops (emb e) m))"

section \<open>Construction\<close>

text \<open>\<open>F.name\<close>: dunder names are refused; \<open>F[key]\<close> is always a step.\<close>

definition field_attr :: "'o path_step list \<Rightarrow> string \<Rightarrow> (pyexn, 'o path_step list) result" where
  "field_attr path n =
     (if py_startswith n ''__'' then Inl (exn (Py AttributeErr)) else Inr (path @ [Attr n]))"

definition field_item :: "'o path_step list \<Rightarrow> 'o \<Rightarrow> 'o path_step list" where
  "field_item path k = path @ [Item k]"

text \<open>\<open>regexp(pattern, flags)\<close>: a compiled pattern takes no flags and must not be one of bytes; a
  string is compiled by \<open>compile_re\<close>, whose \<open>re.error\<close> (\<open>None\<close>) becomes a \<open>ValueError\<close>.\<close>

datatype 'o pattern_arg = Compiled 'o bool | Source string

definition magic_regexp ::
  "(string \<Rightarrow> int \<Rightarrow> 'o option) \<Rightarrow> 'o path_step list \<Rightarrow> 'o pattern_arg \<Rightarrow> int \<Rightarrow> (pyexn, 'o magic) result" where
  "magic_regexp compile_re path pat flags =
     (case pat of
        Compiled p is_bytes \<Rightarrow>
          if flags \<noteq> 0 then Inl (exn (Py ValueErr))
          else if is_bytes then Inl (exn (Py ValueErr))
          else Inr (Method MRegexp path (Some p))
      | Source s \<Rightarrow>
          (case compile_re s flags of
             None \<Rightarrow> Inl (exn (Py ValueErr))
           | Some p \<Rightarrow> Inr (Method MRegexp path (Some p))))"

section \<open>Laws\<close>

text \<open>The leaves of an expression and the paths they follow.\<close>

fun leaves :: "'o magic \<Rightarrow> 'o path_step list set" where
  "leaves (Field p) = {p}"
| "leaves (Comparison c p x) = {p}"
| "leaves (Method m p x) = {p}"
| "leaves (AndE a b) = leaves a \<union> leaves b"
| "leaves (OrE a b) = leaves a \<union> leaves b"
| "leaves (NotE a) = leaves a"

text \<open>The truth value of an expression when every leaf is false.\<close>

fun all_false :: "'o magic \<Rightarrow> bool" where
  "all_false (AndE a b) = (all_false a \<and> all_false b)"
| "all_false (OrE a b) = (all_false a \<or> all_false b)"
| "all_false (NotE a) = (\<not> all_false a)"
| "all_false m = False"

text \<open>On an event in which no path of an expression can be followed, its evaluation raises nothing
  and gives the value the expression has when every leaf is false: a comparison never matches a
  missing field, \<open>!=\<close> included, so \<open>F.x != v\<close> and \<open>~(F.x == v)\<close> differ there.\<close>

theorem missing_paths_are_false:
  assumes "\<forall>p \<in> leaves m. resolve ops ev p = Inr None"
  shows "evaluate ops ev m = Inr (all_false m)"
  using assms by (induction m) (auto split: option.split)

text \<open>Objects whose operations raise only the exceptions Python's built-in types raise.\<close>

definition plain_objects :: "'o obj_ops \<Rightarrow> bool" where
  "plain_objects ops \<longleftrightarrow>
     (\<forall>x n e. ob_attr ops x n = Inl e \<longrightarrow> path_error (exn_cls e)) \<and>
     (\<forall>x k e. ob_item ops x k = Inl e \<longrightarrow> path_error (exn_cls e)) \<and>
     (\<forall>x. \<exists>b. ob_bool ops x = Inr b) \<and>
     (\<forall>c x y e. ob_compare ops c x y = Inl e \<longrightarrow> compare_error (exn_cls e)) \<and>
     (\<forall>x y e. ob_contains ops x y = Inl e \<longrightarrow> method_error (exn_cls e)) \<and>
     (\<forall>x y e. ob_startswith ops x y = Inl e \<longrightarrow> method_error (exn_cls e)) \<and>
     (\<forall>x y e. ob_endswith ops x y = Inl e \<longrightarrow> method_error (exn_cls e))"

lemma resolve_total: "plain_objects ops \<Longrightarrow> \<exists>v. resolve ops x p = Inr v"
  by (induction p arbitrary: x) (auto simp: plain_objects_def split: path_step.split sum.split)

lemma false_on_total: "(\<And>e. r = Inl e \<Longrightarrow> caught (exn_cls e)) \<Longrightarrow> \<exists>b. false_on caught r = Inr b"
  by (cases r) (auto simp: false_on_def)

lemma method_total: "plain_objects ops \<Longrightarrow> \<exists>b. false_on method_error (call_method ops m x y) = Inr b"
  by (rule false_on_total) (auto simp: plain_objects_def call_method_def split: method_op.splits)

lemma compare_total: "plain_objects ops \<Longrightarrow> \<exists>b. false_on compare_error (ob_compare ops c x y) = Inr b"
  by (rule false_on_total) (auto simp: plain_objects_def)

text \<open>On objects whose operations raise only what Python's built-in types raise, no expression
  raises: a magic filter is a total boolean function of the event and changes neither the context
  nor anything outside.\<close>

theorem magic_total:
  assumes "plain_objects ops"
  shows "\<exists>b. \<forall>c w. magic_filter ops emb m e c w = (w, Inr (FBool b))"
proof -
  have "\<exists>b. evaluate ops ev m = Inr b" for ev
  proof (induction m)
    case (Field p)
    obtain v where "resolve ops ev p = Inr v" using resolve_total [OF assms] by blast
    then show ?case using assms by (auto simp: plain_objects_def split: option.split)
  next
    case (Comparison c p x)
    obtain v where "resolve ops ev p = Inr v" using resolve_total [OF assms] by blast
    then show ?case using compare_total [OF assms] by (auto split: option.split)
  next
    case (Method m p x)
    obtain v where "resolve ops ev p = Inr v" using resolve_total [OF assms] by blast
    then show ?case using method_total [OF assms] by (auto split: option.split)
  qed (auto split: if_split)
  then obtain b where "evaluate ops (emb e) m = Inr b" by blast
  then show ?thesis by (intro exI [of _ b]) (simp add: magic_filter_def)
qed

text \<open>Dictionaries, strings and other values as objects, for the concrete instances.\<close>

definition value_objects :: "pyval obj_ops" where
  "value_objects = \<lparr>
     ob_attr = (\<lambda>x n. Inl (exn (Py AttributeErr))),
     ob_item = (\<lambda>x k. case x of
         PDict d \<Rightarrow> (case dict_get d k of Some v \<Rightarrow> Inr v | None \<Rightarrow> Inl (exn (Py KeyErr)))
       | _ \<Rightarrow> Inl (exn (Py TypeErr))),
     ob_bool = (\<lambda>x. Inr (truthy x)),
     ob_compare = (\<lambda>c x y. case c of CEq \<Rightarrow> Inr (x = y) | CNe \<Rightarrow> Inr (x \<noteq> y) | _ \<Rightarrow> Inl (exn (Py TypeErr))),
     ob_contains = (\<lambda>x y. case (x, y) of (PStr s, PStr t) \<Rightarrow> Inr (py_contains s t) | _ \<Rightarrow> Inl (exn (Py TypeErr))),
     ob_startswith = (\<lambda>x y. case (x, y) of
         (PStr s, PStr t) \<Rightarrow> Inr (py_startswith s t) | (PStr s, _) \<Rightarrow> Inl (exn (Py TypeErr))
       | _ \<Rightarrow> Inl (exn (Py AttributeErr))),
     ob_endswith = (\<lambda>x y. case (x, y) of
         (PStr s, PStr t) \<Rightarrow> Inr (py_endswith s t) | (PStr s, _) \<Rightarrow> Inl (exn (Py TypeErr))
       | _ \<Rightarrow> Inl (exn (Py AttributeErr))),
     ob_same = (=), ob_is_str = (\<lambda>x. \<exists>s. x = PStr s), ob_is_pattern = (\<lambda>x. False), ob_match = (\<lambda>p x. False) \<rparr>"

lemma value_objects_plain: "plain_objects value_objects"
  by (auto simp: plain_objects_def value_objects_def path_error_def compare_error_def method_error_def
      issubclass_def eval_nat_numeral split: pyval.splits option.splits cmp_op.splits)

lemma missing_paths_witness:
  "evaluate value_objects (PDict []) (Comparison CNe [Attr ''name''] (PStr ''x'')) = Inr False \<and>
   evaluate value_objects (PDict []) (NotE (Comparison CEq [Attr ''name''] (PStr ''x''))) = Inr True"
  using missing_paths_are_false [of "Comparison CNe [Attr ''name''] (PStr ''x'')" value_objects "PDict []"]
    missing_paths_are_false [of "NotE (Comparison CEq [Attr ''name''] (PStr ''x''))" value_objects "PDict []"]
  by (simp add: value_objects_def path_error_def issubclass_def eval_nat_numeral)

lemma magic_total_witness:
  "\<exists>b. \<forall>c w. magic_filter value_objects raw
     (Comparison CLt [Item (PStr ''n'')] (PInt 3))
     (Event PlainEvent (PDict [(PStr ''n'', PStr ''x'')]) None None None None None None None) c w = (w, Inr (FBool b))"
  by (rule magic_total [OF value_objects_plain])

end
