(* ===== verification/Observers.thy ===== *)
theory Observers
  imports Dependency Magic
begin

text \<open>
  Observers and middleware (\<open>dispatcher/observer.py\<close>, \<open>dispatcher/middleware.py\<close>): the ordered
  registrations of one event category, and the chain of middleware around a handler. A middleware is
  application code: a function of the next handler. Contexts are passed by value, so a middleware that
  changes the dictionary is one that passes a changed dictionary on.
\<close>

section \<open>Registration\<close>

record ('w, 'v, 'r) observer =
  ob_name :: string
  ob_action_shortcut :: bool
  ob_cloud_shortcut :: bool
  ob_filters :: "('w, 'v) event_filter list"
  ob_handlers :: "('w, 'v, 'r) handler list"
  ob_shortcuts :: "string list"

definition new_observer :: "string \<Rightarrow> bool \<Rightarrow> bool \<Rightarrow> ('w, 'v, 'r) observer" where
  "new_observer n act cloud =
     \<lparr> ob_name = n, ob_action_shortcut = act, ob_cloud_shortcut = cloud, ob_filters = [],
       ob_handlers = [], ob_shortcuts = [] \<rparr>"

text \<open>What is passed as a filter: a string, something callable, or something else.\<close>

datatype ('w, 'v) filter_arg = StrFilter string | FnFilter "('w, 'v) event_filter" | BadFilter

text \<open>The expressions a string stands for compare the event's \<open>name\<close> or \<open>cloud_type\<close> with it.\<close>

definition shortcut_filter ::
  "'o obj_ops \<Rightarrow> (event \<Rightarrow> 'o) \<Rightarrow> (string \<Rightarrow> 'o) \<Rightarrow> string \<Rightarrow> string \<Rightarrow> ('w, 'v) event_filter" where
  "shortcut_filter ops emb str_obj attr s = magic_filter ops emb (Comparison CEq [Attr attr] (str_obj s))"

definition normalize_filter ::
  "(string \<Rightarrow> string \<Rightarrow> ('w, 'v) event_filter) \<Rightarrow> ('w, 'v) filter_arg \<Rightarrow> ('w, 'v, 'r) observer
   \<Rightarrow> ('w, 'v, 'r) observer \<times> (pyexn, ('w, 'v) event_filter) result" where
  "normalize_filter short a ob =
     (case a of
        StrFilter s \<Rightarrow>
          if ob_action_shortcut ob
          then (ob\<lparr> ob_shortcuts := ob_shortcuts ob @ [s] \<rparr>, Inr (short ''name'' s))
          else if ob_cloud_shortcut ob then (ob, Inr (short ''cloud_type'' s))
          else (ob, Inl (exn (Py TypeErr)))
      | FnFilter f \<Rightarrow> (ob, Inr f)
      | BadFilter \<Rightarrow> (ob, Inl (exn (Py TypeErr))))"

fun normalize_filters ::
  "(string \<Rightarrow> string \<Rightarrow> ('w, 'v) event_filter) \<Rightarrow> ('w, 'v) filter_arg list \<Rightarrow> ('w, 'v, 'r) observer
   \<Rightarrow> ('w, 'v, 'r) observer \<times> (pyexn, ('w, 'v) event_filter list) result" where
  "normalize_filters short [] ob = (ob, Inr [])"
| "normalize_filters short (a # as) ob =
     (case normalize_filter short a ob of
        (ob1, Inl e) \<Rightarrow> (ob1, Inl e)
      | (ob1, Inr f) \<Rightarrow>
         (case normalize_filters short as ob1 of
            (ob2, Inl e) \<Rightarrow> (ob2, Inl e)
          | (ob2, Inr fs) \<Rightarrow> (ob2, Inr (f # fs))))"

definition register_handler ::
  "(string \<Rightarrow> string \<Rightarrow> ('w, 'v) event_filter) \<Rightarrow> string \<Rightarrow> ('w, 'v, 'r) callback \<Rightarrow> bool \<Rightarrow> signature
   \<Rightarrow> ('w, 'v) filter_arg list \<Rightarrow> ('w, 'v, 'r) observer
   \<Rightarrow> ('w, 'v, 'r) observer \<times> (pyexn, unit) result" where
  "register_handler short n cb hashable sg as ob =
     (case normalize_filters short as ob of
        (ob1, Inl e) \<Rightarrow> (ob1, Inl e)
      | (ob1, Inr fs) \<Rightarrow>
         (case make_handler n cb hashable sg fs of
            Inl e \<Rightarrow> (ob1, Inl e)
          | Inr h \<Rightarrow> (ob1\<lparr> ob_handlers := ob_handlers ob1 @ [h] \<rparr>, Inr ())))"

text \<open>\<open>filter\<close> extends the list from a generator: what came before a bad argument stays added.\<close>

fun add_filters ::
  "(string \<Rightarrow> string \<Rightarrow> ('w, 'v) event_filter) \<Rightarrow> ('w, 'v) filter_arg list \<Rightarrow> ('w, 'v, 'r) observer
   \<Rightarrow> ('w, 'v, 'r) observer \<times> (pyexn, unit) result" where
  "add_filters short [] ob = (ob, Inr ())"
| "add_filters short (a # as) ob =
     (case normalize_filter short a ob of
        (ob1, Inl e) \<Rightarrow> (ob1, Inl e)
      | (ob1, Inr f) \<Rightarrow> add_filters short as (ob1\<lparr> ob_filters := ob_filters ob1 @ [f] \<rparr>))"

text \<open>Registration appends at the end or changes no handler.\<close>

lemma normalize_filter_handlers: "ob_handlers (fst (normalize_filter short a ob)) = ob_handlers ob"
  by (simp add: normalize_filter_def split: filter_arg.split)

lemma normalize_filters_handlers: "ob_handlers (fst (normalize_filters short as ob)) = ob_handlers ob"
proof (induction short as ob rule: normalize_filters.induct)
  case (2 short a as ob)
  then show ?case using normalize_filter_handlers [of short a ob]
    by (auto split: prod.splits sum.splits)
qed simp

lemma register_appends:
  "register_handler short n cb hs sg as ob = (ob', Inr ()) \<Longrightarrow>
   \<exists>fs pl. build_handler_plan sg = Inr pl \<and>
     ob_handlers ob' = ob_handlers ob @ [\<lparr> h_name = n, h_callback = cb, h_filters = fs, h_plan = pl \<rparr>]"
  using normalize_filters_handlers [of short as ob]
  by (auto simp: register_handler_def make_handler_def bind_res_Inr_iff split: prod.splits sum.splits if_splits)

section \<open>Middleware\<close>

type_synonym ('w, 'v, 'r) next_handler = "event \<Rightarrow> 'v ctx \<Rightarrow> 'w \<Rightarrow> 'w \<times> (pyexn, 'r) result"

type_synonym ('w, 'v, 'r) middleware = "('w, 'v, 'r) next_handler \<Rightarrow> ('w, 'v, 'r) next_handler"

text \<open>\<open>MiddlewareManager.register\<close>; \<open>None\<close> stands for an argument that is not callable.\<close>

definition register_middleware :: "'m option \<Rightarrow> 'm list \<Rightarrow> (pyexn, 'm list) result" where
  "register_middleware m ms = (case m of None \<Rightarrow> Inl (exn (Py TypeErr)) | Some m \<Rightarrow> Inr (ms @ [m]))"

definition invoke_with_middleware ::
  "('w, 'v, 'r) next_handler \<Rightarrow> ('w, 'v, 'r) middleware list \<Rightarrow> ('w, 'v, 'r) next_handler" where
  "invoke_with_middleware h ms e d w = (foldl (\<lambda>current item. item current) h (rev ms)) e d w"

lemma invoke_with_Nil [simp]: "invoke_with_middleware h [] = h"
  by (simp add: invoke_with_middleware_def fun_eq_iff)

lemma invoke_with_Cons [simp]: "invoke_with_middleware h (m # ms) = m (invoke_with_middleware h ms)"
proof -
  have "invoke_with_middleware h ms = foldl (\<lambda>current item. item current) h (rev ms)" for ms
    by (simp add: invoke_with_middleware_def fun_eq_iff)
  then show ?thesis by simp
qed

lemma invoke_with_append:
  "invoke_with_middleware h (ms @ ns) = invoke_with_middleware (invoke_with_middleware h ns) ms"
  by (induction ms) simp_all

text \<open>A middleware that notes when it is entered and left, and one that answers itself.\<close>

definition tracing :: "'a \<Rightarrow> ('a list, 'v, 'r) middleware" where
  "tracing n nxt e d w = (case nxt e d (w @ [n]) of (w1, r) \<Rightarrow> (w1 @ [n], r))"

definition answering :: "'r \<Rightarrow> ('w, 'v, 'r) middleware" where
  "answering r nxt e d w = (w, Inr r)"

lemma onion_trace:
  "invoke_with_middleware h (map tracing ns) e d w = (case h e d (w @ ns) of (w1, r) \<Rightarrow> (w1 @ rev ns, r))"
  by (induction ns arbitrary: w) (simp_all add: tracing_def split: prod.split)

lemma onion_answer:
  "invoke_with_middleware h (ms @ answering r # ms') e d = invoke_with_middleware (\<lambda>e d w. (w, Inr r)) ms e d"
proof -
  have "answering r (invoke_with_middleware h ms') = (\<lambda>e d w. (w, Inr r))"
    by (simp add: answering_def fun_eq_iff)
  then show ?thesis by (simp add: invoke_with_append)
qed

text \<open>Middleware wraps the handler like the layers of an onion: the first registered is entered
  first and left last, around everything the others and the handler do, whatever they return or raise;
  and one that does not call on hides everything registered after it and the handler.\<close>

theorem middleware_onion:
  "(\<forall>h e d w. invoke_with_middleware h (map tracing ns) e d w =
      (case h e d (w @ ns) of (w1, r) \<Rightarrow> (w1 @ rev ns, r))) \<and>
   (\<forall>h e d. invoke_with_middleware h (ms @ answering r # ms') e d =
      invoke_with_middleware (\<lambda>e d w. (w, Inr r)) ms e d)"
  by (simp add: onion_trace onion_answer)

end
