(* ===== verification/Routers.thy ===== *)
theory Routers
  imports Prelude Exceptions
begin

text \<open>
  The router tree (\<open>dispatcher/router.py\<close>). Routers are objects that know their parent and their
  children, so the tree is a heap: a map from identities to routers. What a router holds besides
  its place in the tree (observers, name) is the type parameter \<open>'b\<close>, a middleware is \<open>'m\<close>. The two
  traversals recurse over the children; they take a bound, and under the invariant of the tree the
  number of routers is enough.
\<close>

section \<open>Routers\<close>

type_synonym rid = nat

record ('m, 'b) router =
  r_content :: 'b
  r_middleware :: "'m list"
  r_parent :: "rid option"
  r_children :: "rid list"
  r_is_dispatcher :: bool

type_synonym ('m, 'b) heap = "rid \<Rightarrow> ('m, 'b) router option"

definition children_of :: "('m, 'b) heap \<Rightarrow> rid \<Rightarrow> rid list" where
  "children_of h r = (case h r of Some x \<Rightarrow> r_children x | None \<Rightarrow> [])"

definition parent_of :: "('m, 'b) heap \<Rightarrow> rid \<Rightarrow> rid option" where
  "parent_of h r = (case h r of Some x \<Rightarrow> r_parent x | None \<Rightarrow> None)"

definition middleware_of :: "('m, 'b) heap \<Rightarrow> rid \<Rightarrow> 'm list" where
  "middleware_of h r = (case h r of Some x \<Rightarrow> r_middleware x | None \<Rightarrow> [])"

definition new_router :: "'b \<Rightarrow> bool \<Rightarrow> ('m, 'b) router" where
  "new_router c is_dispatcher =
     \<lparr> r_content = c, r_middleware = [], r_parent = None, r_children = [], r_is_dispatcher = is_dispatcher \<rparr>"

fun contains :: "('m, 'b) heap \<Rightarrow> nat \<Rightarrow> rid \<Rightarrow> rid \<Rightarrow> bool" where
  "contains h 0 r c = (r = c)"
| "contains h (Suc n) r c = (r = c \<or> list_ex (\<lambda>x. contains h n x c) (children_of h r))"

fun walk :: "('m, 'b) heap \<Rightarrow> nat \<Rightarrow> rid \<Rightarrow> 'm list \<Rightarrow> (rid \<times> 'm list) list" where
  "walk h 0 r inherited = [(r, inherited @ middleware_of h r)]"
| "walk h (Suc n) r inherited =
     (r, inherited @ middleware_of h r) #
     concat (map (\<lambda>c. walk h n c (inherited @ middleware_of h r)) (children_of h r))"

text \<open>\<open>include_router\<close>, with the number of routers as the bound of the traversal. An argument that
  is no router is an identity without an object.\<close>

definition include_router :: "nat \<Rightarrow> rid \<Rightarrow> rid \<Rightarrow> ('m, 'b) heap \<Rightarrow> (pyexn, ('m, 'b) heap) result" where
  "include_router n self r h =
     (case (h self, h r) of
        (Some s, Some x) \<Rightarrow>
          if r = self then Inl (exn (Fw RouterConfigurationError))
          else if r_is_dispatcher x then Inl (exn (Fw RouterConfigurationError))
          else if r_parent x \<noteq> None then Inl (exn (Fw RouterConfigurationError))
          else if contains h n r self then Inl (exn (Fw RouterConfigurationError))
          else Inr (h(r := Some (x\<lparr> r_parent := Some self \<rparr>),
                      self := Some (s\<lparr> r_children := r_children s @ [r] \<rparr>)))
      | _ \<Rightarrow> Inl (exn (Py TypeErr)))"

section \<open>The invariant of the tree\<close>

definition child_rel :: "('m, 'b) heap \<Rightarrow> (rid \<times> rid) set" where
  "child_rel h = {(p, c). c \<in> set (children_of h p)}"

text \<open>Parent and child pointers agree, no child is listed twice, and nothing is its own descendant.\<close>

definition forest :: "('m, 'b) heap \<Rightarrow> bool" where
  "forest h \<longleftrightarrow>
     finite (dom h) \<and>
     (\<forall>p c. (p, c) \<in> child_rel h \<longleftrightarrow> parent_of h c = Some p) \<and>
     (\<forall>p. distinct (children_of h p)) \<and>
     acyclic (child_rel h)"

definition below :: "('m, 'b) heap \<Rightarrow> rid \<Rightarrow> rid set" where
  "below h r = {x. (r, x) \<in> (child_rel h)\<^sup>+}"

lemma child_dom: "forest h \<Longrightarrow> (p, c) \<in> child_rel h \<Longrightarrow> p \<in> dom h \<and> c \<in> dom h"
proof
  assume f: "forest h" and pc: "(p, c) \<in> child_rel h"
  then have "parent_of h c = Some p" by (simp add: forest_def)
  then show "c \<in> dom h" by (auto simp: parent_of_def split: option.splits)
  show "p \<in> dom h" using pc by (cases "h p") (auto simp: child_rel_def children_of_def)
qed

lemma below_sub_dom: "forest h \<Longrightarrow> below h r \<subseteq> dom h"
proof
  fix x assume f: "forest h" and "x \<in> below h r"
  then have "(r, x) \<in> (child_rel h)\<^sup>+" by (simp add: below_def)
  then show "x \<in> dom h" by (cases rule: trancl.cases) (auto dest: child_dom [OF f])
qed

lemma below_finite: "forest h \<Longrightarrow> finite (below h r)"
  using below_sub_dom [of h r] by (auto simp: forest_def intro: finite_subset)

lemma below_child:
  assumes "forest h" and "(r, c) \<in> child_rel h"
  shows "card (below h c) < card (below h r)"
proof (rule psubset_card_mono [OF below_finite [OF assms(1)]])
  have "c \<notin> below h c" using assms(1) by (simp add: forest_def acyclic_def below_def)
  moreover have "c \<in> below h r" using assms(2) by (auto simp: below_def)
  moreover have "below h c \<subseteq> below h r" using assms(2) by (auto simp: below_def)
  ultimately show "below h c \<subset> below h r" by blast
qed

lemma below_dom: "forest h \<Longrightarrow> r \<in> dom h \<Longrightarrow> card (below h r) < card (dom h)"
proof -
  assume f: "forest h" and r: "r \<in> dom h"
  have "r \<notin> below h r" using f by (simp add: forest_def acyclic_def below_def)
  moreover have "below h r \<subseteq> dom h" using f by (rule below_sub_dom)
  ultimately have "below h r \<subset> dom h" using r by blast
  then show ?thesis using f by (auto simp: forest_def intro: psubset_card_mono)
qed

lemma descend: "(r, x) \<in> (child_rel h)\<^sup>* \<longleftrightarrow> r = x \<or> (\<exists>c \<in> set (children_of h r). (c, x) \<in> (child_rel h)\<^sup>*)"
proof
  assume "(r, x) \<in> (child_rel h)\<^sup>*"
  then show "r = x \<or> (\<exists>c \<in> set (children_of h r). (c, x) \<in> (child_rel h)\<^sup>*)"
    by (cases rule: converse_rtranclE) (auto simp: child_rel_def)
next
  assume "r = x \<or> (\<exists>c \<in> set (children_of h r). (c, x) \<in> (child_rel h)\<^sup>*)"
  then show "(r, x) \<in> (child_rel h)\<^sup>*"
    by (auto simp: child_rel_def intro: converse_rtrancl_into_rtrancl)
qed

lemma contains_reach:
  "forest h \<Longrightarrow> card (below h r) \<le> n \<Longrightarrow> contains h n r c \<longleftrightarrow> (r, c) \<in> (child_rel h)\<^sup>*"
proof (induction n arbitrary: r)
  case 0
  then have "below h r = {}" using below_finite by (metis card_0_eq le_zero_eq)
  then show ?case by (auto simp: below_def rtrancl_eq_or_trancl)
next
  case (Suc n)
  have "card (below h x) \<le> n" if "x \<in> set (children_of h r)" for x
    using below_child [OF Suc.prems(1), of r x] Suc.prems(2) that by (simp add: child_rel_def)
  then show ?case using Suc descend [of r c h] by (auto simp: list_ex_iff)
qed

text \<open>\<open>_contains\<close> decides reachability: with a bound of at least the number of routers the recursion
  answers whether the candidate is the router itself or a descendant of it.\<close>

theorem contains_correct:
  assumes "forest h" and "r \<in> dom h" and "card (dom h) \<le> n"
  shows "contains h n r c \<longleftrightarrow> (r, c) \<in> (child_rel h)\<^sup>*"
  using contains_reach [OF assms(1)] below_dom [OF assms(1,2)] assms(3) by simp

text \<open>Including a router adds one edge, from the new parent to it.\<close>

lemma include_heap:
  assumes "include_router n self r h = Inr h'" and "forest h"
  shows "children_of h' = (children_of h)(self := children_of h self @ [r])"
    and "parent_of h' = (parent_of h)(r := Some self)"
    and "dom h' = dom h" and "self \<noteq> r" and "parent_of h r = None" and "\<not> contains h n r self"
    and "r \<in> dom h" and "child_rel h' = insert (self, r) (child_rel h)"
proof -
  obtain s x where h: "h self = Some s" "h r = Some x" and ne: "r \<noteq> self"
    and x: "r_parent x = None" "\<not> contains h n r self"
    and h': "h' = h(r := Some (x\<lparr> r_parent := Some self \<rparr>), self := Some (s\<lparr> r_children := r_children s @ [r] \<rparr>))"
    using assms(1) by (auto simp: include_router_def split: option.splits if_splits)
  show ch: "children_of h' = (children_of h)(self := children_of h self @ [r])"
    using h ne by (auto simp: h' children_of_def fun_eq_iff)
  show "parent_of h' = (parent_of h)(r := Some self)"
    using h ne by (auto simp: h' parent_of_def fun_eq_iff)
  show "dom h' = dom h" "r \<in> dom h" using h by (auto simp: h')
  show "self \<noteq> r" "parent_of h r = None" "\<not> contains h n r self"
    using ne h x by (simp_all add: parent_of_def)
  show "child_rel h' = insert (self, r) (child_rel h)"
    using ch by (auto simp: child_rel_def split: if_splits)
qed

lemma include_forest:
  assumes f: "forest h" and n: "card (dom h) \<le> n" and inc: "include_router n self r h = Inr h'"
  shows "forest h'"
proof -
  note ih = include_heap [OF inc f]
  have none: "(p, r) \<notin> child_rel h" for p using f ih(5) by (simp add: forest_def)
  have "(r, self) \<notin> (child_rel h)\<^sup>*"
    using ih(6) contains_reach [OF f] below_dom [OF f ih(7)] n by simp
  then have "acyclic (child_rel h')" using f by (simp add: ih(8) forest_def acyclic_insert)
  moreover have "distinct (children_of h' p)" for p
    using f none [of self] by (simp add: ih(1) forest_def child_rel_def)
  moreover have "(p, c) \<in> child_rel h' \<longleftrightarrow> parent_of h' c = Some p" for p c
    using f none ih(5) by (auto simp: ih(2,8) forest_def)
  ultimately show ?thesis using f by (simp add: forest_def ih(3))
qed

text \<open>C19. \<open>include_router\<close> keeps the tree a forest, and it refuses nothing else: on a forest it succeeds
  exactly when both are routers, the child is no dispatcher, has no parent and does not have the new
  parent at or below itself.\<close>

theorem include_router_forest:
  assumes "forest h" and "self \<in> dom h" and "r \<in> dom h" and "card (dom h) \<le> n"
  shows "case include_router n self r h of
      Inr h' \<Rightarrow> forest h' \<and> dom h' = dom h \<and> children_of h' self = children_of h self @ [r]
    | Inl e \<Rightarrow> e = exn (Fw RouterConfigurationError) \<and>
        (r_is_dispatcher (the (h r)) \<or> parent_of h r \<noteq> None \<or> (r, self) \<in> (child_rel h)\<^sup>*)"
proof (cases "include_router n self r h")
  case (Inr h')
  then show ?thesis
    using include_forest [OF assms(1,4) Inr] include_heap [OF Inr assms(1)] by simp
next
  case (Inl e)
  have "contains h n r self \<longleftrightarrow> (r, self) \<in> (child_rel h)\<^sup>*"
    using contains_reach [OF assms(1)] below_dom [OF assms(1,3)] assms(4) by simp
  then show ?thesis using Inl assms(2,3)
    by (auto simp: include_router_def parent_of_def split: if_splits)
qed

section \<open>The walk\<close>

lemma walk_reach:
  "forest h \<Longrightarrow> card (below h r) \<le> n \<Longrightarrow> fst ` set (walk h n r inh) = {x. (r, x) \<in> (child_rel h)\<^sup>*}"
proof (induction n arbitrary: r inh)
  case 0
  then have "below h r = {}" using below_finite by (metis card_0_eq le_zero_eq)
  then show ?case by (auto simp: below_def rtrancl_eq_or_trancl)
next
  case (Suc n)
  have "card (below h x) \<le> n" if "x \<in> set (children_of h r)" for x
    using below_child [OF Suc.prems(1), of r x] Suc.prems(2) that by (simp add: child_rel_def)
  then have "fst ` set (walk h n c i) = {x. (c, x) \<in> (child_rel h)\<^sup>*}" if "c \<in> set (children_of h r)" for c i
    using Suc.IH [OF Suc.prems(1)] that by blast
  then show ?case using descend [of r _ h] by (auto simp: image_Un image_UN)
qed

lemma parent_unique: "forest h \<Longrightarrow> single_valued ((child_rel h)\<inverse>)"
  by (auto simp: single_valued_def forest_def)

text \<open>The subtrees of two children of one router share nothing.\<close>

lemma subtrees_disjoint:
  assumes f: "forest h" and c: "(r, c) \<in> child_rel h" "(r, d) \<in> child_rel h" "c \<noteq> d"
    and x: "(c, x) \<in> (child_rel h)\<^sup>*" "(d, x) \<in> (child_rel h)\<^sup>*"
  shows False
proof -
  have up: "(a, b) \<in> (child_rel h)\<^sup>* \<Longrightarrow> (b, a) \<in> ((child_rel h)\<inverse>)\<^sup>*" for a b
    by (simp add: rtrancl_converse)
  have "(c, d) \<in> ((child_rel h)\<inverse>)\<^sup>* \<or> (d, c) \<in> ((child_rel h)\<inverse>)\<^sup>*"
    by (rule single_valued_confluent [OF parent_unique [OF f] up [OF x(1)] up [OF x(2)]])
  then have "(d, c) \<in> (child_rel h)\<^sup>* \<or> (c, d) \<in> (child_rel h)\<^sup>*"
    by (simp add: rtrancl_converse)
  moreover have "False" if "(a, b) \<in> (child_rel h)\<^sup>*" "a \<noteq> b" "(r, a) \<in> child_rel h" "(r, b) \<in> child_rel h" for a b
  proof -
    from that(1,2) obtain p where p: "(a, p) \<in> (child_rel h)\<^sup>*" "(p, b) \<in> child_rel h"
      by (metis rtranclE)
    then have "p = r" using f that(4) by (auto simp: forest_def)
    with p(1) that(3) have "(r, r) \<in> (child_rel h)\<^sup>+" by auto
    then show False using f by (simp add: forest_def acyclic_def)
  qed
  ultimately show False using c by blast
qed

lemma walk_distinct:
  "forest h \<Longrightarrow> card (below h r) \<le> n \<Longrightarrow> distinct (map fst (walk h n r inh))"
proof (induction n arbitrary: r inh)
  case 0
  then show ?case by simp
next
  case (Suc n)
  let ?w = "\<lambda>c. map fst (walk h n c (inh @ middleware_of h r))"
  have le: "card (below h x) \<le> n" if "x \<in> set (children_of h r)" for x
    using below_child [OF Suc.prems(1), of r x] Suc.prems(2) that by (simp add: child_rel_def)
  have set: "set (?w c) = {x. (c, x) \<in> (child_rel h)\<^sup>*}" if "c \<in> set (children_of h r)" for c
    using walk_reach [OF Suc.prems(1) le [OF that]] by simp
  have "distinct (concat (map ?w cs))" if "set cs \<subseteq> set (children_of h r)" "distinct cs" for cs
    using that
  proof (induction cs)
    case Nil
    then show ?case by simp
  next
    case (Cons c cs)
    then have "distinct (?w c)" using Suc.IH [OF Suc.prems(1) le] by simp
    moreover have "set (?w c) \<inter> set (?w d) = {}" if "d \<in> set cs" for d
      using that Cons.prems set subtrees_disjoint [OF Suc.prems(1), of r c d] by (auto simp: child_rel_def)
    ultimately show ?case using Cons by auto
  qed
  then have "distinct (concat (map ?w (children_of h r)))" using Suc.prems(1) by (simp add: forest_def)
  moreover have "r \<notin> set (?w c)" if "c \<in> set (children_of h r)" for c
  proof
    assume "r \<in> set (?w c)"
    then have "(r, r) \<in> (child_rel h)\<^sup>+" using set [OF that] that
      by (auto simp: child_rel_def intro: rtrancl_into_trancl2)
    then show False using Suc.prems(1) by (simp add: forest_def acyclic_def)
  qed
  ultimately show ?case by (simp add: map_concat comp_def)
qed

lemma walk_middleware:
  "forest h \<Longrightarrow> (x, ms) \<in> set (walk h n r inh) \<Longrightarrow>
   x = r \<and> ms = inh @ middleware_of h r \<or>
   (\<exists>p ps. parent_of h x = Some p \<and> (p, ps) \<in> set (walk h n r inh) \<and> ms = ps @ middleware_of h x)"
proof (induction n arbitrary: r inh)
  case 0
  then show ?case by simp
next
  case (Suc n)
  consider "x = r" "ms = inh @ middleware_of h r"
    | c where "c \<in> set (children_of h r)" "(x, ms) \<in> set (walk h n c (inh @ middleware_of h r))"
    using Suc.prems(2) by auto
  then show ?case
  proof cases
    case 1
    then show ?thesis by simp
  next
    case (2 c)
    have "parent_of h c = Some r" using 2(1) Suc.prems(1) by (simp add: forest_def child_rel_def)
    then show ?thesis using Suc.IH [OF Suc.prems(1) 2(2)] 2(1) by fastforce
  qed
qed

lemma walk_hd: "hd (walk h n r inh) = (r, inh @ middleware_of h r)"
  by (cases n) simp_all

text \<open>The walk of a router visits it first, then every descendant, each exactly once, and pairs each
  with the middleware of all routers on the way from the start down to it, outermost first.\<close>

theorem walk_complete:
  assumes "forest h" and "r \<in> dom h" and "card (dom h) \<le> n"
  shows "distinct (map fst (walk h n r [])) \<and>
    fst ` set (walk h n r []) = {x. (r, x) \<in> (child_rel h)\<^sup>*} \<and>
    hd (walk h n r []) = (r, middleware_of h r) \<and>
    (\<forall>(x, ms) \<in> set (walk h n r []).
       x = r \<and> ms = middleware_of h r \<or>
       (\<exists>p ps. parent_of h x = Some p \<and> (p, ps) \<in> set (walk h n r []) \<and> ms = ps @ middleware_of h x))"
proof -
  have le: "card (below h r) \<le> n" using below_dom [OF assms(1,2)] assms(3) by simp
  have "x = r \<and> ms = middleware_of h r \<or>
       (\<exists>p ps. parent_of h x = Some p \<and> (p, ps) \<in> set (walk h n r []) \<and> ms = ps @ middleware_of h x)"
    if "(x, ms) \<in> set (walk h n r [])" for x ms
    using walk_middleware [OF assms(1) that] by simp
  then have "\<forall>(x, ms) \<in> set (walk h n r []).
       x = r \<and> ms = middleware_of h r \<or>
       (\<exists>p ps. parent_of h x = Some p \<and> (p, ps) \<in> set (walk h n r []) \<and> ms = ps @ middleware_of h x)"
    by (intro ballI) (simp only: split_paired_all prod.case)
  then show ?thesis
    using walk_distinct [OF assms(1) le] walk_reach [OF assms(1) le] walk_hd [of h n r "[]"] by simp
qed

section \<open>A tree\<close>

definition three_routers :: "(nat, string) heap" where
  "three_routers =
     [0 \<mapsto> (new_router ''dispatcher'' True)\<lparr> r_middleware := [10] \<rparr>,
      1 \<mapsto> (new_router ''forms'' False)\<lparr> r_middleware := [11] \<rparr>,
      2 \<mapsto> new_router ''admin'' False]"

definition sample_tree :: "(nat, string) heap" where
  "sample_tree = (case include_router 3 0 1 three_routers of Inr h \<Rightarrow> h | Inl e \<Rightarrow> three_routers)"

lemma three_routers_forest: "forest three_routers" and dom_three [simp]: "dom three_routers = {0, 1, 2}"
proof -
  have "child_rel three_routers = {}"
    by (auto simp: child_rel_def children_of_def three_routers_def new_router_def split: if_splits)
  moreover have "parent_of three_routers c = None" for c
    by (simp add: parent_of_def three_routers_def new_router_def)
  moreover have "children_of three_routers p = []" for p
    by (simp add: children_of_def three_routers_def new_router_def)
  moreover show "dom three_routers = {0, 1, 2}" by (auto simp: three_routers_def)
  ultimately show "forest three_routers" by (simp add: forest_def acyclic_def)
qed

lemma sample_include: "include_router 3 0 1 three_routers = Inr sample_tree"
  by (simp add: sample_tree_def include_router_def three_routers_def new_router_def children_of_def eval_nat_numeral)

lemma sample_tree_forest: "forest sample_tree" and dom_sample [simp]: "dom sample_tree = {0, 1, 2}"
  using include_forest [OF three_routers_forest _ sample_include] include_heap(3) [OF sample_include three_routers_forest]
  by simp_all

lemma contains_correct_witness: "(0, 1) \<in> (child_rel sample_tree)\<^sup>* \<and> (0, 2) \<notin> (child_rel sample_tree)\<^sup>*"
  using contains_correct [OF sample_tree_forest, of 0 3 1] contains_correct [OF sample_tree_forest, of 0 3 2]
  by (simp add: sample_tree_def include_router_def three_routers_def new_router_def children_of_def eval_nat_numeral)

lemma include_router_forest_witness:
  "\<exists>h'. include_router 3 1 2 sample_tree = Inr h' \<and> forest h' \<and> children_of h' 1 = [2]"
  using include_router_forest [OF sample_tree_forest, of 1 2 3]
  by (simp add: sample_tree_def include_router_def three_routers_def new_router_def children_of_def eval_nat_numeral)

lemma walk_complete_witness: "map fst (walk sample_tree 3 0 []) = [0, 1] \<and> distinct (map fst (walk sample_tree 3 0 []))"
  using walk_complete [OF sample_tree_forest, of 0 3]
  by (simp add: sample_tree_def include_router_def three_routers_def new_router_def children_of_def eval_nat_numeral)

end
