(* ===== verification/Dispatcher.thy ===== *)
theory Dispatcher
  imports Observers Routers
begin

text \<open>
  The dispatcher (\<open>dispatcher/dispatcher.py\<close>): one routing pass over the routers, the order of the
  passes for an event, and \<open>feed_update\<close> with its context, its hooks and its error routing. The state
  is the bot of the current context and whatever application code works on. Logging and the timing of
  handlers have no effect on routing and are left out; the walk of the tree is taken once per pass.
\<close>

section \<open>State, hooks, failure tags\<close>

record 'u world =
  current_bot :: "ctx_val option"
  outside :: 'u

type_synonym 'u hook = "'u world \<Rightarrow> 'u world \<times> pyexn option"

text \<open>The hooks object may have any of the methods.\<close>

record ('u, 'r) hooks =
  hk_before_event :: "(event \<Rightarrow> ctx_val ctx \<Rightarrow> 'u hook) option"
  hk_after_event :: "(event \<Rightarrow> ctx_val ctx \<Rightarrow> 'r option \<Rightarrow> pyexn option \<Rightarrow> 'u hook) option"
  hk_before_handler :: "(event \<Rightarrow> ctx_val ctx \<Rightarrow> string \<Rightarrow> 'u hook) option"
  hk_after_handler :: "(event \<Rightarrow> ctx_val ctx \<Rightarrow> string \<Rightarrow> 'r \<Rightarrow> 'u hook) option"

text \<open>\<open>_maybe_hook\<close>: an absent hook does nothing, an \<open>Exception\<close> is swallowed, others escape.\<close>

definition maybe_hook :: "'u hook option \<Rightarrow> 'u hook" where
  "maybe_hook m w =
     (case m of
        None \<Rightarrow> (w, None)
      | Some f \<Rightarrow>
         (case f w of
            (w1, None) \<Rightarrow> (w1, None)
          | (w1, Some x) \<Rightarrow> (w1, if is_exception (exn_cls x) then None else Some x)))"

text \<open>\<open>_attach_failure_context\<close> and \<open>_failure_stage\<close>.\<close>

definition attach :: "string \<Rightarrow> string option \<Rightarrow> pyexn \<Rightarrow> pyexn" where
  "attach stage h x =
     x\<lparr> exn_stage := Some stage, exn_handler := (case h of None \<Rightarrow> exn_handler x | Some n \<Rightarrow> Some n) \<rparr>"

definition failure_stage :: "pyexn \<Rightarrow> string" where
  "failure_stage x = (case exn_stage x of Some s \<Rightarrow> s | None \<Rightarrow> ''unknown'')"

lemma attach_sel [simp]:
  "exn_cls (attach s h x) = exn_cls x" "exn_stage (attach s h x) = Some s"
  by (simp_all add: attach_def)

datatype 'r outcome = Handled 'r | Stopped | NotHandled

type_synonym ('u, 'r) handler' = "('u world, ctx_val, 'r) handler"

section \<open>One routing pass\<close>

text \<open>\<open>_invoke\<close>: the handler's own failures are tagged inside the middleware.\<close>

definition resolved_handler :: "('u, 'r) handler' \<Rightarrow> ('u world, ctx_val, 'r) next_handler" where
  "resolved_handler h e d w =
     (case invoke_plan h e d w of
        (w1, Inr r) \<Rightarrow> (w1, Inr r)
      | (w1, Inl x) \<Rightarrow>
          (w1, Inl (if issubclass (exn_cls x) (Fw DependencyResolutionError)
                    then attach ''dependency_resolution'' (Some (h_name h)) x
                    else if is_exception (exn_cls x) then attach ''handler'' (Some (h_name h)) x
                    else x)))"

text \<open>What a candidate decides: the pass goes on to the next one, or ends.\<close>

datatype 'r verdict = GoOn | Decide "(pyexn, 'r outcome) result"

text \<open>The \<open>except\<close> clauses around one candidate.\<close>

definition catch_candidate :: "string \<Rightarrow> pyexn \<Rightarrow> 'r verdict" where
  "catch_candidate n x =
     (if exn_cls x = Fw SkipHandler then GoOn
      else if exn_cls x = Fw StopPropagation then Decide (Inr Stopped)
      else if is_exception (exn_cls x) then
        Decide (Inl (if failure_stage x = ''unknown'' then attach ''middleware'' (Some n) x else x))
      else Decide (Inl x))"

definition tag_filter :: "string option \<Rightarrow> pyexn \<Rightarrow> pyexn" where
  "tag_filter n x = (if is_exception (exn_cls x) then attach ''filter'' n x else x)"

definition try_handler ::
  "('u, 'r) hooks option \<Rightarrow> ('u world, ctx_val, 'r) middleware list \<Rightarrow> event \<Rightarrow> ctx_val ctx
   \<Rightarrow> ('u, 'r) handler' \<Rightarrow> 'u world \<Rightarrow> 'u world \<times> 'r verdict" where
  "try_handler hk ms e d h w =
     (case evaluate_filters (h_filters h) e d w of
        (w1, d1, Inl x) \<Rightarrow> (w1, catch_candidate (h_name h) (tag_filter (Some (h_name h)) x))
      | (w1, d1, Inr False) \<Rightarrow> (w1, GoOn)
      | (w1, d1, Inr True) \<Rightarrow>
         (case maybe_hook (map_option (\<lambda>f. f e d1 (h_name h)) (Option.bind hk hk_before_handler)) w1 of
            (w2, Some x) \<Rightarrow> (w2, catch_candidate (h_name h) x)
          | (w2, None) \<Rightarrow>
             (case invoke_with_middleware (resolved_handler h) ms e d1 w2 of
                (w3, Inl x) \<Rightarrow> (w3, catch_candidate (h_name h) x)
              | (w3, Inr r) \<Rightarrow>
                 (case maybe_hook (map_option (\<lambda>f. f e d1 (h_name h) r) (Option.bind hk hk_after_handler)) w3 of
                    (w4, Some x) \<Rightarrow> (w4, Decide (Inl x))
                  | (w4, None) \<Rightarrow> (w4, Decide (Inr (Handled r)))))))"

text \<open>A loop over candidates, each with its verdict.\<close>

fun first_verdict :: "('a \<Rightarrow> 's \<Rightarrow> 's \<times> 'r verdict) \<Rightarrow> 'a list \<Rightarrow> 's \<Rightarrow> 's \<times> 'r verdict" where
  "first_verdict f [] w = (w, GoOn)"
| "first_verdict f (x # xs) w =
     (case f x w of
        (w1, GoOn) \<Rightarrow> first_verdict f xs w1
      | (w1, Decide y) \<Rightarrow> (w1, Decide y))"

definition try_handlers ::
  "('u, 'r) hooks option \<Rightarrow> ('u world, ctx_val, 'r) middleware list \<Rightarrow> event \<Rightarrow> ctx_val ctx
   \<Rightarrow> ('u, 'r) handler' list \<Rightarrow> 'u world \<Rightarrow> 'u world \<times> 'r verdict" where
  "try_handlers hk ms e d hs w = first_verdict (try_handler hk ms e d) hs w"

text \<open>One router: its observer's own filters, then its handlers, with the context they left.\<close>

definition try_router ::
  "('u, 'r) hooks option \<Rightarrow> event \<Rightarrow> ctx_val ctx
   \<Rightarrow> ('u world, ctx_val, 'r) observer \<times> ('u world, ctx_val, 'r) middleware list
   \<Rightarrow> 'u world \<Rightarrow> 'u world \<times> 'r verdict" where
  "try_router hk e d r w =
     (case r of
        (ob, ms) \<Rightarrow>
          if ob_handlers ob = [] then (w, GoOn)
          else
            (case evaluate_filters (ob_filters ob) e d w of
               (w1, d1, Inl x) \<Rightarrow>
                 (w1, if exn_cls x = Fw SkipHandler then GoOn
                      else if exn_cls x = Fw StopPropagation then Decide (Inr Stopped)
                      else Decide (Inl (tag_filter None x)))
             | (w1, d1, Inr False) \<Rightarrow> (w1, GoOn)
             | (w1, d1, Inr True) \<Rightarrow> try_handlers hk ms e d1 (ob_handlers ob) w1))"

definition try_routers ::
  "('u, 'r) hooks option \<Rightarrow> event \<Rightarrow> ctx_val ctx
   \<Rightarrow> (('u world, ctx_val, 'r) observer \<times> ('u world, ctx_val, 'r) middleware list) list
   \<Rightarrow> 'u world \<Rightarrow> 'u world \<times> 'r verdict" where
  "try_routers hk e d rs w = first_verdict (try_router hk e d) rs w"

section \<open>The dispatcher\<close>

type_synonym ('u, 'r) observers = "string \<Rightarrow> ('u world, ctx_val, 'r) observer"

record ('u, 'r) dispatcher =
  dp_heap :: "(('u world, ctx_val, 'r) middleware, ('u, 'r) observers) heap"
  dp_root :: rid
  dp_routers :: nat
  dp_bot :: "ctx_val option"
  dp_fsm :: "fsm_strategy option"
  dp_hooks :: "('u, 'r) hooks option"
  dp_preview :: "preview_feature set"
  dp_strict :: bool

definition observer_of :: "('u, 'r) dispatcher \<Rightarrow> string \<Rightarrow> rid \<Rightarrow> ('u world, ctx_val, 'r) observer" where
  "observer_of dp n r =
     (case dp_heap dp r of Some x \<Rightarrow> r_content x n | None \<Rightarrow> new_observer n False False)"

definition route_pass ::
  "('u, 'r) dispatcher \<Rightarrow> event \<Rightarrow> ctx_val ctx \<Rightarrow> string \<Rightarrow> 'u world \<Rightarrow> 'u world \<times> (pyexn, 'r outcome) result" where
  "route_pass dp e d n w =
     (case try_routers (dp_hooks dp) e d
             (map (\<lambda>(r, ms). (observer_of dp n r, ms)) (walk (dp_heap dp) (dp_routers dp) (dp_root dp) [])) w of
        (w1, GoOn) \<Rightarrow> (w1, Inr NotHandled)
      | (w1, Decide x) \<Rightarrow> (w1, x))"

definition specific_observers :: "event \<Rightarrow> string list" where
  "specific_observers e =
     (case body e of
        MessageEvent m \<Rightarrow> [''message'']
      | ActionEvent a \<Rightarrow>
          (if dialog_is e SUBMIT_DIALOG then [''dialog_submit'']
           else if dialog_is e CANCEL_DIALOG then [''dialog_cancel'']
           else [''action''])
      | CommandEvent c \<Rightarrow>
          (case cmd_kind c of
             Some MESSAGE_ACTION \<Rightarrow> [''message_action'', ''command'']
           | Some SLASH_COMMAND \<Rightarrow> [''slash_command'', ''command'']
           | Some QUICK_COMMAND \<Rightarrow> [''quick_command'', ''command'']
           | None \<Rightarrow> [])
      | AddedToSpaceEvent \<Rightarrow> [''added_to_space'']
      | RemovedFromSpaceEvent \<Rightarrow> [''removed_from_space'']
      | WidgetUpdatedEvent f \<Rightarrow> [''widget_updated'']
      | AppHomeEvent \<Rightarrow> [''app_home'']
      | FormSubmitEvent f \<Rightarrow> [''form_submit'']
      | UnknownEvent t \<Rightarrow> [''unknown_event'']
      | ErrorEvent s x \<Rightarrow> [''error'']
      | PlainEvent \<Rightarrow> [])"

text \<open>\<open>_log_unmatched\<close>, of which only the strict mode's failure is visible.\<close>

definition log_unmatched :: "('u, 'r) dispatcher \<Rightarrow> event \<Rightarrow> (pyexn, unit) result" where
  "log_unmatched dp e =
     (if class_of (body e) \<in> {ActionC, CommandC} \<and> dp_strict dp
      then Inl (exn (Fw UnhandledInteractionError)) else Inr ())"

text \<open>The specific passes in order, until one handles or stops.\<close>

fun specific_passes ::
  "('u, 'r) dispatcher \<Rightarrow> event \<Rightarrow> ctx_val ctx \<Rightarrow> string list \<Rightarrow> 'u world \<Rightarrow> 'u world \<times> (pyexn, 'r outcome) result" where
  "specific_passes dp e d [] w = (w, Inr NotHandled)"
| "specific_passes dp e d (n # ns) w =
     (case route_pass dp e d n w of
        (w1, Inr NotHandled) \<Rightarrow> specific_passes dp e d ns w1
      | (w1, x) \<Rightarrow> (w1, x))"

definition route_event ::
  "('u, 'r) dispatcher \<Rightarrow> event \<Rightarrow> ctx_val ctx \<Rightarrow> 'u world \<Rightarrow> 'u world \<times> (pyexn, 'r outcome) result" where
  "route_event dp e d w =
     (case specific_passes dp e d (specific_observers e) w of
        (w1, Inr NotHandled) \<Rightarrow>
          if class_of (body e) = ErrorC then (w1, Inr NotHandled)
          else
            (case route_pass dp e d ''event'' w1 of
               (w2, Inr NotHandled) \<Rightarrow>
                 (case log_unmatched dp e of
                    Inl x \<Rightarrow> (w2, Inl x) | Inr _ \<Rightarrow> (w2, Inr NotHandled))
             | (w2, x) \<Rightarrow> (w2, x))
      | (w1, x) \<Rightarrow> (w1, x))"

section \<open>Feeding an event\<close>

text \<open>The context the routing works with: the caller's, then the dispatcher's configuration.\<close>

definition feed_context :: "('u, 'r) dispatcher \<Rightarrow> event \<Rightarrow> ctx_val ctx \<Rightarrow> ctx_val ctx" where
  "feed_context dp e c =
     (let d1 = (if \<not> dict_has c ''bot'' then (case dp_bot dp of Some b \<Rightarrow> dict_set ''bot'' b c | None \<Rightarrow> c) else c);
          d2 = dict_set ''preview_capabilities'' (CPreview (dp_preview dp)) d1
      in case dp_fsm dp of
           Some strategy \<Rightarrow> dict_set ''state'' (CState (build_key e strategy)) d2
         | None \<Rightarrow> d2)"

definition error_event :: "event \<Rightarrow> pyexn \<Rightarrow> event" where
  "error_event e x = Event (ErrorEvent e x) (raw e) None None None None None None None"

definition answer_of :: "'r outcome \<Rightarrow> 'r option" where
  "answer_of o' = (case o' of Handled r \<Rightarrow> Some r | _ \<Rightarrow> None)"

text \<open>Routing with error routing: the result, and the exception the \<open>after_event\<close> hook is told of.\<close>

definition route_with_errors ::
  "('u, 'r) dispatcher \<Rightarrow> event \<Rightarrow> ctx_val ctx \<Rightarrow> 'u world
   \<Rightarrow> 'u world \<times> (pyexn, 'r option) result \<times> pyexn option" where
  "route_with_errors dp e d w =
     (case route_event dp e d w of
        (w1, Inr o') \<Rightarrow> (w1, Inr (answer_of o'), None)
      | (w1, Inl x) \<Rightarrow>
          if \<not> is_exception (exn_cls x) then (w1, Inl x, Some x)
          else
            (case route_pass dp (error_event e x) d ''error'' w1 of
               (w2, Inl y) \<Rightarrow> (w2, Inl y, Some x)
             | (w2, Inr (Handled r)) \<Rightarrow> (w2, Inr (Some r), Some x)
             | (w2, Inr _) \<Rightarrow> (w2, Inl x, Some x)))"

definition feed_update ::
  "('u, 'r) dispatcher \<Rightarrow> event \<Rightarrow> ctx_val ctx \<Rightarrow> 'u world \<Rightarrow> 'u world \<times> (pyexn, 'r option) result" where
  "feed_update dp e c w0 =
     (let d = feed_context dp e c;
          before = maybe_hook (map_option (\<lambda>f. f e d) (Option.bind (dp_hooks dp) hk_before_event))
            (w0\<lparr> current_bot := dict_get d ''bot'' \<rparr>);
          routed = (case before of
              (w1, Some x) \<Rightarrow> (w1, Inl x, None)
            | (w1, None) \<Rightarrow> route_with_errors dp e d w1);
          w2 = fst routed; res = fst (snd routed); err = snd (snd routed);
          after = maybe_hook
            (map_option (\<lambda>f. f e d (case res of Inr r \<Rightarrow> r | Inl _ \<Rightarrow> None) err)
              (Option.bind (dp_hooks dp) hk_after_event)) w2
      in ((fst after)\<lparr> current_bot := current_bot w0 \<rparr>,
          case snd after of Some y \<Rightarrow> Inl y | None \<Rightarrow> res))"

section \<open>The configuration in the context\<close>

lemma feed_context_get:
  "dict_get (feed_context dp e c) k =
     (if k = ''state'' \<and> dp_fsm dp \<noteq> None then map_option (\<lambda>s. CState (build_key e s)) (dp_fsm dp)
      else if k = ''preview_capabilities'' then Some (CPreview (dp_preview dp))
      else if k = ''bot'' \<and> dict_get c k = None then dp_bot dp
      else dict_get c k)"
  by (auto simp: feed_context_def Let_def dict_has_def split: option.split)

text \<open>The dispatcher's configuration cannot be bypassed: whatever the caller passes and whatever
  filters add, a handler sees the dispatcher's own preview enrollment and, with workflow storage, the
  event's own workflow context; the bot is the caller's, or the dispatcher's when the caller gave none.\<close>

theorem configuration_wins:
  "case evaluate_filters fs e (feed_context dp e c) w of (w', d', r) \<Rightarrow>
     dict_get d' ''preview_capabilities'' = Some (CPreview (dp_preview dp)) \<and>
     (case dp_fsm dp of Some s \<Rightarrow> dict_get d' ''state'' = Some (CState (build_key e s)) | None \<Rightarrow> True) \<and>
     (case (dict_get c ''bot'', dp_bot dp) of
        (Some b, _) \<Rightarrow> dict_get d' ''bot'' = Some b
      | (None, Some b) \<Rightarrow> dict_get d' ''bot'' = Some b
      | (None, None) \<Rightarrow> True)"
proof -
  obtain w' d' r where ev: "evaluate_filters fs e (feed_context dp e c) w = (w', d', r)" by (metis prod_cases3)
  have keep: "dict_get (feed_context dp e c) k = Some v \<Longrightarrow> dict_get d' k = Some v" for k v
    using extends_get [OF evaluate_extends [OF ev]] .
  show ?thesis
    unfolding ev by (auto intro!: keep simp: feed_context_get split: option.split)
qed

section \<open>Order of dispatch\<close>

lemma first_verdict_split:
  "(\<exists>as y bs w1. x # xs = as @ y # bs \<and> first_verdict f as w = (w1, GoOn) \<and> f y w1 = (w', Decide z)) \<longleftrightarrow>
   f x w = (w', Decide z) \<or>
   (\<exists>w0 as y bs w1. f x w = (w0, GoOn) \<and> xs = as @ y # bs \<and> first_verdict f as w0 = (w1, GoOn) \<and>
      f y w1 = (w', Decide z))" (is "?L \<longleftrightarrow> ?R")
proof
  assume ?L
  then obtain as y bs w1 where l: "x # xs = as @ y # bs" "first_verdict f as w = (w1, GoOn)" "f y w1 = (w', Decide z)"
    by blast
  then show ?R by (cases as) (auto split: prod.splits verdict.splits)
next
  assume ?R
  then show ?L
  proof (elim disjE exE conjE)
    assume "f x w = (w', Decide z)"
    then show ?L by (intro exI [of _ "[]"]) auto
  next
    fix w0 as y bs w1
    assume "f x w = (w0, GoOn)" "xs = as @ y # bs" "first_verdict f as w0 = (w1, GoOn)" "f y w1 = (w', Decide z)"
    then show ?L by (intro exI [of _ "x # as"] exI [of _ y] exI [of _ bs] exI [of _ w1]) simp
  qed
qed

lemma first_verdict_decides:
  "first_verdict f xs w = (w', Decide z) \<longleftrightarrow>
     (\<exists>as y bs w1. xs = as @ y # bs \<and> first_verdict f as w = (w1, GoOn) \<and> f y w1 = (w', Decide z))"
proof (induction xs arbitrary: w)
  case Nil
  then show ?case by simp
next
  case (Cons x xs)
  obtain w1 v where f: "f x w = (w1, v)" by (metis surj_pair)
  then show ?case unfolding first_verdict_split using Cons.IH by (cases v) auto
qed

lemma first_verdict_inv:
  "first_verdict f xs w = (w', Decide z) \<Longrightarrow> (\<And>x w w' z. x \<in> set xs \<Longrightarrow> f x w = (w', Decide z) \<Longrightarrow> P z) \<Longrightarrow> P z"
proof -
  assume "first_verdict f xs w = (w', Decide z)" and p: "\<And>x w w' z. x \<in> set xs \<Longrightarrow> f x w = (w', Decide z) \<Longrightarrow> P z"
  then obtain as y bs w1 where "xs = as @ y # bs" "f y w1 = (w', Decide z)"
    by (auto simp: first_verdict_decides)
  then show "P z" using p [of y w1 w' z] by simp
qed

text \<open>The observers of a pass with the middleware around them, in the order of the walk.\<close>

definition pass_routers ::
  "('u, 'r) dispatcher \<Rightarrow> string \<Rightarrow> (('u world, ctx_val, 'r) observer \<times> ('u world, ctx_val, 'r) middleware list) list" where
  "pass_routers dp n =
     map (\<lambda>(r, ms). (observer_of dp n r, ms)) (walk (dp_heap dp) (dp_routers dp) (dp_root dp) [])"

lemma route_pass_verdict:
  "route_pass dp e d n w =
     (case first_verdict (try_router (dp_hooks dp) e d) (pass_routers dp n) w of
        (w1, GoOn) \<Rightarrow> (w1, Inr NotHandled)
      | (w1, Decide x) \<Rightarrow> (w1, x))"
  by (simp add: route_pass_def try_routers_def pass_routers_def)

lemma catch_not_NotHandled: "catch_candidate n x \<noteq> Decide (Inr NotHandled)"
  by (simp add: catch_candidate_def)

lemma try_handler_Handled:
  "try_handler hk ms e d h w \<noteq> (w', Decide (Inr NotHandled))"
  by (auto simp: try_handler_def catch_not_NotHandled split: prod.splits sum.splits bool.splits option.splits)

lemma try_router_Handled:
  "try_router hk e d (ob, ms) w = (w', Decide (Inr (Handled r))) \<longleftrightarrow>
     (\<exists>w1 d1 hs h hs' w2.
        evaluate_filters (ob_filters ob) e d w = (w1, d1, Inr True) \<and>
        ob_handlers ob = hs @ h # hs' \<and> try_handlers hk ms e d1 hs w1 = (w2, GoOn) \<and>
        try_handler hk ms e d1 h w2 = (w', Decide (Inr (Handled r))))"
proof -
  obtain w1 d1 x where ev: "evaluate_filters (ob_filters ob) e d w = (w1, d1, x)" by (metis prod_cases3)
  show ?thesis
    by (cases x)
      (auto simp: try_router_def ev try_handlers_def first_verdict_decides split: if_splits bool.splits)
qed


section \<open>Failures\<close>

text \<open>Hooks that raise no control exception, which their contract gives no meaning to.\<close>

definition calm_hooks :: "('u, 'r) hooks option \<Rightarrow> bool" where
  "calm_hooks hk \<longleftrightarrow>
     (\<forall>e d w w' x. maybe_hook (map_option (\<lambda>f. f e d) (Option.bind hk hk_before_event)) w = (w', Some x)
        \<longrightarrow> \<not> is_control (exn_cls x)) \<and>
     (\<forall>e d n r w w' x. maybe_hook (map_option (\<lambda>f. f e d n r) (Option.bind hk hk_after_handler)) w = (w', Some x)
        \<longrightarrow> \<not> is_control (exn_cls x)) \<and>
     (\<forall>e d r err w w' x. maybe_hook (map_option (\<lambda>f. f e d r err) (Option.bind hk hk_after_event)) w = (w', Some x)
        \<longrightarrow> \<not> is_control (exn_cls x))"

lemma calm_None [simp]: "calm_hooks None"
  by (simp add: calm_hooks_def maybe_hook_def)

lemma maybe_hook_escape: "maybe_hook m w = (w', Some x) \<Longrightarrow> \<not> is_exception (exn_cls x)"
  by (auto simp: maybe_hook_def split: option.splits prod.splits if_splits)

text \<open>A failure that leaves a pass: no control exception, and an \<open>Exception\<close> knows its stage.\<close>

definition accountable :: "pyexn \<Rightarrow> bool" where
  "accountable x \<longleftrightarrow> \<not> is_control (exn_cls x) \<and> (is_exception (exn_cls x) \<longrightarrow> exn_stage x \<noteq> None)"

lemma catch_accountable: "catch_candidate n x = Decide (Inl y) \<Longrightarrow> accountable y"
  by (auto simp: catch_candidate_def accountable_def is_control_def failure_stage_def
      split: if_splits option.splits)

lemma after_accountable:
  "calm_hooks hk \<Longrightarrow>
   maybe_hook (map_option (\<lambda>f. f e d n r) (Option.bind hk hk_after_handler)) w = (w', Some x) \<Longrightarrow> accountable x"
  unfolding accountable_def using maybe_hook_escape by (metis calm_hooks_def)

lemma try_handler_accountable:
  assumes "calm_hooks hk" and "try_handler hk ms e d h w = (w', Decide (Inl x))"
  shows "accountable x"
  using assms(2)
  by (auto simp: try_handler_def split: prod.splits sum.splits bool.splits option.splits
      dest: catch_accountable after_accountable [OF assms(1)])

lemma first_verdict_accountable:
  assumes "first_verdict f xs w = (w', Decide (Inl x))"
    and "\<And>y w w' x. f y w = (w', Decide (Inl x)) \<Longrightarrow> accountable x"
  shows "accountable x"
  using assms by (auto simp: first_verdict_decides)

lemma try_router_accountable:
  assumes "calm_hooks hk" and "try_router hk e d r w = (w', Decide (Inl x))"
  shows "accountable x"
proof -
  obtain ob ms where r: "r = (ob, ms)" by (cases r)
  have "accountable x" if "try_handlers hk ms e d1 hs w1 = (w', Decide (Inl x))" for d1 hs w1
    using that try_handler_accountable [OF assms(1)] unfolding try_handlers_def
    by (rule first_verdict_accountable)
  moreover have "accountable (tag_filter None x)"
    if "exn_cls x \<noteq> Fw SkipHandler" "exn_cls x \<noteq> Fw StopPropagation" for x
    using that by (simp add: accountable_def tag_filter_def is_control_def)
  ultimately show ?thesis using assms(2)
    by (auto simp: r try_router_def split: prod.splits sum.splits bool.splits if_splits)
qed

lemma route_pass_accountable:
  assumes "calm_hooks (dp_hooks dp)" and "route_pass dp e d n w = (w', Inl x)"
  shows "accountable x"
proof -
  have "first_verdict (try_router (dp_hooks dp) e d) (pass_routers dp n) w = (w', Decide (Inl x))"
    using assms(2) by (auto simp: route_pass_verdict split: prod.splits verdict.splits)
  then show ?thesis using try_router_accountable [OF assms(1)] by (rule first_verdict_accountable)
qed

lemma specific_passes_accountable:
  "calm_hooks (dp_hooks dp) \<Longrightarrow> specific_passes dp e d ns w = (w', Inl x) \<Longrightarrow> accountable x"
  by (induction ns arbitrary: w)
    (auto split: prod.splits sum.splits outcome.splits dest: route_pass_accountable)

lemma pass_calm:
  assumes "calm_hooks (dp_hooks dp)"
  shows "route_pass dp e d n w = (w', Inl x) \<Longrightarrow> \<not> is_control (exn_cls x)"
    and "specific_passes dp e d ns w = (w', Inl x) \<Longrightarrow> \<not> is_control (exn_cls x)"
  using route_pass_accountable [OF assms] specific_passes_accountable [OF assms]
  unfolding accountable_def by blast+

lemma route_event_calm:
  assumes "calm_hooks (dp_hooks dp)" and "route_event dp e d w = (w', Inl x)"
  shows "\<not> is_control (exn_cls x)"
  using assms(2)
  by (auto simp: route_event_def log_unmatched_def split: prod.splits sum.splits outcome.splits if_splits
      dest: pass_calm [OF assms(1)])
    (auto simp: is_control_def)

lemma routed_calm:
  assumes "calm_hooks (dp_hooks dp)" and "route_with_errors dp e d w = (w', Inl x, err)"
  shows "\<not> is_control (exn_cls x)"
  using assms(2)
  by (auto simp: route_with_errors_def split: prod.splits sum.splits outcome.splits if_splits
      dest: route_event_calm [OF assms(1)] pass_calm [OF assms(1)])


text \<open>C4. \<open>feed_update\<close> lets no control exception escape, and afterwards the current bot is the one of
  before, whether it returns or raises and whatever application code did to it, provided the hooks raise
  no control exception.\<close>

theorem feed_update_contained:
  assumes "calm_hooks (dp_hooks dp)"
  shows "(case snd (feed_update dp e c w) of Inl x \<Rightarrow> \<not> is_control (exn_cls x) | Inr _ \<Rightarrow> True) \<and>
    current_bot (fst (feed_update dp e c w)) = current_bot w"
proof -
  have before: "\<not> is_control (exn_cls x)"
    if "maybe_hook (map_option (\<lambda>f. f e d) (Option.bind (dp_hooks dp) hk_before_event)) w1 = (w2, Some x)" for d w1 w2 x
    using assms that unfolding calm_hooks_def by blast
  have after: "\<not> is_control (exn_cls x)"
    if "snd (maybe_hook (map_option (\<lambda>f. f e d r err) (Option.bind (dp_hooks dp) hk_after_event)) w1) = Some x"
    for d r err w1 x
    using assms that unfolding calm_hooks_def by (metis prod.collapse)
  have routed: "\<not> is_control (exn_cls x)" if "fst (snd (route_with_errors dp e d w1)) = Inl x" for d w1 x
    using routed_calm [OF assms] that by (metis prod.collapse)
  show ?thesis
    unfolding feed_update_def Let_def
    by (auto split: prod.splits sum.splits option.splits dest: before after routed)
qed

text \<open>No router has a handler for errors.\<close>

definition no_error_handlers :: "('u, 'r) dispatcher \<Rightarrow> bool" where
  "no_error_handlers dp \<longleftrightarrow> (\<forall>r. ob_handlers (observer_of dp ''error'' r) = [])"

lemma no_error_pass: "no_error_handlers dp \<Longrightarrow> route_pass dp e d ''error'' w = (w, Inr NotHandled)"
proof -
  assume none: "no_error_handlers dp"
  have "first_verdict (try_router (dp_hooks dp) e d) rs w = (w, GoOn)"
    if "\<forall>(ob, ms) \<in> set rs. ob_handlers ob = []" for rs
    using that by (induction rs) (auto simp: try_router_def)
  moreover have "\<forall>(ob, ms) \<in> set (pass_routers dp ''error''). ob_handlers ob = []"
    using none by (auto simp: pass_routers_def no_error_handlers_def)
  ultimately show ?thesis by (simp add: route_pass_verdict)
qed

text \<open>A failure is never silent: without an error handler in the tree and without hooks, the exception
  that left the routing of an event is raised by \<open>feed_update\<close> unchanged, with its stage and handler
  tags, and the state is the one the routing left.\<close>

theorem unhandled_failure_reraised:
  assumes "no_error_handlers dp" and "dp_hooks dp = None"
    and "route_event dp e (feed_context dp e c)
           (w\<lparr> current_bot := dict_get (feed_context dp e c) ''bot'' \<rparr>) = (w1, Inl x)"
  shows "feed_update dp e c w = (w1\<lparr> current_bot := current_bot w \<rparr>, Inl x)"
  using assms(2,3) no_error_pass [OF assms(1)]
  by (simp add: feed_update_def Let_def maybe_hook_def route_with_errors_def)

section \<open>A dispatcher\<close>

text \<open>One message handler that raises, behind a middleware that counts.\<close>

definition broken_handler :: "(nat, nat) handler'" where
  "broken_handler =
     \<lparr> h_name = ''app.on_message'',
       h_callback = (\<lambda>kw w. (w\<lparr> current_bot := None \<rparr>, Inl (exn (Py (AppException ''Boom''))))),
       h_filters = [], h_plan = [] \<rparr>"

definition counting :: "(nat world, ctx_val, nat) middleware" where
  "counting nxt e d w = nxt e d (w\<lparr> outside := outside w + 1 \<rparr>)"

definition sample_dispatcher :: "(nat, nat) dispatcher" where
  "sample_dispatcher =
     \<lparr> dp_heap =
         [0 \<mapsto> (new_router
            (\<lambda>n. (new_observer n (n = ''action'') False)
               \<lparr> ob_handlers := (if n = ''message'' then [broken_handler] else []) \<rparr>) True)
          \<lparr> r_middleware := [counting] \<rparr>],
       dp_root = 0, dp_routers = 1, dp_bot = Some (CBot 7), dp_fsm = None, dp_hooks = None,
       dp_preview = {}, dp_strict = True \<rparr>"

definition hello :: event where
  "hello = Event (MessageEvent \<lparr> msg_text = ''hello'', msg_ref = None, matched_url = None,
      msg_sender_type = None, argument_text = None \<rparr>) PNone None None None None None None None"

lemmas sample_dispatch = sample_dispatcher_def hello_def counting_def broken_handler_def route_pass_def
  try_routers_def try_router_def try_handlers_def try_handler_def observer_of_def new_router_def
  new_observer_def resolved_handler_def invoke_plan_def catch_candidate_def maybe_hook_def attach_def
  failure_stage_def children_of_def middleware_of_def issubclass_def exn_def

definition boom :: pyexn where
  "boom = \<lparr> exn_cls = Py (AppException ''Boom''), exn_stage = Some ''handler'', exn_handler = Some ''app.on_message'' \<rparr>"


lemma feed_update_contained_witness:
  "current_bot (fst (feed_update sample_dispatcher hello [] \<lparr> current_bot = Some (CBot 1), outside = 0 \<rparr>)) =
     Some (CBot 1)"
  using feed_update_contained [of sample_dispatcher hello "[]" "\<lparr> current_bot = Some (CBot 1), outside = 0 \<rparr>"]
  by (simp add: sample_dispatcher_def)

lemma unhandled_failure_witness:
  "feed_update sample_dispatcher hello [] \<lparr> current_bot = Some (CBot 1), outside = 0 \<rparr> =
     (\<lparr> current_bot = Some (CBot 1), outside = 1 \<rparr>, Inl boom)"
proof -
  have none: "no_error_handlers sample_dispatcher"
    by (simp add: no_error_handlers_def sample_dispatcher_def observer_of_def new_observer_def new_router_def)
  have routed: "route_event sample_dispatcher hello (feed_context sample_dispatcher hello [])
        (\<lparr> current_bot = Some (CBot 1), outside = 0 \<rparr>
           \<lparr> current_bot := dict_get (feed_context sample_dispatcher hello []) ''bot'' \<rparr>) =
        (\<lparr> current_bot = None, outside = 1 \<rparr>, Inl boom)"
    by (simp add: route_event_def specific_observers_def sample_dispatch boom_def eval_nat_numeral)
  show ?thesis
    using unhandled_failure_reraised [OF none _ routed] by (simp add: sample_dispatcher_def)
qed

end
