(* ===== verification/Lifespans.thy ===== *)
theory Lifespans
  imports Exceptions
begin

text \<open>
  The application lifespan (\<open>dispatcher/lifespan.py\<close>): resources started in order and closed in
  reverse. A resource is application code whose two methods change the state \<open>'w\<close> and may raise. The
  record of close failures in the log is left out.
\<close>

record 'w resource =
  res_start :: "'w \<Rightarrow> 'w \<times> pyexn option"
  res_close :: "'w \<Rightarrow> 'w \<times> pyexn option"

record 'w lifespan =
  ls_resources :: "'w resource list"
  ls_started :: "'w resource list"
  ls_closed :: bool

definition lifespan_init :: "'w resource list \<Rightarrow> 'w lifespan" where
  "lifespan_init rs = \<lparr> ls_resources = rs, ls_started = [], ls_closed = False \<rparr>"

text \<open>Closing resources in the given order: every one is tried, and the failures are collected.\<close>

fun close_each :: "'w resource list \<Rightarrow> 'w \<Rightarrow> 'w \<times> pyexn list" where
  "close_each [] w = (w, [])"
| "close_each (r # rs) w =
     (case res_close r w of
        (w1, None) \<Rightarrow> close_each rs w1
      | (w1, Some x) \<Rightarrow> (case close_each rs w1 of (w2, xs) \<Rightarrow> (w2, x # xs)))"

text \<open>Starting: the resources started so far, and the failure that stopped it.\<close>

fun start_each :: "'w resource list \<Rightarrow> 'w resource list \<Rightarrow> 'w \<Rightarrow> 'w \<times> 'w resource list \<times> pyexn option" where
  "start_each [] started w = (w, started, None)"
| "start_each (r # rs) started w =
     (case res_start r w of
        (w1, None) \<Rightarrow> start_each rs (started @ [r]) w1
      | (w1, Some x) \<Rightarrow> (w1, started, Some x))"

definition lifespan_enter :: "'w lifespan \<Rightarrow> 'w \<Rightarrow> 'w lifespan \<times> 'w \<times> pyexn option" where
  "lifespan_enter ls w =
     (if ls_closed ls then (ls, w, Some (exn (Py RuntimeErr)))
      else
        (case start_each (ls_resources ls) (ls_started ls) w of
           (w1, started, None) \<Rightarrow> (ls\<lparr> ls_started := started \<rparr>, w1, None)
         | (w1, started, Some x) \<Rightarrow>
             (ls\<lparr> ls_started := [] \<rparr>, fst (close_each (rev started) w1), Some x)))"

text \<open>Leaving; \<open>failing\<close> tells that the body of the context raised.\<close>

definition lifespan_exit :: "bool \<Rightarrow> 'w lifespan \<Rightarrow> 'w \<Rightarrow> 'w lifespan \<times> 'w \<times> pyexn option" where
  "lifespan_exit failing ls w =
     (case close_each (rev (ls_started ls)) w of
        (w1, errors) \<Rightarrow>
          (ls\<lparr> ls_started := [], ls_closed := True \<rparr>, w1,
           case errors of x # _ \<Rightarrow> if failing then None else Some x | [] \<Rightarrow> None))"

section \<open>Order\<close>

text \<open>Resources that note their calls: a name, and what starting and closing raise.\<close>

datatype 'a call = Start 'a | Close 'a

definition noted :: "'a \<times> pyexn option \<times> pyexn option \<Rightarrow> 'a call list resource" where
  "noted r = (case r of (n, s, c) \<Rightarrow>
     \<lparr> res_start = (\<lambda>w. (w @ [Start n], s)), res_close = (\<lambda>w. (w @ [Close n], c)) \<rparr>)"

lemma close_noted:
  "close_each (map noted rs) w =
     (w @ map (\<lambda>(n, s, c). Close n) rs, List.map_filter (\<lambda>(n, s, c). c) rs)"
proof (induction rs arbitrary: w)
  case Nil
  then show ?case by (simp add: List.map_filter_def)
next
  case (Cons r rs)
  obtain n s c where "r = (n, s, c)" by (cases r)
  then show ?case using Cons by (cases c) (simp_all add: noted_def List.map_filter_def)
qed

lemma start_noted_ok:
  "\<forall>(n, s, c) \<in> set rs. s = None \<Longrightarrow>
   start_each (map noted rs) started w = (w @ map (\<lambda>(n, s, c). Start n) rs, started @ map noted rs, None)"
proof (induction rs arbitrary: w started)
  case Nil
  then show ?case by simp
next
  case (Cons r rs)
  then show ?case by (cases r) (simp add: noted_def)
qed

lemma start_noted_fails:
  "\<forall>(n, s, c) \<in> set rs. s = None \<Longrightarrow>
   start_each (map noted rs @ noted (n, Some x, c) # later) started w =
     (w @ map (\<lambda>(n, s, c). Start n) rs @ [Start n], started @ map noted rs, Some x)"
proof (induction rs arbitrary: w started)
  case Nil
  then show ?case by (simp add: noted_def)
next
  case (Cons r rs)
  then show ?case by (cases r) (simp add: noted_def)
qed

text \<open>C28. A start that fails rolls back: the resources started before it are closed, each once and in
  reverse order whatever closing them raises, nothing after it is started, its exception is the one
  raised, and the lifespan is as before, ready to be entered again.\<close>

theorem partial_start_rolls_back:
  assumes "\<forall>(n, s, c) \<in> set rs. s = None"
  shows "lifespan_enter (lifespan_init (map noted rs @ noted (n, Some x, c) # later)) [] =
    (lifespan_init (map noted rs @ noted (n, Some x, c) # later),
     map (\<lambda>(n, s, c). Start n) rs @ [Start n] @ rev (map (\<lambda>(n, s, c). Close n) rs), Some x)"
proof -
  have "close_each (rev (map noted rs)) w = (w @ rev (map (\<lambda>(n, s, c). Close n) rs),
      List.map_filter (\<lambda>(n, s, c). c) (rev rs))" for w
    using close_noted [of "rev rs" w] by (simp add: rev_map)
  then show ?thesis
    using start_noted_fails [OF assms, of n x c later "[]" "[]"]
    by (simp add: lifespan_enter_def lifespan_init_def)
qed

lemma partial_start_witness:
  "fst (snd (lifespan_enter (lifespan_init
      [noted (1::nat, None, Some (exn (Py ValueErr))), noted (2, None, None), noted (3, Some (exn (Py OSErr)), None),
       noted (4, None, None)]) [])) = [Start 1, Start 2, Start 3, Close 2, Close 1]"
  using partial_start_rolls_back [of "[(1::nat, None, Some (exn (Py ValueErr))), (2, None, None)]" 3
      "exn (Py OSErr)" None "[noted (4, None, None)]"] by simp

text \<open>A shutdown closes every started resource, each once and in reverse order, even when closing one
  raises; a clean exit then raises the first failure in that order, and an exit on an exception raises
  none of them. Afterwards the lifespan can not be entered again.\<close>

theorem shutdown_closes_all:
  assumes "\<forall>(n, s, c) \<in> set rs. s = None"
    and "lifespan_enter (lifespan_init (map noted rs)) [] = (ls, w, None)"
  shows "\<exists>ls'. lifespan_exit failing ls w =
      (ls', map (\<lambda>(n, s, c). Start n) rs @ rev (map (\<lambda>(n, s, c). Close n) rs),
       if failing then None else find (\<lambda>x. True) (List.map_filter (\<lambda>(n, s, c). c) (rev rs))) \<and>
    lifespan_enter ls' w' = (ls', w', Some (exn (Py RuntimeErr)))"
proof -
  have enter: "lifespan_enter (lifespan_init (map noted rs)) [] =
      ((lifespan_init (map noted rs))\<lparr> ls_started := map noted rs \<rparr>, map (\<lambda>(n, s, c). Start n) rs, None)"
    using start_noted_ok [OF assms(1), of "[]" "[]"] by (simp add: lifespan_enter_def lifespan_init_def)
  have "close_each (rev (map noted rs)) w = (w @ rev (map (\<lambda>(n, s, c). Close n) rs),
      List.map_filter (\<lambda>(n, s, c). c) (rev rs))" for w
    using close_noted [of "rev rs" w] by (simp add: rev_map)
  then show ?thesis using assms(2) unfolding enter
    by (auto simp: lifespan_exit_def lifespan_init_def lifespan_enter_def split: list.split)
qed

lemma shutdown_closes_all_witness:
  "\<exists>ls'. lifespan_exit False
      ((lifespan_init [noted (1::nat, None, Some (exn (Py ValueErr))), noted (2, None, Some (exn (Py OSErr)))])
        \<lparr> ls_started := [noted (1, None, Some (exn (Py ValueErr))), noted (2, None, Some (exn (Py OSErr)))] \<rparr>)
      [Start 1, Start 2] =
    (ls', [Start 1, Start 2, Close 2, Close 1], Some (exn (Py OSErr)))"
  using shutdown_closes_all [of "[(1::nat, None, Some (exn (Py ValueErr))), (2, None, Some (exn (Py OSErr)))]"
      "(lifespan_init [noted (1::nat, None, Some (exn (Py ValueErr))), noted (2, None, Some (exn (Py OSErr)))])
        \<lparr> ls_started := [noted (1, None, Some (exn (Py ValueErr))), noted (2, None, Some (exn (Py OSErr)))] \<rparr>"
      "[Start 1, Start 2]" False "[]"]
  by (auto simp: lifespan_enter_def lifespan_init_def noted_def List.map_filter_def)

end
