(* ===== verification/Adapter.thy ===== *)
theory Adapter
  imports Events
begin

text \<open>
  The Google Chat adapter (\<open>adapters/google_chat/\<close>): normalization of the two envelope families, the
  boundary models, form inputs, and the mapping of a validated interaction to a domain event. Validation
  by pydantic is the argument \<open>validate\<close>, which gives a model or nothing; \<open>fromiso\<close> stands for
  \<open>datetime.fromisoformat\<close> and gives a time stamp and whether it has an offset. Dictionaries of the
  payload are lists of pairs with distinct keys.
\<close>

section \<open>Envelopes\<close>

type_synonym pydict = "(pyval \<times> pyval) list"

record normalized_envelope =
  env_event :: pydict
  env_raw :: pydict

definition invalid :: "(pyexn, 'a) result" where
  "invalid = Inl (exn (Wire InvalidInteractionPayload))"

definition conflicting :: "(pyexn, 'a) result" where
  "conflicting = Inl (exn (Wire ConflictingEnvelopeError))"

definition unsupported :: "(pyexn, 'a) result" where
  "unsupported = Inl (exn (Wire UnsupportedEnvelopeError))"

definition is_mapping :: "pyval \<Rightarrow> bool" where
  "is_mapping v \<longleftrightarrow> (case v of PDict d \<Rightarrow> True | _ \<Rightarrow> False)"

definition del_key :: "string \<Rightarrow> pydict \<Rightarrow> pydict" where
  "del_key k d = filter (\<lambda>(k', v). k' \<noteq> PStr k) d"

text \<open>The loop that adds the outer fields to a wrapped event.\<close>

fun merge_outer :: "pydict \<Rightarrow> pydict \<Rightarrow> (pyexn, pydict) result" where
  "merge_outer [] ev = Inr ev"
| "merge_outer ((k, v) # r) ev =
     (if k \<in> set (map PStr [''chat'', ''commonEventObject'', ''common'', ''type'']) then merge_outer r ev
      else (case dict_get ev k of
              Some u \<Rightarrow> if py_eq u v then merge_outer r ev else conflicting
            | None \<Rightarrow> merge_outer r (dict_set k v ev)))"

definition envelope_event :: "pydict \<Rightarrow> (pyexn, pydict) result" where
  "envelope_event r =
     (case obj_get r ''chat'' of
        PNone \<Rightarrow>
          if obj_get r ''type'' = PNone then unsupported else Inr (del_key ''commonEventObject'' r)
      | PDict ev \<Rightarrow>
          if obj_get ev ''type'' = PNone then unsupported
          else if obj_get r ''type'' = PNone then Inr ev
          else if \<not> py_eq (obj_get r ''type'') (obj_get ev ''type'') then conflicting
          else merge_outer r ev
      | _ \<Rightarrow> unsupported)"

definition join_common :: "pydict \<Rightarrow> pydict \<Rightarrow> (pyexn, pydict) result" where
  "join_common r ev =
     (let inner = obj_get ev ''common''; outer = obj_get r ''commonEventObject''
      in if inner \<noteq> PNone \<and> \<not> is_mapping inner then invalid
         else if outer \<noteq> PNone \<and> \<not> is_mapping outer then invalid
         else if inner \<noteq> PNone \<and> outer \<noteq> PNone \<and> \<not> py_eq inner outer then conflicting
         else if outer \<noteq> PNone then Inr (dict_set (PStr ''common'') outer ev)
         else Inr ev)"

definition normalize_envelope :: "pyval \<Rightarrow> (pyexn, normalized_envelope) result" where
  "normalize_envelope payload =
     (case payload of
        PDict r \<Rightarrow>
          if \<not> list_all (\<lambda>(k, v). \<exists>s. k = PStr s) r then invalid
          else bind_res (envelope_event r)
            (\<lambda>ev. bind_res (join_common r ev) (\<lambda>ev'. Inr \<lparr> env_event = ev', env_raw = r \<rparr>))
      | _ \<Rightarrow> invalid)"

section \<open>Form inputs\<close>

definition known_inputs :: "string list" where
  "known_inputs = [''stringInputs'', ''dateInput'', ''dateTimeInput'', ''timeInput'']"

definition epoch :: "pydict \<Rightarrow> (pyexn, int) result" where
  "epoch b =
     (case obj_get b ''msSinceEpoch'' of
        PInt i \<Rightarrow> Inr i
      | PStr s \<Rightarrow>
          if py_isdigit s then (case py_int s of Some i \<Rightarrow> Inr i | None \<Rightarrow> Inl (exn (Py ValueErr)))
          else invalid
      | _ \<Rightarrow> invalid)"

definition optional_bool :: "pydict \<Rightarrow> string \<Rightarrow> (pyexn, bool option) result" where
  "optional_bool b k =
     (case obj_get b k of PNone \<Rightarrow> Inr None | PBool x \<Rightarrow> Inr (Some x) | _ \<Rightarrow> invalid)"

fun all_strings :: "pyval list \<Rightarrow> string list option" where
  "all_strings [] = Some []"
| "all_strings (PStr s # vs) = map_option ((#) s) (all_strings vs)"
| "all_strings (v # vs) = None"

definition parse_value :: "string \<Rightarrow> pydict \<Rightarrow> (pyexn, form_value) result" where
  "parse_value kind b =
     (if kind = ''stringInputs'' then
        (case obj_get b ''value'' of
           PList vs \<Rightarrow> (case all_strings vs of Some ss \<Rightarrow> Inr (StringInput ss) | None \<Rightarrow> invalid)
         | _ \<Rightarrow> invalid)
      else if kind = ''dateInput'' then bind_res (epoch b) (\<lambda>i. Inr (DateInput i))
      else if kind = ''dateTimeInput'' then
        bind_res (optional_bool b ''hasDate'') (\<lambda>hd.
        bind_res (optional_bool b ''hasTime'') (\<lambda>ht.
        bind_res (epoch b) (\<lambda>i. Inr (DateTimeInput i hd ht))))
      else
        (case (obj_get b ''hours'', obj_get b ''minutes'') of
           (PInt h, PInt m) \<Rightarrow>
             if 0 \<le> h \<and> h \<le> 23 \<and> 0 \<le> m \<and> m \<le> 59 then Inr (TimeInput h m) else invalid
         | _ \<Rightarrow> invalid))"

text \<open>The variants present are at most one; the kind of an unknown variant is its first key.\<close>

definition parse_form_input :: "pyval \<Rightarrow> pyval \<Rightarrow> (pyexn, string \<times> form_value) result" where
  "parse_form_input widget v =
     (case (widget, v) of
        (PStr w, PDict d) \<Rightarrow>
          (case filter (\<lambda>k. dict_has d (PStr k)) known_inputs of
             [] \<Rightarrow>
               Inr (w, UnknownFormInput (case d of (k, _) # _ \<Rightarrow> py_str (\<lambda>_. []) k | [] \<Rightarrow> ''unknown'') d)
           | [kind] \<Rightarrow>
              (case obj_get d kind of
                 PDict b \<Rightarrow> bind_res (parse_value kind b) (\<lambda>x. Inr (w, x))
               | _ \<Rightarrow> invalid)
           | _ \<Rightarrow> invalid)
      | _ \<Rightarrow> invalid)"

definition parse_form_inputs :: "pydict \<Rightarrow> (pyexn, form_inputs) result" where
  "parse_form_inputs d = bind_res (traverse (\<lambda>(w, v). parse_form_input w v) d) (\<lambda>ps. Inr (dict_of ps))"

section \<open>Boundary models\<close>

record slash_model = slash_command_id :: "string option"

record message_model =
  mm_name :: "string option"
  mm_text :: "string option"
  mm_sender :: "user_ref option"
  mm_space :: "space_ref option"
  mm_thread :: "(string option \<times> string option) option"
  mm_argument_text :: "string option"
  mm_slash :: "slash_model option"
  mm_matched_url :: "string option option"

record form_action_model =
  fa_method :: "string option"
  fa_parameters :: "(string \<times> string) list"

record common_model =
  cm_locale :: "string option"
  cm_time_zone :: "time_zone option"
  cm_form_inputs :: pydict
  cm_parameters :: "(string, string) pdict"
  cm_function :: "string option"

record command_metadata_model =
  md_id :: "int option"
  md_type :: "string option"

record interaction_model =
  im_type :: string
  im_event_time :: "string option"
  im_message :: "message_model option"
  im_user :: "user_ref option"
  im_thread :: "(string option \<times> string option) option"
  im_space :: "space_ref option"
  im_action :: "form_action_model option"
  im_is_dialog :: "bool option"
  im_dialog_type :: "string option"
  im_common :: "common_model option"
  im_command :: "command_metadata_model option"

section \<open>The parser\<close>

text \<open>The keyword arguments every event is built with.\<close>

record event_kwargs =
  kw_raw :: pydict
  kw_event_time :: "time option"
  kw_actor :: "user_ref option"
  kw_space :: "space_ref option"
  kw_thread :: "thread_ref option"
  kw_dialog :: "dialog_metadata option"
  kw_locale :: "string option"
  kw_timezone :: "time_zone option"

definition make_event :: "event_kwargs \<Rightarrow> event_body \<Rightarrow> event" where
  "make_event b bd =
     Event bd (PDict (kw_raw b)) (kw_event_time b) (kw_actor b) (kw_space b) (kw_thread b) (kw_dialog b)
       (kw_locale b) (kw_timezone b)"

definition known_types :: "string list" where
  "known_types = [''MESSAGE'', ''ADDED_TO_SPACE'', ''REMOVED_FROM_SPACE'', ''CARD_CLICKED'',
     ''WIDGET_UPDATED'', ''APP_COMMAND'', ''APP_HOME'', ''SUBMIT_FORM'']"

definition timestamp ::
    "(string \<Rightarrow> (time \<times> bool) option) \<Rightarrow> string option \<Rightarrow> (pyexn, time option) result" where
  "timestamp fromiso v =
     (case v of
        None \<Rightarrow> Inr None
      | Some s \<Rightarrow>
          (case fromiso (if py_endswith s ''Z'' then take (length s - 1) s @ ''+00:00'' else s) of
             None \<Rightarrow> invalid
           | Some (t, aware) \<Rightarrow> if aware then Inr (Some t) else invalid))"

definition thread_of :: "(string option \<times> string option) option \<Rightarrow> space_ref option \<Rightarrow> thread_ref option" where
  "thread_of v sp =
     map_option (\<lambda>(n, k). \<lparr> thread_name = n, thread_key = k, thread_space = sp \<rparr>) v"

definition dialog_type_of :: "string \<Rightarrow> dialog_type" where
  "dialog_type_of s =
     (if s = ''REQUEST_DIALOG'' then REQUEST_DIALOG else if s = ''SUBMIT_DIALOG'' then SUBMIT_DIALOG
      else if s = ''CANCEL_DIALOG'' then CANCEL_DIALOG else OtherDialog s)"

definition dialog_of :: "bool option \<Rightarrow> string option \<Rightarrow> (pyexn, dialog_metadata option) result" where
  "dialog_of is_dialog ty =
     (case ty of
        None \<Rightarrow> if is_dialog = Some True then invalid else Inr None
      | Some s \<Rightarrow>
          if is_dialog = Some False then invalid
          else Inr (Some \<lparr> dialog_event_type = dialog_type_of s, is_dialog_event = True \<rparr>))"

definition action_source_of ::
    "pydict \<Rightarrow> interaction_model \<Rightarrow> dialog_metadata option \<Rightarrow> action_source option" where
  "action_source_of r m dlg =
     (if dlg \<noteq> None then Some FromDialog
      else if is_mapping (obj_get r ''chat'') then Some FromHome
      else if im_message m \<noteq> None then Some FromMessage
      else None)"

definition app_command_kind :: "string \<Rightarrow> command_kind option" where
  "app_command_kind s =
     (if s = kind_value QUICK_COMMAND then Some QUICK_COMMAND
      else if s = kind_value MESSAGE_ACTION then Some MESSAGE_ACTION
      else None)"

text \<open>The loop over \<open>action.parameters\<close>.\<close>

fun fallback_params ::
    "(string \<times> string) list \<Rightarrow> (string, string) pdict \<Rightarrow> (pyexn, (string, string) pdict) result" where
  "fallback_params [] acc = Inr acc"
| "fallback_params ((k, v) # r) acc =
     (if dict_has acc k then invalid else fallback_params r (dict_set k v acc))"

definition same_dict :: "(string, string) pdict \<Rightarrow> (string, string) pdict \<Rightarrow> bool" where
  "same_dict d d' \<longleftrightarrow> length d = length d' \<and> list_all (\<lambda>(k, v). dict_get d' k = Some v) d"

definition text_or_empty :: "string option \<Rightarrow> string" where
  "text_or_empty v = (case v of None \<Rightarrow> [] | Some s \<Rightarrow> s)"

definition common_action ::
    "interaction_model \<Rightarrow> (pyexn, (string, string) pdict \<times> form_inputs \<times> string) result" where
  "common_action m =
     (let params = (case im_common m of Some c \<Rightarrow> cm_parameters c | None \<Rightarrow> []);
          func = text_or_empty (Option.bind (im_common m) cm_function);
          raw_inputs = (case im_common m of Some c \<Rightarrow> cm_form_inputs c | None \<Rightarrow> [])
      in bind_res (parse_form_inputs raw_inputs) (\<lambda>inputs.
         bind_res (case im_action m of Some a \<Rightarrow> fallback_params (fa_parameters a) [] | None \<Rightarrow> Inr []) (\<lambda>fb.
         let fb_func = text_or_empty (Option.bind (im_action m) fa_method)
         in if params \<noteq> [] \<and> fb \<noteq> [] \<and> \<not> same_dict params fb then conflicting
            else if func \<noteq> [] \<and> fb_func \<noteq> [] \<and> func \<noteq> fb_func then conflicting
            else Inr (if params \<noteq> [] then params else fb, inputs, if func \<noteq> [] then func else fb_func))))"

definition require_actor_space :: "event_kwargs \<Rightarrow> (pyexn, unit) result" where
  "require_actor_space b = (if kw_actor b = None \<or> kw_space b = None then invalid else Inr ())"

definition argument_text_of :: "string option \<Rightarrow> string option" where
  "argument_text_of v = map_option py_strip v"

definition sender_type_of :: "message_model option \<Rightarrow> string option" where
  "sender_type_of mm = Option.bind (Option.bind mm mm_sender) user_type"

definition slash_command_event ::
    "message_model \<Rightarrow> slash_model \<Rightarrow> event_kwargs \<Rightarrow> (pyexn, event) result" where
  "slash_command_event msg sl b =
     (case slash_command_id sl of
        None \<Rightarrow> invalid
      | Some s \<Rightarrow>
         (case py_int s of
            None \<Rightarrow> invalid
          | Some i \<Rightarrow>
              bind_res (command_init
                \<lparr> command_id = i, command_type = None, cmd_kind = Some SLASH_COMMAND,
                  source_kind = Some (kind_value SLASH_COMMAND),
                  message_text = (case argument_text_of (mm_argument_text msg) of
                                    Some a \<Rightarrow> Some a | None \<Rightarrow> mm_text msg),
                  target_message = None \<rparr>)
                (\<lambda>c. Inr (make_event b (CommandEvent c)))))"

text \<open>The branches of \<open>parse_interaction\<close> that follow \<open>_common_action\<close>.\<close>

definition message_event :: "interaction_model \<Rightarrow> event_kwargs \<Rightarrow> (pyexn, event) result" where
  "message_event m b =
     (case im_message m of
        None \<Rightarrow> invalid
      | Some msg \<Rightarrow>
         (case mm_slash msg of
            Some sl \<Rightarrow> slash_command_event msg sl b
          | None \<Rightarrow>
             (case mm_text msg of
                None \<Rightarrow> invalid
              | Some t \<Rightarrow>
                  Inr (make_event b (MessageEvent
                    \<lparr> msg_text = t, msg_ref = Some \<lparr> message_name = mm_name msg \<rparr>,
                      matched_url = Option.bind (mm_matched_url msg) id,
                      msg_sender_type = sender_type_of (Some msg),
                      argument_text = argument_text_of (mm_argument_text msg) \<rparr>)))))"

definition action_event ::
    "interaction_model \<Rightarrow> event_kwargs \<Rightarrow> (string, string) pdict \<times> form_inputs \<times> string \<Rightarrow> (pyexn, event) result" where
  "action_event m b act =
     (case act of (params, inputs, func) \<Rightarrow>
        if func = [] then invalid
        else Inr (make_event b (ActionEvent
               \<lparr> action_name = func, action_params = map (\<lambda>(k, v). (k, PStr v)) params,
                 action_inputs = inputs, action_sender_type = sender_type_of (im_message m),
                 action_source = action_source_of (kw_raw b) m (kw_dialog b),
                 action_message =
                   (case Option.bind (im_message m) mm_name of
                      Some n \<Rightarrow> if n = [] then None else Some \<lparr> message_name = Some n \<rparr>
                    | None \<Rightarrow> None) \<rparr>)))"

definition app_command_event :: "interaction_model \<Rightarrow> event_kwargs \<Rightarrow> (pyexn, event) result" where
  "app_command_event m b =
     (case im_command m of
        None \<Rightarrow> invalid
      | Some md \<Rightarrow>
         (case (md_id md, md_type md) of
            (Some i, Some ty) \<Rightarrow>
              bind_res (command_init
                \<lparr> command_id = i, command_type = Some ty, cmd_kind = app_command_kind ty,
                  source_kind = Some ty, message_text = Option.bind (im_message m) mm_text,
                  target_message =
                    (if app_command_kind ty = Some MESSAGE_ACTION
                     then map_option (\<lambda>n. \<lparr> message_name = Some n \<rparr>) (Option.bind (im_message m) mm_name)
                     else None) \<rparr>)
                (\<lambda>c. Inr (make_event b (CommandEvent c)))
          | _ \<Rightarrow> invalid))"

definition function_event ::
    "(string, string) pdict \<times> form_inputs \<times> string \<Rightarrow> function_body" where
  "function_event act =
     (case act of (params, inputs, func) \<Rightarrow>
        \<lparr> function_name = func, fn_params = params, fn_inputs = inputs \<rparr>)"

definition typed_event :: "interaction_model \<Rightarrow> event_kwargs \<Rightarrow> (pyexn, event) result" where
  "typed_event m b =
     (let ty = im_type m
      in if ty \<notin> set known_types then Inr (make_event b (UnknownEvent ty))
         else if ty = ''MESSAGE'' then message_event m b
         else if ty = ''ADDED_TO_SPACE''
           then bind_res (require_actor_space b) (\<lambda>_. Inr (make_event b AddedToSpaceEvent))
         else if ty = ''REMOVED_FROM_SPACE''
           then bind_res (require_actor_space b) (\<lambda>_. Inr (make_event b RemovedFromSpaceEvent))
         else if ty = ''APP_HOME''
           then bind_res (require_actor_space b) (\<lambda>_. Inr (make_event b AppHomeEvent))
         else bind_res (common_action m) (\<lambda>act.
           if ty = ''CARD_CLICKED'' then action_event m b act
           else if ty = ''WIDGET_UPDATED'' then
             (if snd (snd act) = [] then invalid
              else Inr (make_event b (WidgetUpdatedEvent (function_event act))))
           else if ty = ''APP_COMMAND'' then app_command_event m b
           else bind_res (require_actor_space b)
                  (\<lambda>_. Inr (make_event b (FormSubmitEvent (function_event act))))))"

definition event_kwargs_of ::
    "(string \<Rightarrow> (time \<times> bool) option) \<Rightarrow> pydict \<Rightarrow> interaction_model \<Rightarrow> (pyexn, event_kwargs) result" where
  "event_kwargs_of fromiso r m =
     bind_res (timestamp fromiso (im_event_time m)) (\<lambda>t.
     let sp = (case im_space m of Some s \<Rightarrow> Some s | None \<Rightarrow> Option.bind (im_message m) mm_space)
     in bind_res (dialog_of (im_is_dialog m) (im_dialog_type m)) (\<lambda>dlg.
        Inr \<lparr> kw_raw = r, kw_event_time = t,
              kw_actor = (case im_user m of Some u \<Rightarrow> Some u | None \<Rightarrow> Option.bind (im_message m) mm_sender),
              kw_space = sp,
              kw_thread = thread_of
                (case im_thread m of Some x \<Rightarrow> Some x | None \<Rightarrow> Option.bind (im_message m) mm_thread) sp,
              kw_dialog = dlg,
              kw_locale = Option.bind (im_common m) cm_locale,
              kw_timezone = Option.bind (im_common m) cm_time_zone \<rparr>))"

definition parse_interaction ::
    "(pydict \<Rightarrow> interaction_model option) \<Rightarrow> (string \<Rightarrow> (time \<times> bool) option) \<Rightarrow> pyval
     \<Rightarrow> (pyexn, event) result" where
  "parse_interaction validate fromiso payload =
     bind_res (normalize_envelope payload) (\<lambda>env.
       case validate (env_event env) of
         None \<Rightarrow> invalid
       | Some m \<Rightarrow>
           if im_type m \<in> {''UNSPECIFIED'', ''TYPE_UNSPECIFIED''} then invalid
           else bind_res (event_kwargs_of fromiso (env_raw env) m) (typed_event m))"

section \<open>Failures\<close>

text \<open>An adapter failure is an instance of \<open>GoogleInteractionError\<close>.\<close>

definition adapter_failure :: "pyexn \<Rightarrow> bool" where
  "adapter_failure x \<longleftrightarrow> issubclass (exn_cls x) (Wire GoogleInteractionError)"

lemma adapter_failure_exn [simp]:
  "adapter_failure (exn (Wire InvalidInteractionPayload))"
  "adapter_failure (exn (Wire ConflictingEnvelopeError))"
  "adapter_failure (exn (Wire UnsupportedEnvelopeError))"
  "\<not> adapter_failure (exn (Py ValueErr))"
  by (simp_all add: adapter_failure_def issubclass_def eval_nat_numeral)

text \<open>\<open>raises_only P r\<close>: every exception the computation ends with satisfies \<open>P\<close>.\<close>

definition raises_only :: "(pyexn \<Rightarrow> bool) \<Rightarrow> (pyexn, 'a) result \<Rightarrow> bool" where
  "raises_only P r \<longleftrightarrow> (\<forall>e. r = Inl e \<longrightarrow> P e)"

named_theorems raises \<open>which exceptions an operation raises\<close>

lemma raises_Inr [raises, simp]: "raises_only P (Inr x)"
  by (simp add: raises_only_def)

lemma raises_bind [raises]:
  "raises_only P r \<Longrightarrow> (\<And>x. raises_only P (f x)) \<Longrightarrow> raises_only P (bind_res r f)"
  by (cases r) (auto simp: raises_only_def)

lemma raises_wire [raises, simp]:
  "raises_only adapter_failure invalid" "raises_only adapter_failure conflicting"
  "raises_only adapter_failure unsupported"
  by (simp_all add: raises_only_def invalid_def conflicting_def unsupported_def)

lemma raises_weaken: "raises_only P r \<Longrightarrow> (\<And>x. P x \<Longrightarrow> Q x) \<Longrightarrow> raises_only Q r"
  by (auto simp: raises_only_def)

lemma raises_traverse: "(\<And>x. x \<in> set xs \<Longrightarrow> raises_only P (f x)) \<Longrightarrow> raises_only P (traverse f xs)"
  by (auto simp: raises_only_def dest: traverse_Inl_elem)

lemma raises_merge_outer [raises]: "raises_only adapter_failure (merge_outer d ev)"
  by (induction d ev rule: merge_outer.induct) (auto simp: Let_def split: option.split)

lemma raises_envelope_event [raises]: "raises_only adapter_failure (envelope_event r)"
  by (cases "obj_get r ''chat''") (simp_all add: envelope_event_def raises)

lemma raises_join_common [raises]: "raises_only adapter_failure (join_common r ev)"
  by (simp add: join_common_def Let_def)

lemma raises_envelope [raises]: "raises_only adapter_failure (normalize_envelope payload)"
  by (cases payload) (simp_all add: normalize_envelope_def raises)

text \<open>The strings \<open>isdigit\<close> accepts and \<open>int\<close> refuses.\<close>

definition digits_not_int :: "string \<Rightarrow> bool" where
  "digits_not_int s \<longleftrightarrow> py_isdigit s \<and> py_int s = None"

definition odd_input :: "pyval \<times> pyval \<Rightarrow> bool" where
  "odd_input wv \<longleftrightarrow>
     (case snd wv of
        PDict d \<Rightarrow>
          list_ex (\<lambda>k. case obj_get d k of
              PDict b \<Rightarrow> (case obj_get b ''msSinceEpoch'' of PStr s \<Rightarrow> digits_not_int s | _ \<Rightarrow> False)
            | _ \<Rightarrow> False) [''dateInput'', ''dateTimeInput'']
      | _ \<Rightarrow> False)"

text \<open>An adapter failure, or the plain \<open>ValueError\<close> of \<open>int\<close> when \<open>q\<close> says such a string is there.\<close>

definition form_failure :: "bool \<Rightarrow> pyexn \<Rightarrow> bool" where
  "form_failure q x \<longleftrightarrow> adapter_failure x \<or> q \<and> exn_cls x = Py ValueErr"

lemma raises_form: "raises_only adapter_failure r \<Longrightarrow> raises_only (form_failure q) r"
  by (erule raises_weaken) (simp add: form_failure_def)

lemma raises_epoch:
  "raises_only (form_failure (case obj_get b ''msSinceEpoch'' of PStr s \<Rightarrow> digits_not_int s | _ \<Rightarrow> False)) (epoch b)"
  by (auto simp: epoch_def digits_not_int_def form_failure_def raises_only_def invalid_def
      split: pyval.splits option.splits if_splits)

lemma raises_optional_bool [raises]: "raises_only adapter_failure (optional_bool b k)"
  by (cases "obj_get b k") (simp_all add: optional_bool_def)

lemma raises_parse_value:
  assumes "obj_get d kind = PDict b"
  shows "raises_only (form_failure (odd_input (w, PDict d))) (parse_value kind b)"
proof -
  let ?P = "form_failure (odd_input (w, PDict d))"
  have ep: "raises_only ?P (epoch b)" if "kind = ''dateInput'' \<or> kind = ''dateTimeInput''"
    using that assms by (intro raises_weaken [OF raises_epoch]) (auto simp: form_failure_def odd_input_def)
  have inv: "raises_only ?P invalid" by (simp add: raises_form)
  have ob: "raises_only ?P (optional_bool b k)" for k by (simp add: raises_form raises)
  have si: "raises_only ?P (parse_value ''stringInputs'' b)"
    by (cases "obj_get b ''value''") (simp_all add: parse_value_def inv split: option.split)
  have ti: "raises_only ?P (case (h, m) of
        (PInt h, PInt m) \<Rightarrow> if 0 \<le> h \<and> h \<le> 23 \<and> 0 \<le> m \<and> m \<le> 59 then Inr (TimeInput h m) else invalid
      | _ \<Rightarrow> invalid)" for h m
    by (cases h; cases m) (simp_all add: inv)
  consider "kind = ''stringInputs''" | "kind = ''dateInput''" | "kind = ''dateTimeInput''"
    | "kind \<noteq> ''stringInputs''" "kind \<noteq> ''dateInput''" "kind \<noteq> ''dateTimeInput''" by blast
  then show ?thesis
  proof cases
    case 1
    with si show ?thesis by simp
  next
    case 2
    with ep show ?thesis by (simp add: parse_value_def raises_bind)
  next
    case 3
    with ep ob show ?thesis by (simp add: parse_value_def raises_bind)
  next
    case 4
    with ti show ?thesis by (simp add: parse_value_def)
  qed
qed

lemma raises_form_input: "raises_only (form_failure (odd_input wv)) (parse_form_input (fst wv) (snd wv))"
proof -
  have one: "raises_only (form_failure (odd_input (PStr w, PDict d)))
      (case obj_get d kind of PDict b \<Rightarrow> bind_res (parse_value kind b) (\<lambda>x. Inr (w, x)) | _ \<Rightarrow> invalid)" for w d kind
    by (cases "obj_get d kind") (simp_all add: raises_form raises_bind raises_parse_value)
  have "raises_only (form_failure (odd_input (PStr w, PDict d))) (parse_form_input (PStr w) (PDict d))" for w d
    by (simp add: parse_form_input_def one raises_form split: list.split)
  moreover have "parse_form_input (fst wv) (snd wv) = invalid"
    if "\<And>w d. wv \<noteq> (PStr w, PDict d)"
    using that by (cases wv; cases "fst wv"; cases "snd wv") (auto simp: parse_form_input_def)
  ultimately show ?thesis by (metis fst_conv snd_conv raises_form raises_wire(1))
qed

lemma raises_form_inputs: "raises_only (form_failure (list_ex odd_input d)) (parse_form_inputs d)"
proof -
  have "raises_only (form_failure (list_ex odd_input d)) (parse_form_input w v)" if "(w, v) \<in> set d" for w v
    using raises_form_input [of "(w, v)"] that
    by (auto elim!: raises_weaken simp: form_failure_def list_ex_iff)
  then show ?thesis unfolding parse_form_inputs_def
    by (intro raises_bind raises_traverse) auto
qed

lemma raises_fallback [raises]: "raises_only adapter_failure (fallback_params ps acc)"
  by (induction ps acc rule: fallback_params.induct) auto

definition odd_model :: "interaction_model \<Rightarrow> bool" where
  "odd_model m \<longleftrightarrow> list_ex odd_input (case im_common m of Some c \<Rightarrow> cm_form_inputs c | None \<Rightarrow> [])"

lemma raises_common_action: "raises_only (form_failure (odd_model m)) (common_action m)"
  unfolding common_action_def Let_def odd_model_def
  by (intro raises_bind raises_form_inputs)
    (auto intro!: raises raises_form split: option.split)

text \<open>The kind and the source kind the parser passes never disagree, so \<open>CommandEvent\<close> accepts them.\<close>

lemma command_init_parsed:
  "command_init c = Inr c" if "cmd_kind c = None \<or> source_kind c = map_option kind_value (cmd_kind c)"
  using that by (cases "cmd_kind c") (auto simp: command_init_def)

lemma app_command_kind_value: "app_command_kind s = Some k \<Longrightarrow> s = kind_value k"
  by (auto simp: app_command_kind_def split: if_splits)

lemma raises_slash [raises]: "raises_only adapter_failure (slash_command_event msg sl b)"
  by (auto simp: slash_command_event_def command_init_parsed split: option.split)

lemma raises_message_event [raises]: "raises_only adapter_failure (message_event m b)"
  by (auto simp: message_event_def intro!: raises split: option.split)

lemma raises_app_command [raises]: "raises_only adapter_failure (app_command_event m b)"
proof -
  have "command_init c = Inr c" if "cmd_kind c = app_command_kind ty" "source_kind c = Some ty" for c ty
    using that by (intro command_init_parsed) (cases "app_command_kind ty"; auto dest: app_command_kind_value)
  then show ?thesis by (auto simp: app_command_event_def split: option.split)
qed

lemma raises_require [raises]: "raises_only adapter_failure (require_actor_space b)"
  by (simp add: require_actor_space_def)

lemma raises_typed_event: "raises_only (form_failure (odd_model m)) (typed_event m b)"
proof -
  let ?P = "form_failure (odd_model m)"
  have req: "raises_only ?P (bind_res (require_actor_space b) (\<lambda>_. Inr x))" for x :: event
    by (intro raises_bind raises_form [OF raises_require]) simp
  have msg: "raises_only ?P (message_event m b)" by (rule raises_form [OF raises_message_event])
  have act: "raises_only ?P (action_event m b a)" for a
    by (simp add: action_event_def raises_form split: prod.split)
  have cmd: "raises_only ?P (app_command_event m b)" by (rule raises_form [OF raises_app_command])
  have inv: "raises_only ?P invalid" by (simp add: raises_form)
  show ?thesis unfolding typed_event_def Let_def
    by (simp add: req msg act cmd inv raises_bind raises_common_action)
qed

lemma raises_timestamp: "raises_only adapter_failure (timestamp fromiso v)"
  by (simp add: timestamp_def split: option.split prod.split)

lemma raises_dialog: "raises_only adapter_failure (dialog_of d ty)"
  by (simp add: dialog_of_def split: option.split)

lemma raises_kwargs [raises]: "raises_only adapter_failure (event_kwargs_of fromiso r m)"
  unfolding event_kwargs_of_def Let_def by (intro raises_bind raises_timestamp raises_dialog raises_Inr)

lemma adapter_exception: "adapter_failure x \<Longrightarrow> is_exception (exn_cls x)"
proof (cases "exn_cls x")
  case (Fw e)
  then show "adapter_failure x \<Longrightarrow> ?thesis"
    by (cases e) (simp_all add: adapter_failure_def issubclass_def eval_nat_numeral)
next
  case (Py e)
  then show "adapter_failure x \<Longrightarrow> ?thesis"
    by (cases e) (simp_all add: adapter_failure_def issubclass_def eval_nat_numeral)
qed simp_all

text \<open>Every failure of the parser is an adapter failure or the plain \<open>ValueError\<close>.\<close>

lemma parse_failures_base:
  "raises_only (form_failure True) (parse_interaction validate fromiso payload)"
proof -
  have "raises_only (form_failure True) (typed_event m b)" for m b
    by (rule raises_weaken [OF raises_typed_event]) (auto simp: form_failure_def)
  then have "raises_only (form_failure True)
      (case validate (env_event env) of None \<Rightarrow> invalid
       | Some m \<Rightarrow> if im_type m \<in> {''UNSPECIFIED'', ''TYPE_UNSPECIFIED''} then invalid
           else bind_res (event_kwargs_of fromiso (env_raw env) m) (typed_event m))" for env
    by (cases "validate (env_event env)") (simp_all add: raises_form raises_bind raises)
  then show ?thesis unfolding parse_interaction_def
    by (intro raises_bind raises_form [OF raises_envelope])
qed

lemma parse_exception: "parse_interaction validate fromiso payload = Inl x \<Longrightarrow> is_exception (exn_cls x)"
  using parse_failures_base [of validate fromiso payload]
  by (auto simp: raises_only_def form_failure_def adapter_exception)

section \<open>Properties of the adapter\<close>

text \<open>C23. Whatever the payload, the validator and the time stamp reader, parsing either gives an event or
  raises an instance of \<open>GoogleInteractionError\<close>, with one exception: a plain \<open>ValueError\<close> escapes, and
  only when a date input of the validated model has a \<open>msSinceEpoch\<close> string that \<open>isdigit\<close> accepts and
  \<open>int\<close> refuses.\<close>

theorem parse_failures:
  "case parse_interaction validate fromiso payload of
     Inr e \<Rightarrow> True
   | Inl x \<Rightarrow> adapter_failure x
       \<or> exn_cls x = Py ValueErr
         \<and> (\<exists>env m. normalize_envelope payload = Inr env \<and> validate (env_event env) = Some m \<and> odd_model m)"
proof (cases "normalize_envelope payload")
  case (Inl x)
  with raises_envelope [of payload] show ?thesis
    by (simp add: parse_interaction_def raises_only_def)
next
  case env: (Inr env)
  show ?thesis
  proof (cases "validate (env_event env)")
    case None
    with env show ?thesis by (simp add: parse_interaction_def invalid_def)
  next
    case (Some m)
    have "raises_only (form_failure (odd_model m))
        (bind_res (event_kwargs_of fromiso (env_raw env) m) (typed_event m))"
      by (intro raises_bind raises_form [OF raises_kwargs] raises_typed_event)
    with env Some show ?thesis
      by (auto simp: parse_interaction_def raises_only_def form_failure_def invalid_def split: sum.split)
  qed
qed

text \<open>The payload of a date input that carries the superscript two.\<close>

definition superscript_payload :: pyval where
  "superscript_payload = PDict [(PStr ''type'', PStr ''CARD_CLICKED'')]"

definition superscript_model :: interaction_model where
  "superscript_model =
     \<lparr> im_type = ''CARD_CLICKED'', im_event_time = None, im_message = None, im_user = None, im_thread = None,
       im_space = None, im_action = None, im_is_dialog = None, im_dialog_type = None,
       im_common = Some
         \<lparr> cm_locale = None, cm_time_zone = None,
           cm_form_inputs = [(PStr ''due'',
             PDict [(PStr ''dateInput'', PDict [(PStr ''msSinceEpoch'', PStr [char_of (178 :: nat)])])])],
           cm_parameters = [], cm_function = Some ''save'' \<rparr>,
       im_command = None \<rparr>"

text \<open>The exception is real: a card click whose date input carries the superscript two leaves the
  parser with a plain \<open>ValueError\<close>, which no handler of \<open>GoogleInteractionError\<close> catches.\<close>

theorem superscript_epoch_escapes:
  "parse_interaction (\<lambda>_. Some superscript_model) fromiso superscript_payload = Inl (exn (Py ValueErr))
   \<and> \<not> adapter_failure (exn (Py ValueErr))"
proof -
  have strip: "py_strip [char_of (178 :: nat)] = [char_of (178 :: nat)]"
    by (rule py_strip_id) (simp add: is_space_char_def Let_def)
  have num: "py_int [char_of (178 :: nat)] = None"
    unfolding py_int_def strip by (simp add: int_unsigned_def is_decimal_char_def Let_def)
  have dig: "py_isdigit [char_of (178 :: nat)]"
    by (simp add: py_isdigit_def is_digit_char_def)
  have "common_action superscript_model = Inl (exn (Py ValueErr))"
    by (simp add: common_action_def superscript_model_def parse_form_inputs_def parse_form_input_def
        known_inputs_def dict_has_def obj_get_def parse_value_def epoch_def num dig)
  then have "typed_event superscript_model b = Inl (exn (Py ValueErr))" for b
    by (simp add: typed_event_def superscript_model_def known_types_def)
  then show ?thesis
    by (simp add: parse_interaction_def superscript_payload_def normalize_envelope_def envelope_event_def
        join_common_def obj_get_def del_key_def event_kwargs_of_def timestamp_def dialog_of_def Let_def)
      (simp add: superscript_model_def timestamp_def dialog_of_def)
qed

definition event_table :: "(string \<times> string) list" where
  "event_table =
     [(''MESSAGE'', ''message''), (''MESSAGE'', ''command''), (''ADDED_TO_SPACE'', ''added_to_space''),
      (''REMOVED_FROM_SPACE'', ''removed_from_space''), (''CARD_CLICKED'', ''action''),
      (''WIDGET_UPDATED'', ''widget_updated''), (''APP_COMMAND'', ''command''), (''APP_HOME'', ''app_home''),
      (''SUBMIT_FORM'', ''form_submit'')]"

definition kind_agrees :: "command_body \<Rightarrow> bool" where
  "kind_agrees c \<longleftrightarrow> (case cmd_kind c of None \<Rightarrow> True | Some k \<Rightarrow> source_kind c = Some (kind_value k))"

definition well_formed_event :: "interaction_model \<Rightarrow> event \<Rightarrow> bool" where
  "well_formed_event m e \<longleftrightarrow>
     (if im_type m \<in> set known_types then (im_type m, body_type (body e)) \<in> set event_table
      else body e = UnknownEvent (im_type m)) \<and>
     (if im_type m \<in> {''ADDED_TO_SPACE'', ''REMOVED_FROM_SPACE'', ''APP_HOME'', ''SUBMIT_FORM''}
      then actor e \<noteq> None \<and> ev_space e \<noteq> None else True) \<and>
     (case body e of
        ActionEvent a \<Rightarrow> action_name a \<noteq> []
      | WidgetUpdatedEvent f \<Rightarrow> function_name f \<noteq> []
      | CommandEvent c \<Rightarrow> kind_agrees c
      | _ \<Rightarrow> True)"

lemma require_Inr: "require_actor_space b = Inr u \<longleftrightarrow> kw_actor b \<noteq> None \<and> kw_space b \<noteq> None"
  by (auto simp: require_actor_space_def invalid_def)

lemma make_event_sel [simp]:
  "body (make_event b bd) = bd" "actor (make_event b bd) = kw_actor b" "ev_space (make_event b bd) = kw_space b"
  "raw (make_event b bd) = PDict (kw_raw b)" "dialog (make_event b bd) = kw_dialog b"
  by (simp_all add: make_event_def)

lemma not_invalid [simp]: "invalid \<noteq> Inr x" "Inr x \<noteq> invalid"
  by (simp_all add: invalid_def)

lemma slash_event_body:
  "slash_command_event msg sl b = Inr e \<Longrightarrow>
   \<exists>c. e = make_event b (CommandEvent c) \<and> kind_agrees c"
  by (force simp: slash_command_event_def command_init_parsed kind_agrees_def split: option.splits)

lemma message_event_body:
  "message_event m b = Inr e \<Longrightarrow>
   (\<exists>t. e = make_event b (MessageEvent t)) \<or>
   (\<exists>c. e = make_event b (CommandEvent c) \<and> kind_agrees c)"
  by (auto simp: message_event_def split: option.splits dest!: slash_event_body)

lemma app_command_body:
  assumes "app_command_event m b = Inr e"
  shows "\<exists>c. e = make_event b (CommandEvent c) \<and> kind_agrees c"
proof -
  have ok: "kind_agrees c" and "command_init c = Inr c"
    if "cmd_kind c = app_command_kind ty" "source_kind c = Some ty" for c ty
    using that
    by (cases "app_command_kind ty"; auto simp: kind_agrees_def dest: app_command_kind_value)
      (use that in \<open>intro command_init_parsed; cases "app_command_kind ty"; auto dest: app_command_kind_value\<close>)
  then obtain c ty where "e = make_event b (CommandEvent c)" "cmd_kind c = app_command_kind ty"
    "source_kind c = Some ty"
    using assms by (auto simp: app_command_event_def simp del: make_event_sel split: option.splits)
  with ok show ?thesis by blast
qed

lemma action_event_body:
  "action_event m b act = Inr e \<Longrightarrow> \<exists>a. e = make_event b (ActionEvent a) \<and> action_name a \<noteq> []"
  by (auto simp: action_event_def split: prod.splits if_splits)

lemma typed_event_well_formed:
  assumes e: "typed_event m b = Inr e"
  shows "well_formed_event m e"
proof (cases "im_type m \<in> set known_types")
  case False
  with e have "e = make_event b (UnknownEvent (im_type m))" by (simp add: typed_event_def)
  with False show ?thesis by (auto simp: well_formed_event_def known_types_def)
next
  case True
  then consider "im_type m = ''MESSAGE''" | "im_type m = ''ADDED_TO_SPACE''"
    | "im_type m = ''REMOVED_FROM_SPACE''" | "im_type m = ''CARD_CLICKED''" | "im_type m = ''WIDGET_UPDATED''"
    | "im_type m = ''APP_COMMAND''" | "im_type m = ''APP_HOME''" | "im_type m = ''SUBMIT_FORM''"
    by (auto simp: known_types_def)
  then show ?thesis
  proof cases
    case 1
    with e True show ?thesis
      by (auto simp: typed_event_def well_formed_event_def event_table_def dest!: message_event_body)
  next
    case 4
    with e True show ?thesis
      by (auto simp: typed_event_def well_formed_event_def event_table_def bind_res_Inr_iff
          dest!: action_event_body)
  next
    case 5
    with e True show ?thesis
      by (auto simp: typed_event_def well_formed_event_def event_table_def bind_res_Inr_iff function_event_def
          split: if_splits)
  next
    case 6
    with e True show ?thesis
      by (auto simp: typed_event_def well_formed_event_def event_table_def bind_res_Inr_iff
          dest!: app_command_body)
  qed (use e True in \<open>auto simp: typed_event_def well_formed_event_def event_table_def bind_res_Inr_iff
          require_Inr\<close>)
qed

lemma event_kwargs_raw: "event_kwargs_of fromiso r m = Inr b \<Longrightarrow> kw_raw b = r"
  by (auto simp: event_kwargs_of_def Let_def bind_res_Inr_iff)

lemma event_kwargs_dialog:
  "event_kwargs_of fromiso r m = Inr b \<Longrightarrow>
   kw_dialog b = map_option (\<lambda>s. \<lparr> dialog_event_type = dialog_type_of s, is_dialog_event = True \<rparr>) (im_dialog_type m)"
  by (auto simp: event_kwargs_of_def Let_def bind_res_Inr_iff dialog_of_def split: option.splits if_splits)

lemma typed_event_kwargs:
  "typed_event m b = Inr e \<Longrightarrow> raw e = PDict (kw_raw b) \<and> dialog e = kw_dialog b"
  by (auto simp: typed_event_def Let_def bind_res_Inr_iff
      dest!: message_event_body action_event_body app_command_body split: if_splits)

text \<open>C35. What a parsed event is: its class follows the declared type (a slash command arrives as a
  \<open>MESSAGE\<close>), an undocumented type is kept in an \<open>UnknownEvent\<close>; membership, home and form events have an
  actor and a space; an event has dialog metadata exactly when a dialog type was sent, and the flag is then
  set; clicks and widget updates name a function; a command's kind and source kind name the same family, and
  the raw data is the normalized copy of the payload.\<close>

theorem parsed_event_kind:
  "case parse_interaction validate fromiso payload of
     Inl x \<Rightarrow> True
   | Inr e \<Rightarrow>
       \<exists>env m. normalize_envelope payload = Inr env \<and> validate (env_event env) = Some m
         \<and> well_formed_event m e \<and> raw e = PDict (env_raw env)
         \<and> dialog e = map_option (\<lambda>s. \<lparr> dialog_event_type = dialog_type_of s, is_dialog_event = True \<rparr>)
                        (im_dialog_type m)"
proof (cases "parse_interaction validate fromiso payload")
  case (Inl x)
  then show ?thesis by simp
next
  case (Inr e)
  then obtain env m b where
    "normalize_envelope payload = Inr env" "validate (env_event env) = Some m"
    "event_kwargs_of fromiso (env_raw env) m = Inr b" "typed_event m b = Inr e"
    by (auto simp: parse_interaction_def bind_res_Inr_iff split: option.splits if_splits)
  with Inr show ?thesis
    by (auto simp: typed_event_well_formed event_kwargs_raw event_kwargs_dialog dest!: typed_event_kwargs)
qed

text \<open>The two envelope families are one: the wrapped form \<open>{chat: e, commonEventObject: c}\<close> and the
  direct form \<open>{...e, common: c}\<close> of the same interaction normalize to the same event.\<close>

theorem wrapped_is_direct:
  assumes "obj_get ev ''type'' \<noteq> PNone" and "obj_get ev ''chat'' = PNone"
    and "\<not> dict_has ev (PStr ''common'')" and "\<not> dict_has ev (PStr ''commonEventObject'')"
    and "list_all (\<lambda>(k, v). \<exists>s. k = PStr s) ev"
  shows "map_sum id env_event
      (normalize_envelope (PDict [(PStr ''commonEventObject'', PDict c), (PStr ''chat'', PDict ev)]))
    = map_sum id env_event (normalize_envelope (PDict (ev @ [(PStr ''common'', PDict c)])))
    \<and> (\<exists>env. normalize_envelope (PDict (ev @ [(PStr ''common'', PDict c)])) = Inr env)"
proof -
  have get: "obj_get (ev @ [(PStr ''common'', PDict c)]) k = (if k = ''common'' then PDict c else obj_get ev k)" for k
    using assms(3) by (auto simp: obj_get_def dict_get_def dict_has_def map_add_def split: option.split)
  have fresh: "PStr ''common'' \<notin> fst ` set ev" "PStr ''commonEventObject'' \<notin> fst ` set ev"
    using assms(3,4) by (simp_all add: dict_has_def dict_get_None_iff)
  have noce: "obj_get ev ''commonEventObject'' = PNone" "obj_get ev ''common'' = PNone"
    using assms(3,4) by (simp_all add: obj_get_def dict_has_def)
  have del: "del_key ''commonEventObject'' (ev @ [(PStr ''common'', PDict c)]) = ev @ [(PStr ''common'', PDict c)]"
    using fresh(2) by (force simp: del_key_def filter_id_conv)
  have wrapped: "normalize_envelope (PDict [(PStr ''commonEventObject'', PDict c), (PStr ''chat'', PDict ev)])
      = Inr \<lparr> env_event = ev @ [(PStr ''common'', PDict c)],
              env_raw = [(PStr ''commonEventObject'', PDict c), (PStr ''chat'', PDict ev)] \<rparr>"
    using assms(1) noce fresh(1)
    by (simp add: normalize_envelope_def envelope_event_def join_common_def is_mapping_def dict_set_fresh)
      (simp add: obj_get_def dict_has_def is_mapping_def dict_set_fresh)
  have direct: "normalize_envelope (PDict (ev @ [(PStr ''common'', PDict c)]))
      = Inr \<lparr> env_event = ev @ [(PStr ''common'', PDict c)], env_raw = ev @ [(PStr ''common'', PDict c)] \<rparr>"
    using assms(1,2,5) noce
    by (simp add: normalize_envelope_def envelope_event_def join_common_def get del is_mapping_def)
  from wrapped direct show ?thesis by simp
qed

lemma wrapped_is_direct_witness:
  "\<exists>env. normalize_envelope (PDict ([(PStr ''type'', PStr ''MESSAGE'')] @ [(PStr ''common'', PDict [])])) = Inr env"
  using wrapped_is_direct [of "[(PStr ''type'', PStr ''MESSAGE'')]" "[]"]
  by (simp add: obj_get_def dict_has_def)

end
