(* ===== verification/PubSub.thy ===== *)
theory PubSub
  imports Adapter
begin

text \<open>
  The push ingress of Pub/Sub (\<open>transports/pubsub.py\<close>) and the verification of incoming requests
  (\<open>transports/http/verifier.py\<close>, \<open>transports/http/request.py\<close>). Strict base64 decoding is modelled on
  bytes as characters; \<open>json.loads\<close> is the argument \<open>loads\<close>, which gives nothing for text that is not JSON;
  the token checks of google-auth are arguments that give the claims of a token or raise.
\<close>

section \<open>Base64\<close>

definition b64_alphabet :: string where
  "b64_alphabet = ''ABCDEFGHIJKLMNOPQRSTUVWXYZabcdefghijklmnopqrstuvwxyz0123456789+/''"

fun position :: "'a \<Rightarrow> 'a list \<Rightarrow> nat option" where
  "position x [] = None"
| "position x (y # ys) = (if x = y then Some 0 else map_option Suc (position x ys))"

definition b64_value :: "char \<Rightarrow> nat option" where
  "b64_value c = position c b64_alphabet"

text \<open>Four characters hold three bytes; the last group may be padded.\<close>

definition b64_last :: "char \<Rightarrow> char \<Rightarrow> char \<Rightarrow> char \<Rightarrow> string option" where
  "b64_last a b c d =
     (case (b64_value a, b64_value b) of
        (Some x, Some y) \<Rightarrow>
          (case (b64_value c, b64_value d) of
             (Some z, Some u) \<Rightarrow>
               Some [char_of (4 * x + y div 16), char_of (16 * (y mod 16) + z div 4), char_of (64 * (z mod 4) + u)]
           | (Some z, None) \<Rightarrow>
               if d = CHR ''='' then Some [char_of (4 * x + y div 16), char_of (16 * (y mod 16) + z div 4)] else None
           | (None, _) \<Rightarrow> if c = CHR ''='' \<and> d = CHR ''='' then Some [char_of (4 * x + y div 16)] else None)
      | _ \<Rightarrow> None)"

fun b64decode :: "string \<Rightarrow> string option" where
  "b64decode [] = Some []"
| "b64decode [a, b, c, d] = b64_last a b c d"
| "b64decode (a # b # c # d # r) =
     (if d = CHR ''='' then None
      else (case (b64_last a b c d, b64decode r) of (Some x, Some y) \<Rightarrow> Some (x @ y) | _ \<Rightarrow> None))"
| "b64decode _ = None"

text \<open>The encoder of the publishing side, as the reference the decoder is measured against.\<close>

definition b64_char :: "nat \<Rightarrow> char" where
  "b64_char n = b64_alphabet ! n"

fun b64encode :: "string \<Rightarrow> string" where
  "b64encode [] = []"
| "b64encode [a] =
     (let x = of_char a in [b64_char (x div 4), b64_char (16 * (x mod 4)), CHR ''='', CHR ''=''])"
| "b64encode [a, b] =
     (let x = of_char a; y = of_char b
      in [b64_char (x div 4), b64_char (16 * (x mod 4) + y div 16), b64_char (4 * (y mod 16)), CHR ''=''])"
| "b64encode (a # b # c # r) =
     (let x = of_char a; y = of_char b; z = of_char c
      in b64_char (x div 4) # b64_char (16 * (x mod 4) + y div 16) # b64_char (4 * (y mod 16) + z div 64)
         # b64_char (z mod 64) # b64encode r)"

lemma b64_value_char: "n < 64 \<Longrightarrow> b64_value (b64_char n) = Some n"
proof -
  have "position (xs ! n) xs = Some n" if "distinct xs" "n < length xs" for xs :: string and n
    using that
  proof (induction xs arbitrary: n)
    case (Cons x xs)
    then show ?case by (cases n) auto
  qed simp
  moreover have "distinct b64_alphabet" by (simp add: b64_alphabet_def)
  moreover have "length b64_alphabet = 64" by (simp add: b64_alphabet_def)
  ultimately show "n < 64 \<Longrightarrow> b64_value (b64_char n) = Some n"
    by (simp add: b64_value_def b64_char_def)
qed

lemma b64_value_pad [simp]: "b64_value (CHR ''='') = None"
  by (simp add: b64_value_def b64_alphabet_def)

lemma b64_char_not_pad: "n < 64 \<Longrightarrow> b64_char n \<noteq> CHR ''=''"
  using b64_value_char [of n] by auto

lemma byte_bound [simp]: "(of_char c :: nat) < 256"
  by (cases c) (auto simp: of_char_Char intro: order_less_le_trans [OF horner_sum_of_bool_2_less])

lemma byte_div [simp]: "(of_char c :: nat) div 4 < 64" "(of_char c :: nat) div 16 < 16" "(of_char c :: nat) div 64 < 4"
  using byte_bound [of c] by (simp_all add: less_mult_imp_div_less)

lemma sextets:
  "16 * (x mod 4) + y div 16 < 64" "4 * (y mod 16) + z div 64 < 64" "4 * (y mod 16) < 64" "16 * (x mod 4) < 64"
  if "y < 256" "z < 256" for x y z :: nat
proof -
  have "y div 16 < 16" "z div 64 < 4" "x mod 4 < 4" "y mod 16 < 16"
    using that by (simp_all add: less_mult_imp_div_less)
  then show "16 * (x mod 4) + y div 16 < 64" "4 * (y mod 16) + z div 64 < 64" "4 * (y mod 16) < 64"
    "16 * (x mod 4) < 64" by linarith+
qed

lemma rejoin:
  "4 * (x div 4) + (16 * (x mod 4) + y div 16) div 16 = x"
  "16 * ((16 * (x mod 4) + y div 16) mod 16) + (4 * (y mod 16) + z div 64) div 4 = y"
  "64 * ((4 * (y mod 16) + z div 64) mod 4) + z mod 64 = z"
  if "y < 256" "z < 256" for x y z :: nat
proof -
  have q: "y div 16 < 16" "z div 64 < 4" using that by (simp_all add: less_mult_imp_div_less)
  have "(16 * (x mod 4) + y div 16) div 16 = x mod 4" "(16 * (x mod 4) + y div 16) mod 16 = y div 16"
    "(4 * (y mod 16) + z div 64) div 4 = y mod 16" "(4 * (y mod 16) + z div 64) mod 4 = z div 64"
    using q by simp_all
  then show "4 * (x div 4) + (16 * (x mod 4) + y div 16) div 16 = x"
    "16 * ((16 * (x mod 4) + y div 16) mod 16) + (4 * (y mod 16) + z div 64) div 4 = y"
    "64 * ((4 * (y mod 16) + z div 64) mod 4) + z mod 64 = z" by simp_all
qed

lemma group_three:
  "b64_last (b64_char (of_char a div 4)) (b64_char (16 * (of_char a mod 4) + of_char b div 16))
     (b64_char (4 * (of_char b mod 16) + of_char c div 64)) (b64_char (of_char c mod 64)) = Some [a, b, c]"
proof -
  note s = sextets [OF byte_bound byte_bound] and r = rejoin [OF byte_bound byte_bound]
  have v: "b64_value (b64_char (of_char a div 4)) = Some (of_char a div 4)"
    "b64_value (b64_char (16 * (of_char a mod 4) + of_char b div 16)) = Some (16 * (of_char a mod 4) + of_char b div 16)"
    "b64_value (b64_char (4 * (of_char b mod 16) + of_char c div 64)) = Some (4 * (of_char b mod 16) + of_char c div 64)"
    "b64_value (b64_char (of_char c mod 64)) = Some (of_char c mod 64)"
    by (rule b64_value_char, simp add: s)+
  show ?thesis unfolding b64_last_def v by (simp only: prod.case option.case r char_of_char)
qed

lemma b64decode_step:
  "d \<noteq> CHR ''='' \<Longrightarrow>
   b64decode (a # b # c # d # r) =
     (case (b64_last a b c d, b64decode r) of (Some x, Some y) \<Rightarrow> Some (x @ y) | _ \<Rightarrow> None)"
  by (cases r) (auto split: option.split)

lemma b64_round_trip: "b64decode (b64encode s) = Some s"
proof (induction s rule: b64encode.induct)
  case 1
  show ?case by simp
next
  case (2 a)
  show ?case
    using rejoin(1) [of 0 0 "of_char a"] sextets(4) [of 0 0 "of_char a"]
    by (simp add: Let_def b64_last_def b64_value_char)
next
  case (3 a b)
  show ?case
    using rejoin(1) [of "of_char b" 0 "of_char a"] rejoin(2) [of "of_char b" 0 "of_char a"]
      sextets(1) [of "of_char b" 0 "of_char a"] sextets(3) [of "of_char b" 0]
    by (simp add: Let_def b64_last_def b64_value_char)
next
  case (4 a b c r)
  then show ?case
    by (simp add: Let_def b64decode_step b64_char_not_pad group_three)
qed

section \<open>Push envelopes\<close>

definition bad_envelope :: "(pyexn, 'a) result" where
  "bad_envelope = Inl (exn (Wire PubSubEnvelopeError))"

text \<open>\<open>decode_message_data\<close>; a string of the payload with a character beyond ASCII is no base64 either.\<close>

definition decode_message_data ::
    "(string \<Rightarrow> pyval option) \<Rightarrow> pydict \<Rightarrow> (pyexn, pydict option) result" where
  "decode_message_data loads payload =
     (case obj_get payload ''message'' of
        PNone \<Rightarrow> Inr None
      | PDict m \<Rightarrow>
          (case obj_get m ''data'' of
             PStr s \<Rightarrow>
               (case b64decode s of
                  None \<Rightarrow> bad_envelope
                | Some bs \<Rightarrow>
                    (case loads bs of
                       Some (PDict inner) \<Rightarrow> Inr (Some inner)
                     | _ \<Rightarrow> bad_envelope))
           | _ \<Rightarrow> bad_envelope)
      | _ \<Rightarrow> bad_envelope)"

text \<open>\<open>PubSubPushAdapter.parse_envelope\<close>: the event keeps the whole envelope as its raw data.\<close>

definition with_raw :: "pyval \<Rightarrow> event \<Rightarrow> event" where
  "with_raw r e =
     Event (body e) r (event_time e) (actor e) (ev_space e) (ev_thread e) (dialog e) (ev_locale e) (ev_timezone e)"

definition parse_envelope ::
    "(string \<Rightarrow> pyval option) \<Rightarrow> (pyval \<Rightarrow> (pyexn, event) result) \<Rightarrow> pyval \<Rightarrow> (pyexn, event) result" where
  "parse_envelope loads parse payload =
     (case payload of
        PDict d \<Rightarrow>
          bind_res (decode_message_data loads d) (\<lambda>inner.
            case inner of
              None \<Rightarrow> bad_envelope
            | Some i \<Rightarrow> bind_res (parse (PDict i)) (\<lambda>e. Inr (with_raw (PDict d) e)))
      | _ \<Rightarrow> bad_envelope)"

section \<open>Requests and their verification\<close>

record incoming_request =
  rq_method :: string
  rq_path :: string
  rq_body :: string
  rq_headers :: "(string, string) pdict"

definition header :: "incoming_request \<Rightarrow> string \<Rightarrow> string option" where
  "header rq name = map_option snd (find (\<lambda>(k, v). py_lower k = py_lower name) (rq_headers rq))"

definition request_json :: "(string \<Rightarrow> pyval option) \<Rightarrow> incoming_request \<Rightarrow> (pyexn, pydict) result" where
  "request_json loads rq = (case loads (rq_body rq) of Some (PDict d) \<Rightarrow> Inr d | _ \<Rightarrow> invalid)"

definition unverified :: "(pyexn, 'a) result" where
  "unverified = Inl (exn (Wire VerificationError))"

definition extract_bearer :: "incoming_request \<Rightarrow> (pyexn, string) result" where
  "extract_bearer rq =
     (case header rq ''Authorization'' of
        None \<Rightarrow> unverified
      | Some h \<Rightarrow>
          (case (case py_partition '' '' h of Some p \<Rightarrow> p | None \<Rightarrow> (h, [])) of
             (scheme, token) \<Rightarrow>
               if py_lower scheme \<noteq> ''bearer'' \<or> py_strip token = [] then unverified
               else if list_ex is_space_char (py_strip token) then unverified
               else Inr (py_strip token)))"

definition chat_issuer :: string where
  "chat_issuer = ''chat@system.gserviceaccount.com''"

definition google_issuers :: "string list" where
  "google_issuers = [''accounts.google.com'', ''https://accounts.google.com'']"

text \<open>
  \<open>except (ValueError, GoogleAuthError)\<close>: a \<open>VerificationError\<close> passes through, another \<open>ValueError\<close>
  and the errors of google-auth (told by \<open>auth_error\<close>) become one.
\<close>

definition as_unverified :: "(exn_class \<Rightarrow> bool) \<Rightarrow> pyexn \<Rightarrow> pyexn" where
  "as_unverified auth_error x =
     (if exn_cls x = Wire VerificationError then x
      else if issubclass (exn_cls x) (Py ValueErr) \<or> auth_error (exn_cls x) then exn (Wire VerificationError)
      else x)"

definition issuer_in :: "pydict \<Rightarrow> string list \<Rightarrow> bool" where
  "issuer_in claims names \<longleftrightarrow> (case obj_get claims ''iss'' of PStr s \<Rightarrow> s \<in> set names | _ \<Rightarrow> False)"

definition validate_issuer :: "pydict \<Rightarrow> (pyexn, unit) result" where
  "validate_issuer claims =
     (if issuer_in claims [chat_issuer] then Inr ()
      else if issuer_in claims google_issuers \<and> obj_get claims ''email'' = PStr chat_issuer then Inr ()
      else unverified)"

text \<open>\<open>GoogleTokenVerifier.verify\<close>: \<open>oauth2\<close> and \<open>selfsigned\<close> are the two checks of google-auth, already
  given the audience.\<close>

definition verify_chat_token ::
    "(exn_class \<Rightarrow> bool) \<Rightarrow> (string \<Rightarrow> (pyexn, pydict) result) \<Rightarrow> (string \<Rightarrow> (pyexn, pydict) result)
     \<Rightarrow> string \<Rightarrow> incoming_request \<Rightarrow> (pyexn, unit) result" where
  "verify_chat_token auth_error oauth2 selfsigned audience rq =
     bind_res (extract_bearer rq) (\<lambda>token.
       map_sum (as_unverified auth_error) id
         (if py_startswith audience ''https://''
          then bind_res (oauth2 token) (\<lambda>claims.
                 if obj_get claims ''email'' \<noteq> PStr chat_issuer then unverified
                 else if obj_get claims ''email_verified'' \<noteq> PBool True then unverified
                 else Inr ())
          else bind_res (selfsigned token) validate_issuer))"

text \<open>\<open>GooglePubSubVerifier.verify\<close>; the claims are looked at outside the \<open>try\<close>.\<close>

definition verify_push_token ::
    "(exn_class \<Rightarrow> bool) \<Rightarrow> (string \<Rightarrow> (pyexn, pydict) result) \<Rightarrow> string \<Rightarrow> incoming_request \<Rightarrow> (pyexn, unit) result" where
  "verify_push_token auth_error check account rq =
     bind_res (extract_bearer rq) (\<lambda>token.
       bind_res (map_sum (as_unverified auth_error) id (check token)) (\<lambda>claims.
         if \<not> issuer_in claims google_issuers then unverified
         else if obj_get claims ''email_verified'' \<noteq> PBool True then unverified
         else if obj_get claims ''email'' \<noteq> PStr account then unverified
         else Inr ()))"

section \<open>Properties\<close>

text \<open>A push delivery carries any JSON object unharmed: whatever bytes the publisher encoded, the strict
  decoder gives them back, so an envelope around a JSON object is decoded to that object, and the event
  parsed from it keeps the whole envelope as its raw data.\<close>

theorem push_round_trip:
  "b64decode (b64encode bs) = Some bs \<and>
   decode_message_data loads [(PStr ''message'', PDict [(PStr ''data'', PStr (b64encode bs))])] =
     (case loads bs of Some (PDict d) \<Rightarrow> Inr (Some d) | _ \<Rightarrow> bad_envelope) \<and>
   (case parse_envelope loads parse (PDict [(PStr ''message'', PDict [(PStr ''data'', PStr (b64encode bs))])]) of
      Inr e \<Rightarrow>
        raw e = PDict [(PStr ''message'', PDict [(PStr ''data'', PStr (b64encode bs))])] \<and>
        (\<exists>d e'. loads bs = Some (PDict d) \<and> parse (PDict d) = Inr e' \<and> body e = body e')
    | Inl x \<Rightarrow>
        x = exn (Wire PubSubEnvelopeError) \<or> (\<exists>d. loads bs = Some (PDict d) \<and> parse (PDict d) = Inl x))"
proof -
  let ?env = "[(PStr ''message'', PDict [(PStr ''data'', PStr (b64encode bs))])]"
  have d: "decode_message_data loads ?env =
     (case loads bs of Some (PDict d) \<Rightarrow> Inr (Some d) | _ \<Rightarrow> bad_envelope)"
    by (simp add: decode_message_data_def obj_get_def b64_round_trip)
  show ?thesis
  proof (cases "\<exists>d. loads bs = Some (PDict d)")
    case True
    then obtain dd where l: "loads bs = Some (PDict dd)" by blast
    then show ?thesis
      by (cases "parse (PDict dd)") (simp_all add: b64_round_trip d parse_envelope_def with_raw_def)
  next
    case False
    then have "decode_message_data loads ?env = bad_envelope"
      unfolding d by (auto split: option.split pyval.split)
    then show ?thesis by (simp add: b64_round_trip d [symmetric] parse_envelope_def bad_envelope_def)
  qed
qed

lemma no_space_elem: "\<not> list_ex is_space_char s \<longleftrightarrow> list_all (\<lambda>c. \<not> is_space_char c) s"
  by (induction s) auto

lemma bearer_Inr: "extract_bearer rq = Inr tok \<Longrightarrow> list_all (\<lambda>c. \<not> is_space_char c) tok"
  unfolding extract_bearer_def unverified_def
  by (simp split: option.splits prod.splits if_splits) (metis no_space_elem)+

lemma bearer_Inl: "extract_bearer rq = Inl x \<Longrightarrow> x = exn (Wire VerificationError)"
  unfolding extract_bearer_def unverified_def
  by (simp split: option.splits prod.splits if_splits)

lemma as_unverified_idem [simp]: "as_unverified q (exn (Wire VerificationError)) = exn (Wire VerificationError)"
  by (simp add: as_unverified_def)

text \<open>C11. Verification fails closed. Both verifiers accept only with a bearer token free of white space that
  google-auth accepted and whose claims name the expected identity: the Chat service for interactions
  (by email with \<open>email_verified\<close>, or by issuer), the configured service account with a Google issuer and
  \<open>email_verified\<close> for push. When the check of google-auth raises one of its own errors or a \<open>ValueError\<close>,
  the request is refused with a \<open>VerificationError\<close>; the only other failures are what that check raised
  besides.\<close>

theorem verification_fails_closed:
  "(case verify_push_token auth_error check account rq of
      Inr u \<Rightarrow> (\<exists>tok claims. extract_bearer rq = Inr tok \<and> list_all (\<lambda>c. \<not> is_space_char c) tok \<and>
                check tok = Inr claims \<and> issuer_in claims google_issuers \<and>
                obj_get claims ''email_verified'' = PBool True \<and> obj_get claims ''email'' = PStr account)
    | Inl x \<Rightarrow> x = exn (Wire VerificationError)
        \<or> (\<exists>tok y. extract_bearer rq = Inr tok \<and> check tok = Inl y \<and> x = as_unverified auth_error y)) \<and>
   (case verify_chat_token auth_error oauth2 selfsigned audience rq of
      Inr u \<Rightarrow> (\<exists>tok claims. extract_bearer rq = Inr tok \<and> list_all (\<lambda>c. \<not> is_space_char c) tok \<and>
                (if py_startswith audience ''https://''
                 then oauth2 tok = Inr claims \<and> obj_get claims ''email'' = PStr chat_issuer \<and>
                      obj_get claims ''email_verified'' = PBool True
                 else selfsigned tok = Inr claims \<and>
                      (issuer_in claims [chat_issuer]
                       \<or> issuer_in claims google_issuers \<and> obj_get claims ''email'' = PStr chat_issuer)))
    | Inl x \<Rightarrow> x = exn (Wire VerificationError)
        \<or> (\<exists>tok y. extract_bearer rq = Inr tok \<and>
             (if py_startswith audience ''https://'' then oauth2 tok else selfsigned tok) = Inl y \<and>
             x = as_unverified auth_error y)) \<and>
   (if auth_error (exn_cls y) \<or> issubclass (exn_cls y) (Py ValueErr)
    then exn_cls (as_unverified auth_error y) = Wire VerificationError else as_unverified auth_error y = y)"
proof -
  have last: "if auth_error (exn_cls y) \<or> issubclass (exn_cls y) (Py ValueErr)
    then exn_cls (as_unverified auth_error y) = Wire VerificationError else as_unverified auth_error y = y"
    by (simp add: as_unverified_def)
  show ?thesis
  proof (cases "extract_bearer rq")
    case (Inl x)
    from bearer_Inl [OF Inl] Inl last show ?thesis
      by (simp add: verify_push_token_def verify_chat_token_def)
  next
    case (Inr tok)
    have push: "case verify_push_token auth_error check account rq of
        Inr u \<Rightarrow> (\<exists>claims. check tok = Inr claims \<and> issuer_in claims google_issuers \<and>
                  obj_get claims ''email_verified'' = PBool True \<and> obj_get claims ''email'' = PStr account)
      | Inl x \<Rightarrow> x = exn (Wire VerificationError) \<or> (\<exists>y. check tok = Inl y \<and> x = as_unverified auth_error y)"
      by (cases "check tok") (auto simp: verify_push_token_def Inr unverified_def)
    have one: "case map_sum (as_unverified auth_error) id (bind_res (oauth2 tok) (\<lambda>claims.
                 if obj_get claims ''email'' \<noteq> PStr chat_issuer then unverified
                 else if obj_get claims ''email_verified'' \<noteq> PBool True then unverified else Inr ())) of
        Inr u \<Rightarrow> (\<exists>claims. oauth2 tok = Inr claims \<and> obj_get claims ''email'' = PStr chat_issuer \<and>
                      obj_get claims ''email_verified'' = PBool True)
      | Inl x \<Rightarrow> x = exn (Wire VerificationError) \<or> (\<exists>y. oauth2 tok = Inl y \<and> x = as_unverified auth_error y)"
      by (cases "oauth2 tok") (auto simp: unverified_def)
    have two: "case map_sum (as_unverified auth_error) id (bind_res (selfsigned tok) validate_issuer) of
        Inr u \<Rightarrow> (\<exists>claims. selfsigned tok = Inr claims \<and> (issuer_in claims [chat_issuer]
                       \<or> issuer_in claims google_issuers \<and> obj_get claims ''email'' = PStr chat_issuer))
      | Inl x \<Rightarrow> x = exn (Wire VerificationError) \<or> (\<exists>y. selfsigned tok = Inl y \<and> x = as_unverified auth_error y)"
      by (cases "selfsigned tok") (auto simp: unverified_def validate_issuer_def)
    note tok = bearer_Inr [OF Inr]
    have chat: "verify_chat_token auth_error oauth2 selfsigned audience rq =
        map_sum (as_unverified auth_error) id
         (if py_startswith audience ''https://''
          then bind_res (oauth2 tok) (\<lambda>claims.
                 if obj_get claims ''email'' \<noteq> PStr chat_issuer then unverified
                 else if obj_get claims ''email_verified'' \<noteq> PBool True then unverified
                 else Inr ())
          else bind_res (selfsigned tok) validate_issuer)"
      by (simp only: verify_chat_token_def Inr bind_res_simps)
    show ?thesis
    proof (intro conjI last)
      show "case verify_push_token auth_error check account rq of
          Inr u \<Rightarrow> (\<exists>tok claims. extract_bearer rq = Inr tok \<and> list_all (\<lambda>c. \<not> is_space_char c) tok \<and>
                check tok = Inr claims \<and> issuer_in claims google_issuers \<and>
                obj_get claims ''email_verified'' = PBool True \<and> obj_get claims ''email'' = PStr account)
        | Inl x \<Rightarrow> x = exn (Wire VerificationError)
            \<or> (\<exists>tok y. extract_bearer rq = Inr tok \<and> check tok = Inl y \<and> x = as_unverified auth_error y)"
        using push tok Inr by (cases "verify_push_token auth_error check account rq") auto
    next
      show "case verify_chat_token auth_error oauth2 selfsigned audience rq of
          Inr u \<Rightarrow> (\<exists>tok claims. extract_bearer rq = Inr tok \<and> list_all (\<lambda>c. \<not> is_space_char c) tok \<and>
                (if py_startswith audience ''https://''
                 then oauth2 tok = Inr claims \<and> obj_get claims ''email'' = PStr chat_issuer \<and>
                      obj_get claims ''email_verified'' = PBool True
                 else selfsigned tok = Inr claims \<and>
                      (issuer_in claims [chat_issuer]
                       \<or> issuer_in claims google_issuers \<and> obj_get claims ''email'' = PStr chat_issuer)))
        | Inl x \<Rightarrow> x = exn (Wire VerificationError)
            \<or> (\<exists>tok y. extract_bearer rq = Inr tok \<and>
                 (if py_startswith audience ''https://'' then oauth2 tok else selfsigned tok) = Inl y \<and>
                 x = as_unverified auth_error y)"
      proof (cases "py_startswith audience ''https://''")
        case True
        show ?thesis unfolding chat if_P [OF True] using one tok Inr by (simp split: sum.splits)
      next
        case False
        show ?thesis unfolding chat if_not_P [OF False] using two tok Inr by (simp split: sum.splits)
      qed
    qed
  qed
qed

end
