(* ===== verification/Effects.thy ===== *)
theory Effects
  imports Exceptions
begin

text \<open>
  Asynchronous code with effects, for the components that talk to several services. A computation
  changes a state of three parts (what a store keeps, the outside world, what the component itself
  keeps) and ends with a value or an exception; every call it makes is noted in a trace, oldest first.
  \<open>emits\<close> is the judgement the proofs work with: what a computation can add to the trace, together with
  how it ends.
\<close>

section \<open>Computations\<close>

record ('e, 's, 'w, 'k) run_state =
  rs_store :: 's
  rs_world :: 'w
  rs_own :: 'k
  rs_trace :: "'e list"

type_synonym ('e, 's, 'w, 'k, 'a) io =
  "('e, 's, 'w, 'k) run_state \<Rightarrow> ('e, 's, 'w, 'k) run_state \<times> (pyexn, 'a) result"

definition ret :: "'a \<Rightarrow> ('e, 's, 'w, 'k, 'a) io" where
  "ret x s = (s, Inr x)"

definition throw :: "pyexn \<Rightarrow> ('e, 's, 'w, 'k, 'a) io" where
  "throw x s = (s, Inl x)"

definition bind_io :: "('e, 's, 'w, 'k, 'a) io \<Rightarrow> ('a \<Rightarrow> ('e, 's, 'w, 'k, 'b) io) \<Rightarrow> ('e, 's, 'w, 'k, 'b) io" where
  "bind_io m f s = (case m s of (s', Inl x) \<Rightarrow> (s', Inl x) | (s', Inr v) \<Rightarrow> f v s')"

definition then_io :: "('e, 's, 'w, 'k, 'a) io \<Rightarrow> ('e, 's, 'w, 'k, 'b) io \<Rightarrow> ('e, 's, 'w, 'k, 'b) io" where
  "then_io m n = bind_io m (\<lambda>_. n)"

text \<open>\<open>try: m except BaseException as x: h(x)\<close>; a handler re-raises what it does not catch.\<close>

definition catch_io :: "('e, 's, 'w, 'k, 'a) io \<Rightarrow> (pyexn \<Rightarrow> ('e, 's, 'w, 'k, 'a) io) \<Rightarrow> ('e, 's, 'w, 'k, 'a) io" where
  "catch_io m h s = (case m s of (s', Inl x) \<Rightarrow> h x s' | (s', Inr v) \<Rightarrow> (s', Inr v))"

text \<open>\<open>try: m finally: f\<close>; a failure of \<open>f\<close> replaces the outcome of \<open>m\<close>.\<close>

definition finally_io :: "('e, 's, 'w, 'k, 'a) io \<Rightarrow> ('e, 's, 'w, 'k, unit) io \<Rightarrow> ('e, 's, 'w, 'k, 'a) io" where
  "finally_io m f s =
     (case m s of (s1, r) \<Rightarrow> (case f s1 of (s2, Inl x) \<Rightarrow> (s2, Inl x) | (s2, Inr _) \<Rightarrow> (s2, r)))"

definition note_io :: "'e \<Rightarrow> ('e, 's, 'w, 'k, unit) io" where
  "note_io e s = (s\<lparr> rs_trace := rs_trace s @ [e] \<rparr>, Inr ())"

text \<open>A call to the store or to the outside, noted with how it ended.\<close>

definition store_call ::
    "('a \<Rightarrow> 'e) \<Rightarrow> (exn_class \<Rightarrow> 'e) \<Rightarrow> ('s \<Rightarrow> 's \<times> (pyexn, 'a) result) \<Rightarrow> ('e, 's, 'w, 'k, 'a) io" where
  "store_call good bad f s =
     (case f (rs_store s) of
        (st, Inr v) \<Rightarrow> (s\<lparr> rs_store := st, rs_trace := rs_trace s @ [good v] \<rparr>, Inr v)
      | (st, Inl x) \<Rightarrow> (s\<lparr> rs_store := st, rs_trace := rs_trace s @ [bad (exn_cls x)] \<rparr>, Inl x))"

definition world_call ::
    "('a \<Rightarrow> 'e) \<Rightarrow> (exn_class \<Rightarrow> 'e) \<Rightarrow> ('w \<Rightarrow> 'w \<times> (pyexn, 'a) result) \<Rightarrow> ('e, 's, 'w, 'k, 'a) io" where
  "world_call good bad f s =
     (case f (rs_world s) of
        (w, Inr v) \<Rightarrow> (s\<lparr> rs_world := w, rs_trace := rs_trace s @ [good v] \<rparr>, Inr v)
      | (w, Inl x) \<Rightarrow> (s\<lparr> rs_world := w, rs_trace := rs_trace s @ [bad (exn_cls x)] \<rparr>, Inl x))"

definition own_io :: "('k \<Rightarrow> 'k) \<Rightarrow> ('e, 's, 'w, 'k, unit) io" where
  "own_io f s = (s\<lparr> rs_own := f (rs_own s) \<rparr>, Inr ())"

lemmas io_defs = ret_def throw_def bind_io_def then_io_def catch_io_def finally_io_def note_io_def
  store_call_def world_call_def own_io_def

section \<open>What a computation emits\<close>

definition emits :: "('e, 's, 'w, 'k, 'a) io \<Rightarrow> ('e list \<Rightarrow> (pyexn, 'a) result \<Rightarrow> bool) \<Rightarrow> bool" where
  "emits m Q \<longleftrightarrow> (\<forall>s s' r. m s = (s', r) \<longrightarrow> (\<exists>t. rs_trace s' = rs_trace s @ t \<and> Q t r))"

named_theorems emits \<open>what the basic computations emit\<close>

lemma emitsE:
  assumes "emits m Q" and "m s = (s', r)"
  obtains t where "rs_trace s' = rs_trace s @ t" and "Q t r"
  using assms unfolding emits_def by blast

lemma emits_weaken: "emits m Q \<Longrightarrow> (\<And>t r. Q t r \<Longrightarrow> R t r) \<Longrightarrow> emits m R"
  unfolding emits_def by metis

lemma emits_ret [emits]: "emits (ret x) (\<lambda>t r. t = [] \<and> r = Inr x)"
  by (simp add: emits_def ret_def)

lemma emits_throw [emits]: "emits (throw x) (\<lambda>t r. t = [] \<and> r = Inl x)"
  by (simp add: emits_def throw_def)

lemma emits_note [emits]: "emits (note_io e) (\<lambda>t r. t = [e] \<and> r = Inr ())"
  by (simp add: emits_def note_io_def)

lemma emits_own [emits]: "emits (own_io f) (\<lambda>t r. t = [] \<and> r = Inr ())"
  by (simp add: emits_def own_io_def)

text \<open>A failure of a call satisfies whatever holds of every failure of the function called.\<close>

lemma emits_store:
  assumes "\<And>st st' x. f st = (st', Inl x) \<Longrightarrow> P x"
  shows "emits (store_call good bad f)
    (\<lambda>t r. (\<exists>v. r = Inr v \<and> t = [good v]) \<or> (\<exists>x. r = Inl x \<and> t = [bad (exn_cls x)] \<and> P x))"
  using assms by (auto simp: emits_def store_call_def split: prod.splits sum.splits)

lemma emits_world:
  assumes "\<And>w w' x. f w = (w', Inl x) \<Longrightarrow> P x"
  shows "emits (world_call good bad f)
    (\<lambda>t r. (\<exists>v. r = Inr v \<and> t = [good v]) \<or> (\<exists>x. r = Inl x \<and> t = [bad (exn_cls x)] \<and> P x))"
  using assms by (auto simp: emits_def world_call_def split: prod.splits sum.splits)

lemma emits_bind:
  assumes m: "emits m Q" and f: "\<And>v. emits (f v) (R v)"
  shows "emits (bind_io m f)
    (\<lambda>t r. (\<exists>x. r = Inl x \<and> Q t (Inl x)) \<or> (\<exists>v t1 t2. t = t1 @ t2 \<and> Q t1 (Inr v) \<and> R v t2 r))"
  unfolding emits_def
proof (intro allI impI)
  fix s s' r
  assume run: "bind_io m f s = (s', r)"
  obtain s1 r1 where ms: "m s = (s1, r1)" by (cases "m s")
  with m obtain t1 where t1: "rs_trace s1 = rs_trace s @ t1" "Q t1 r1" by (rule emitsE)
  show "\<exists>t. rs_trace s' = rs_trace s @ t \<and>
      ((\<exists>x. r = Inl x \<and> Q t (Inl x)) \<or> (\<exists>v t1 t2. t = t1 @ t2 \<and> Q t1 (Inr v) \<and> R v t2 r))"
  proof (cases r1)
    case (Inl x)
    with run ms t1 show ?thesis by (auto simp: bind_io_def)
  next
    case (Inr v)
    with run ms have "f v s1 = (s', r)" by (simp add: bind_io_def)
    with f [of v] obtain t2 where "rs_trace s' = rs_trace s1 @ t2" "R v t2 r" by (rule emitsE)
    with t1 Inr show ?thesis by (intro exI [of _ "t1 @ t2"]) auto
  qed
qed

lemma emits_then:
  assumes "emits m Q" and "emits n R"
  shows "emits (then_io m n)
    (\<lambda>t r. (\<exists>x. r = Inl x \<and> Q t (Inl x)) \<or> (\<exists>v t1 t2. t = t1 @ t2 \<and> Q t1 (Inr v) \<and> R t2 r))"
  unfolding then_io_def using assms by (rule emits_bind)

lemma emits_catch:
  assumes m: "emits m Q" and h: "\<And>x. emits (h x) (R x)"
  shows "emits (catch_io m h)
    (\<lambda>t r. (\<exists>v. r = Inr v \<and> Q t (Inr v)) \<or> (\<exists>x t1 t2. t = t1 @ t2 \<and> Q t1 (Inl x) \<and> R x t2 r))"
  unfolding emits_def
proof (intro allI impI)
  fix s s' r
  assume run: "catch_io m h s = (s', r)"
  obtain s1 r1 where ms: "m s = (s1, r1)" by (cases "m s")
  with m obtain t1 where t1: "rs_trace s1 = rs_trace s @ t1" "Q t1 r1" by (rule emitsE)
  show "\<exists>t. rs_trace s' = rs_trace s @ t \<and>
      ((\<exists>v. r = Inr v \<and> Q t (Inr v)) \<or> (\<exists>x t1 t2. t = t1 @ t2 \<and> Q t1 (Inl x) \<and> R x t2 r))"
  proof (cases r1)
    case (Inl x)
    with run ms have "h x s1 = (s', r)" by (simp add: catch_io_def)
    with h [of x] obtain t2 where "rs_trace s' = rs_trace s1 @ t2" "R x t2 r" by (rule emitsE)
    with t1 Inl show ?thesis by (intro exI [of _ "t1 @ t2"]) auto
  next
    case (Inr v)
    with run ms t1 show ?thesis by (auto simp: catch_io_def)
  qed
qed

lemma emits_finally:
  assumes m: "emits m Q" and f: "emits f R"
  shows "emits (finally_io m f)
    (\<lambda>t r. \<exists>t1 t2 r1 r2. t = t1 @ t2 \<and> Q t1 r1 \<and> R t2 r2 \<and>
       r = (case r2 of Inl x \<Rightarrow> Inl x | Inr _ \<Rightarrow> r1))"
  unfolding emits_def
proof (intro allI impI)
  fix s s' r
  assume run: "finally_io m f s = (s', r)"
  obtain s1 r1 where ms: "m s = (s1, r1)" by (cases "m s")
  with m obtain t1 where t1: "rs_trace s1 = rs_trace s @ t1" "Q t1 r1" by (rule emitsE)
  obtain s2 r2 where fs: "f s1 = (s2, r2)" by (cases "f s1")
  with f obtain t2 where t2: "rs_trace s2 = rs_trace s1 @ t2" "R t2 r2" by (rule emitsE)
  have "s' = s2" "r = (case r2 of Inl x \<Rightarrow> Inl x | Inr _ \<Rightarrow> r1)"
    using run ms fs by (auto simp: finally_io_def split: sum.splits)
  with t1 t2 show "\<exists>t. rs_trace s' = rs_trace s @ t \<and>
      (\<exists>t1 t2 r1 r2. t = t1 @ t2 \<and> Q t1 r1 \<and> R t2 r2 \<and> r = (case r2 of Inl x \<Rightarrow> Inl x | Inr _ \<Rightarrow> r1))"
    by (intro exI [of _ "t1 @ t2"]) auto
qed

end
