(* ===== verification/Delivery.thy ===== *)
theory Delivery
  imports Effects PubSub Idempotency Dispatcher
begin

text \<open>
  The streaming-pull runner (\<open>transports/pubsub_runner.py\<close>): one delivery of a message, from the claim to
  ACK or NACK. The runner's parts are a record: the dispatcher, which is run as modelled, the store of
  claims, the bot, the hooks of the runner, and the readers the parser needs. The attempt is a
  computation of theory Effects whose own state is the table of the latest interaction times; what it
  notes is the protocol: the answers of the store, calls that returned or raised, ACK and NACK. Logging
  is left out; the clock only feeds the log. The lock around a card update is in theory KeyedLocks.
\<close>

section \<open>Parts\<close>

datatype call = ClaimCall | CompleteCall | ReleaseCall | FeedCall | CreateCall | UpdateCall | HookCall string

datatype effect =
    Acked | Nacked
  | ClaimAnswered claim_result
  | RenewalStarted | RenewalEnded
  | Returned call
  | Raised call exn_class

text \<open>What a handler can answer: nothing, a text, a card, the two answers only a synchronous transport can
  give, or any other object.\<close>

datatype answer =
    NoAnswer | TextAnswer string | CardAnswer pyval | DialogAnswer pyval | StatusAnswer pyval | OtherAnswer

text \<open>What is sent: the text or card of an answer, or the notice built from an exception.\<close>

datatype outgoing = OutText string | OutCard pyval | OutNotice exn_class

record pubsub_message =
  pm_id :: string
  pm_data :: pyval
  pm_attempt :: "int option"

text \<open>The claim store as the runner sees it: each operation may raise. \<open>st_renewals\<close> stands for the renewal
  task: the renewals made while an attempt is in flight, with the answers the task received.\<close>

record 's delivery_store =
  st_claim :: "string \<Rightarrow> string \<Rightarrow> rat \<Rightarrow> 's \<Rightarrow> 's \<times> (pyexn, claim_result) result"
  st_complete :: "string \<Rightarrow> string \<Rightarrow> 's \<Rightarrow> 's \<times> (pyexn, unit) result"
  st_release :: "string \<Rightarrow> string \<Rightarrow> 's \<Rightarrow> 's \<times> (pyexn, unit) result"
  st_renewals :: "string \<Rightarrow> string \<Rightarrow> rat \<Rightarrow> 's \<Rightarrow> 's \<times> (pyexn, bool) result list"

record 'u outbound_bot =
  bot_value :: ctx_val
  bot_create :: "string \<Rightarrow> outgoing \<Rightarrow> string option \<Rightarrow> 'u world \<Rightarrow> 'u world \<times> (pyexn, unit) result"
  bot_update :: "string \<Rightarrow> pyval \<Rightarrow> 'u world \<Rightarrow> 'u world \<times> (pyexn, unit) result"

record 'u runner_hooks =
  rh_before_outbound :: "(event \<Rightarrow> string \<Rightarrow> 'u hook) option"
  rh_after_outbound :: "(event \<Rightarrow> string \<Rightarrow> 'u hook) option"
  rh_delivery_acked :: "(string \<Rightarrow> event \<Rightarrow> 'u hook) option"
  rh_delivery_nacked :: "(string \<Rightarrow> event option \<Rightarrow> 'u hook) option"

record readers =
  rd_utf8 :: "string \<Rightarrow> string option"
  rd_loads :: "string \<Rightarrow> pyval option"
  rd_validate :: "pydict \<Rightarrow> interaction_model option"
  rd_fromiso :: "string \<Rightarrow> (time \<times> bool) option"

record ('s, 'u) runner =
  rn_dispatcher :: "('u, answer) dispatcher"
  rn_subscription :: string
  rn_bot :: "'u outbound_bot option"
  rn_hooks :: "'u runner_hooks option"
  rn_store :: "'s delivery_store"
  rn_max_attempts :: int
  rn_readers :: readers

type_synonym seen_times = "(string, time) pdict"

type_synonym ('s, 'u, 'a) delivery_io = "(effect, 's, 'u world, seen_times, 'a) io"

definition default_lease :: rat where
  "default_lease = 300"

section \<open>Parsing a message\<close>

text \<open>The payload as it is, or the interaction inside a push-shaped envelope.\<close>

definition unwrap_push :: "(string \<Rightarrow> pyval option) \<Rightarrow> pyval \<Rightarrow> (pyexn, pyval) result" where
  "unwrap_push loads payload =
     (case payload of
        PDict d \<Rightarrow>
          (case obj_get d ''message'' of
             PDict m \<Rightarrow>
               (case obj_get m ''data'' of
                  PStr s \<Rightarrow>
                    bind_res (decode_message_data loads d)
                      (\<lambda>inner. Inr (case inner of Some i \<Rightarrow> PDict i | None \<Rightarrow> payload))
                | _ \<Rightarrow> Inr payload)
           | _ \<Rightarrow> Inr payload)
      | _ \<Rightarrow> Inr payload)"

definition message_text_of :: "readers \<Rightarrow> pyval \<Rightarrow> (pyexn, string) result" where
  "message_text_of rd v =
     (case v of
        PBytes b \<Rightarrow> (case rd_utf8 rd b of Some s \<Rightarrow> Inr s | None \<Rightarrow> Inl (exn (Py ValueErr)))
      | PStr s \<Rightarrow> Inr s
      | _ \<Rightarrow> bad_envelope)"

definition parse_message :: "readers \<Rightarrow> pubsub_message \<Rightarrow> (pyexn, event) result" where
  "parse_message rd m =
     bind_res (message_text_of rd (pm_data m)) (\<lambda>text.
       case rd_loads rd text of
         None \<Rightarrow> bad_envelope
       | Some payload \<Rightarrow>
           bind_res (unwrap_push (rd_loads rd) payload) (\<lambda>interaction.
             if is_mapping interaction
             then parse_interaction (rd_validate rd) (rd_fromiso rd) interaction
             else bad_envelope))"

section \<open>Diagnostics with a state\<close>

text \<open>The message of an event that has one, and the table of the latest times: a stale interaction is
  reported, never dropped, and does not move the table back.\<close>

definition interaction_message :: "event \<Rightarrow> string option" where
  "interaction_message e =
     (case body e of
        MessageEvent b \<Rightarrow> Option.bind (msg_ref b) message_name
      | ActionEvent a \<Rightarrow> Option.bind (action_message a) message_name
      | _ \<Rightarrow> None)"

definition track_stale :: "event \<Rightarrow> seen_times \<Rightarrow> seen_times" where
  "track_stale e seen =
     (case (interaction_message e, event_time e) of
        (Some n, Some t) \<Rightarrow>
          (case dict_get seen n of
             Some latest \<Rightarrow> if t < latest then seen else dict_set n t seen
           | None \<Rightarrow> dict_set n t seen)
      | _ \<Rightarrow> seen)"

section \<open>Calls\<close>

definition call_hook :: "string \<Rightarrow> 'u hook option \<Rightarrow> ('s, 'u, unit) delivery_io" where
  "call_hook n h =
     world_call (\<lambda>_. Returned (HookCall n)) (Raised (HookCall n))
       (\<lambda>w. case maybe_hook h w of (w', None) \<Rightarrow> (w', Inr ()) | (w', Some x) \<Rightarrow> (w', Inl x))"

definition settle :: "effect \<Rightarrow> ('s, 'u, unit) delivery_io" where
  "settle e = note_io e"

definition event_space :: "event \<Rightarrow> string option" where
  "event_space e = Option.bind (ev_space e) space_name"

definition create_message ::
    "'u outbound_bot \<Rightarrow> string \<Rightarrow> outgoing \<Rightarrow> string option \<Rightarrow> ('s, 'u, unit) delivery_io" where
  "create_message b sp c th =
     world_call (\<lambda>_. Returned CreateCall) (Raised CreateCall) (bot_create b sp c th)"

definition update_message :: "'u outbound_bot \<Rightarrow> string \<Rightarrow> pyval \<Rightarrow> ('s, 'u, unit) delivery_io" where
  "update_message b n c = world_call (\<lambda>_. Returned UpdateCall) (Raised UpdateCall) (bot_update b n c)"

definition outbound_hook ::
    "('s, 'u) runner \<Rightarrow> string \<Rightarrow> ('u runner_hooks \<Rightarrow> (event \<Rightarrow> string \<Rightarrow> 'u hook) option)
     \<Rightarrow> event \<Rightarrow> string \<Rightarrow> ('s, 'u, unit) delivery_io" where
  "outbound_hook r n sel e mode = call_hook n (map_option (\<lambda>f. f e mode) (Option.bind (rn_hooks r) sel))"

section \<open>Answering\<close>

text \<open>The clicked card: an action event with the name of its message.\<close>

definition clicked_message :: "event \<Rightarrow> string option" where
  "clicked_message e =
     (case body e of ActionEvent a \<Rightarrow> Option.bind (action_message a) message_name | _ \<Rightarrow> None)"

definition send_answer ::
    "('s, 'u) runner \<Rightarrow> 'u outbound_bot \<Rightarrow> string \<Rightarrow> event \<Rightarrow> outgoing \<Rightarrow> string option
     \<Rightarrow> ('s, 'u, string option) delivery_io" where
  "send_answer r b sp e c th =
     then_io (outbound_hook r ''before_outbound'' rh_before_outbound e ''send_message'')
       (then_io (create_message b sp c th)
         (then_io (outbound_hook r ''after_outbound'' rh_after_outbound e ''send_message'')
           (ret (Some ''send_message''))))"

definition update_answer ::
    "('s, 'u) runner \<Rightarrow> 'u outbound_bot \<Rightarrow> event \<Rightarrow> string \<Rightarrow> pyval \<Rightarrow> ('s, 'u, string option) delivery_io" where
  "update_answer r b e n c =
     then_io (update_message b n c)
       (then_io (outbound_hook r ''after_outbound'' rh_after_outbound e ''update_message'')
         (ret (Some ''update_message'')))"

definition answer_io :: "('s, 'u) runner \<Rightarrow> event \<Rightarrow> answer \<Rightarrow> ('s, 'u, string option) delivery_io" where
  "answer_io r e a =
     (case a of
        NoAnswer \<Rightarrow> ret None
      | DialogAnswer d \<Rightarrow> throw (exn (St CapabilityNotSupported))
      | StatusAnswer d \<Rightarrow> throw (exn (St CapabilityNotSupported))
      | _ \<Rightarrow>
         (case (rn_bot r, event_space e) of
            (Some b, Some sp) \<Rightarrow>
              (case a of
                 TextAnswer t \<Rightarrow>
                   send_answer r b sp e (OutText t)
                     (case Option.bind (ev_thread e) thread_name of
                        Some n \<Rightarrow> if n = [] then None else Some n | None \<Rightarrow> None)
               | CardAnswer c \<Rightarrow>
                   (case clicked_message e of
                      Some n \<Rightarrow> update_answer r b e n c
                    | None \<Rightarrow> send_answer r b sp e (OutCard c) None)
               | _ \<Rightarrow> ret None)
          | _ \<Rightarrow> ret None))"

section \<open>The attempt\<close>

text \<open>\<open>_renew_loop\<close>: how the task ends when it has received these answers and is then cancelled.\<close>

fun renew_loop :: "(pyexn, bool) result list \<Rightarrow> (pyexn, unit) result" where
  "renew_loop [] = Inl (exn (Py CancelledError))"
| "renew_loop (Inl x # as) = (if is_exception (exn_cls x) then Inr () else Inl x)"
| "renew_loop (Inr b # as) = (if b then renew_loop as else Inr ())"

definition is_cancelled :: "pyexn \<Rightarrow> bool" where
  "is_cancelled x \<longleftrightarrow> issubclass (exn_cls x) (Py CancelledError)"

text \<open>The \<open>finally\<close> block: the task is cancelled and awaited; only a failure that is neither the
  cancellation nor an \<open>Exception\<close> comes through.\<close>

definition end_renewal :: "(pyexn, bool) result list \<Rightarrow> ('s, 'u, unit) delivery_io" where
  "end_renewal answers =
     then_io (note_io RenewalEnded)
       (case renew_loop answers of
          Inr u \<Rightarrow> ret ()
        | Inl x \<Rightarrow> if is_cancelled x \<or> is_exception (exn_cls x) then ret () else throw x)"

definition delivery_key :: "('s, 'u) runner \<Rightarrow> pubsub_message \<Rightarrow> string" where
  "delivery_key r m = rn_subscription r @ '':'' @ pm_id m"

definition feed_io :: "('s, 'u) runner \<Rightarrow> event \<Rightarrow> ('s, 'u, answer) delivery_io" where
  "feed_io r e =
     world_call (\<lambda>_. Returned FeedCall) (Raised FeedCall)
       (\<lambda>w. case resolve_response ''pubsub'' (Some e) of
          Inl x \<Rightarrow> (w, Inl x)
        | Inr caps \<Rightarrow>
           (case feed_update (rn_dispatcher r) e
                  [(''bot'', case rn_bot r of Some b \<Rightarrow> bot_value b | None \<Rightarrow> CVal PNone),
                   (''capabilities'', CCapabilities caps)] w of
              (w', Inl x) \<Rightarrow> (w', Inl x)
            | (w', Inr a) \<Rightarrow> (w', Inr (case a of Some v \<Rightarrow> v | None \<Rightarrow> NoAnswer))))"

definition complete_io :: "('s, 'u) runner \<Rightarrow> string \<Rightarrow> string \<Rightarrow> ('s, 'u, unit) delivery_io" where
  "complete_io r k ow =
     store_call (\<lambda>_. Returned CompleteCall) (Raised CompleteCall) (st_complete (rn_store r) k ow)"

definition release_io :: "('s, 'u) runner \<Rightarrow> string \<Rightarrow> string \<Rightarrow> ('s, 'u, unit) delivery_io" where
  "release_io r k ow =
     store_call (\<lambda>_. Returned ReleaseCall) (Raised ReleaseCall) (st_release (rn_store r) k ow)"

text \<open>\<open>except CapabilityNotSupported\<close>: tell the space, complete, ACK. The value says whether the delivery
  still has to be completed.\<close>

definition capability_rejected :: "('s, 'u) runner \<Rightarrow> string \<Rightarrow> string \<Rightarrow> event \<Rightarrow> pyexn \<Rightarrow> ('s, 'u, bool) delivery_io" where
  "capability_rejected r k ow e x =
     (if \<not> issubclass (exn_cls x) (St CapabilityNotSupported) then throw x
      else
        then_io (case (rn_bot r, event_space e) of
                   (Some b, Some sp) \<Rightarrow> create_message b sp (OutNotice (exn_cls x)) None
                 | _ \<Rightarrow> ret ())
          (then_io (complete_io r k ow) (then_io (settle Acked) (ret False))))"

definition attempt ::
    "('s, 'u) runner \<Rightarrow> pubsub_message \<Rightarrow> string \<Rightarrow> string \<Rightarrow> ('s, 'u, unit) delivery_io" where
  "attempt r m k ow =
     then_io (note_io RenewalStarted)
       (case parse_message (rn_readers r) m of
          Inl x \<Rightarrow> throw x
        | Inr e \<Rightarrow>
            then_io (own_io (track_stale e))
              (bind_io (feed_io r e) (\<lambda>a.
                bind_io
                  (catch_io (then_io (answer_io r e a) (ret True)) (capability_rejected r k ow e))
                  (\<lambda>go.
                    if go
                    then then_io (complete_io r k ow)
                          (then_io (settle Acked)
                            (call_hook ''delivery_acked''
                              (map_option (\<lambda>f. f (pm_id m) e) (Option.bind (rn_hooks r) rh_delivery_acked))))
                    else ret ()))))"

text \<open>\<open>_notify_poison\<close>: best effort, an \<open>Exception\<close> is swallowed.\<close>

definition notify_poison :: "('s, 'u) runner \<Rightarrow> event option \<Rightarrow> exn_class \<Rightarrow> ('s, 'u, unit) delivery_io" where
  "notify_poison r e c =
     (case (rn_bot r, Option.bind e event_space) of
        (Some b, Some sp) \<Rightarrow>
          catch_io (create_message b sp (OutNotice c) None)
            (\<lambda>x. if is_exception (exn_cls x) then ret () else throw x)
      | _ \<Rightarrow> ret ())"

text \<open>The two \<open>except\<close> clauses around the attempt. Comparing a missing attempt number raises.\<close>

definition attempt_failed ::
    "('s, 'u) runner \<Rightarrow> pubsub_message \<Rightarrow> string \<Rightarrow> string \<Rightarrow> pyexn \<Rightarrow> ('s, 'u, unit) delivery_io" where
  "attempt_failed r m k ow x =
     (let e = (case parse_message (rn_readers r) m of Inr e \<Rightarrow> Some e | Inl _ \<Rightarrow> None)
      in if is_cancelled x then then_io (settle Nacked) (throw x)
         else if \<not> is_exception (exn_cls x) then throw x
         else
           then_io
             (catch_io (release_io r k ow) (\<lambda>y. if is_exception (exn_cls y) then ret () else throw y))
             (case pm_attempt m of
                None \<Rightarrow> throw (exn (Py TypeErr))
              | Some n \<Rightarrow>
                  if rn_max_attempts r \<le> n
                  then then_io (notify_poison r e (exn_cls x)) (settle Acked)
                  else then_io (settle Nacked)
                        (call_hook ''delivery_nacked''
                          (map_option (\<lambda>f. f (pm_id m) e) (Option.bind (rn_hooks r) rh_delivery_nacked)))))"

text \<open>The renewals of the attempt are taken at its start.\<close>

definition first_claim ::
    "('s, 'u) runner \<Rightarrow> pubsub_message \<Rightarrow> string \<Rightarrow> string \<Rightarrow> ('s, 'u, unit) delivery_io" where
  "first_claim r m k ow s =
     (case st_renewals (rn_store r) k ow default_lease (rs_store s) of
        (st, answers) \<Rightarrow>
          finally_io (catch_io (attempt r m k ow) (attempt_failed r m k ow)) (end_renewal answers)
            (s\<lparr> rs_store := st \<rparr>))"

definition claim_io :: "('s, 'u) runner \<Rightarrow> string \<Rightarrow> string \<Rightarrow> ('s, 'u, claim_result) delivery_io" where
  "claim_io r k ow =
     store_call ClaimAnswered (Raised ClaimCall) (st_claim (rn_store r) k ow default_lease)"

text \<open>\<open>_handle\<close>, with the fresh owner token as an argument.\<close>

definition handle :: "('s, 'u) runner \<Rightarrow> pubsub_message \<Rightarrow> string \<Rightarrow> ('s, 'u, unit) delivery_io" where
  "handle r m ow =
     (let k = delivery_key r m
      in bind_io
           (catch_io (bind_io (claim_io r k ow) (\<lambda>c. ret (Some c)))
             (\<lambda>x. if is_exception (exn_cls x) then then_io (settle Nacked) (ret None) else throw x))
           (\<lambda>c. case c of
              None \<Rightarrow> ret ()
            | Some COMPLETED \<Rightarrow> settle Acked
            | Some ACTIVE \<Rightarrow> settle Nacked
            | Some FIRST \<Rightarrow> first_claim r m k ow))"

text \<open>\<open>__init__\<close> refuses a concurrency below one.\<close>

definition runner_init :: "int \<Rightarrow> ('s, 'u) runner \<Rightarrow> (pyexn, ('s, 'u) runner) result" where
  "runner_init max_concurrency r = (if max_concurrency < 1 then Inl (exn (Py ValueErr)) else Inr r)"

section \<open>Calls that do not settle the delivery\<close>

definition settled :: "effect list \<Rightarrow> effect list" where
  "settled t = filter (\<lambda>e. e = Acked \<or> e = Nacked) t"

lemma settled_simps [simp]:
  "settled [] = []" "settled (a @ b) = settled a @ settled b"
  "settled (Acked # t) = Acked # settled t" "settled (Nacked # t) = Nacked # settled t"
  "settled (ClaimAnswered c # t) = settled t" "settled (RenewalStarted # t) = settled t"
  "settled (RenewalEnded # t) = settled t" "settled (Returned k # t) = settled t"
  "settled (Raised k x # t) = settled t"
  by (simp_all add: settled_def)

lemma settled_Nil_set: "settled t = [] \<Longrightarrow> Acked \<notin> set t"
  by (auto simp: settled_def filter_empty_conv)

text \<open>A computation that settles nothing, does not change the claim, and fails only with exceptions of
  \<open>P\<close>.\<close>

definition claim_kept :: "effect list \<Rightarrow> bool" where
  "claim_kept t \<longleftrightarrow> Returned CompleteCall \<notin> set t \<and> Returned ReleaseCall \<notin> set t"

lemma claim_kept_simps [simp]:
  "claim_kept []" "claim_kept (a @ b) \<longleftrightarrow> claim_kept a \<and> claim_kept b"
  "claim_kept (e # t) \<longleftrightarrow> e \<noteq> Returned CompleteCall \<and> e \<noteq> Returned ReleaseCall \<and> claim_kept t"
  by (auto simp: claim_kept_def)

lemma claim_keptD: "claim_kept t \<Longrightarrow> Returned CompleteCall \<notin> set t" "claim_kept t \<Longrightarrow> Returned ReleaseCall \<notin> set t"
  by (simp_all add: claim_kept_def)

definition silent :: "(pyexn \<Rightarrow> bool) \<Rightarrow> ('s, 'u, 'a) delivery_io \<Rightarrow> bool" where
  "silent P m \<longleftrightarrow> emits m (\<lambda>t r. settled t = [] \<and> claim_kept t \<and> (\<forall>x. r = Inl x \<longrightarrow> P x))"

named_theorems silent \<open>computations that settle nothing\<close>

lemma silent_ret [silent]: "silent P (ret x)"
  unfolding silent_def by (rule emits_weaken [OF emits_ret]) auto

lemma silent_throw: "P x \<Longrightarrow> silent P (throw x)"
  unfolding silent_def by (rule emits_weaken [OF emits_throw]) auto

lemma silent_own [silent]: "silent P (own_io f)"
  unfolding silent_def by (rule emits_weaken [OF emits_own]) auto

lemma silent_note: "settled [e] = [] \<Longrightarrow> claim_kept [e] \<Longrightarrow> silent P (note_io e)"
  unfolding silent_def by (rule emits_weaken [OF emits_note]) auto

lemma silent_bind [silent]: "silent P m \<Longrightarrow> (\<And>v. silent P (f v)) \<Longrightarrow> silent P (bind_io m f)"
  unfolding silent_def by (rule emits_weaken, rule emits_bind, assumption, assumption) auto

lemma silent_then [silent]: "silent P m \<Longrightarrow> silent P n \<Longrightarrow> silent P (then_io m n)"
  unfolding then_io_def by (rule silent_bind)

lemma silent_world:
  "(\<And>w w' x. f w = (w', Inl x) \<Longrightarrow> P x) \<Longrightarrow> k \<noteq> CompleteCall \<Longrightarrow> k \<noteq> ReleaseCall \<Longrightarrow>
   silent P (world_call (\<lambda>_. Returned k) (Raised k) f)"
  unfolding silent_def by (rule emits_weaken, rule emits_world [where P = P]) auto

text \<open>Every exception the parts of a runner raise satisfies \<open>P\<close>.\<close>

definition store_raises :: "(pyexn \<Rightarrow> bool) \<Rightarrow> 's delivery_store \<Rightarrow> bool" where
  "store_raises P st \<longleftrightarrow>
     (\<forall>k ow l s s' x. st_claim st k ow l s = (s', Inl x) \<longrightarrow> P x) \<and>
     (\<forall>k ow s s' x. st_complete st k ow s = (s', Inl x) \<longrightarrow> P x) \<and>
     (\<forall>k ow s s' x. st_release st k ow s = (s', Inl x) \<longrightarrow> P x) \<and>
     (\<forall>k ow l s s' as x. st_renewals st k ow l s = (s', as) \<longrightarrow> Inl x \<in> set as \<longrightarrow> P x)"

definition bot_raises :: "(pyexn \<Rightarrow> bool) \<Rightarrow> 'u outbound_bot option \<Rightarrow> bool" where
  "bot_raises P b \<longleftrightarrow>
     (case b of
        None \<Rightarrow> True
      | Some b \<Rightarrow>
          (\<forall>sp c th w w' x. bot_create b sp c th w = (w', Inl x) \<longrightarrow> P x) \<and>
          (\<forall>n c w w' x. bot_update b n c w = (w', Inl x) \<longrightarrow> P x))"

definition hook_raises :: "(pyexn \<Rightarrow> bool) \<Rightarrow> 'u hook option \<Rightarrow> bool" where
  "hook_raises P h \<longleftrightarrow> (\<forall>w w' x. maybe_hook h w = (w', Some x) \<longrightarrow> P x)"

definition hooks_raise :: "(pyexn \<Rightarrow> bool) \<Rightarrow> 'u runner_hooks option \<Rightarrow> bool" where
  "hooks_raise P h \<longleftrightarrow>
     (\<forall>e m. hook_raises P (map_option (\<lambda>f. f e m) (Option.bind h rh_before_outbound))) \<and>
     (\<forall>e m. hook_raises P (map_option (\<lambda>f. f e m) (Option.bind h rh_after_outbound))) \<and>
     (\<forall>e m. hook_raises P (map_option (\<lambda>f. f m e) (Option.bind h rh_delivery_acked))) \<and>
     (\<forall>e m. hook_raises P (map_option (\<lambda>f. f m e) (Option.bind h rh_delivery_nacked)))"

definition feed_raises :: "(pyexn \<Rightarrow> bool) \<Rightarrow> ('u, answer) dispatcher \<Rightarrow> bool" where
  "feed_raises P dp \<longleftrightarrow> (\<forall>e c w w' x. feed_update dp e c w = (w', Inl x) \<longrightarrow> P x)"

definition parts_raise :: "(pyexn \<Rightarrow> bool) \<Rightarrow> ('s, 'u) runner \<Rightarrow> bool" where
  "parts_raise P r \<longleftrightarrow>
     store_raises P (rn_store r) \<and> bot_raises P (rn_bot r) \<and> hooks_raise P (rn_hooks r) \<and>
     feed_raises P (rn_dispatcher r) \<and> (\<forall>x. is_exception (exn_cls x) \<longrightarrow> P x)"

lemma parts_raise_any: "parts_raise (\<lambda>_. True) r"
  by (simp add: parts_raise_def store_raises_def bot_raises_def hooks_raise_def hook_raises_def
      feed_raises_def split: option.split)

lemma emits_hook:
  "hook_raises P h \<Longrightarrow>
   emits (call_hook n h)
     (\<lambda>t r. (r = Inr () \<and> t = [Returned (HookCall n)]) \<or>
            (\<exists>x. r = Inl x \<and> t = [Raised (HookCall n) (exn_cls x)] \<and> P x \<and> \<not> is_exception (exn_cls x)))"
  unfolding call_hook_def
  by (rule emits_weaken, rule emits_world [where P = "\<lambda>x. P x \<and> \<not> is_exception (exn_cls x)"])
    (auto simp: hook_raises_def dest: maybe_hook_escape split: prod.splits option.splits)

lemma silent_hook: "hook_raises P h \<Longrightarrow> silent P (call_hook n h)"
  unfolding silent_def by (rule emits_weaken, erule emits_hook) auto

lemma silent_create: "bot_raises P (Some b) \<Longrightarrow> silent P (create_message b sp c th)"
  unfolding create_message_def by (rule silent_world) (auto simp: bot_raises_def)

lemma silent_update: "bot_raises P (Some b) \<Longrightarrow> silent P (update_message b n c)"
  unfolding update_message_def by (rule silent_world) (auto simp: bot_raises_def)

lemma silent_answer:
  assumes "parts_raise P r"
  shows "silent P (answer_io r e a)"
proof -
  have hk: "silent P (outbound_hook r n rh_before_outbound e m)" "silent P (outbound_hook r n rh_after_outbound e m)"
    for n m
    using assms by (auto simp: outbound_hook_def parts_raise_def hooks_raise_def intro: silent_hook)
  have cap: "silent P (throw (exn (St CapabilityNotSupported)))" for n
    using assms by (intro silent_throw) (simp add: parts_raise_def)
  have bot: "rn_bot r = Some b \<Longrightarrow> bot_raises P (Some b)" for b
    using assms by (simp add: parts_raise_def)
  have send: "rn_bot r = Some b \<Longrightarrow> silent P (send_answer r b sp e c th)" for b sp c th
    unfolding send_answer_def by (intro silent_then hk silent_create bot silent_ret)
  have upd: "rn_bot r = Some b \<Longrightarrow> silent P (update_answer r b e n c)" for b n c
    unfolding update_answer_def by (intro silent_then hk silent_update bot silent_ret)
  show ?thesis
    by (cases a) (auto simp: answer_io_def cap send upd silent_ret split: option.split)
qed

lemma resolve_pubsub [simp]: "resolve_response ''pubsub'' e = Inr {}"
  by (simp add: resolve_response_def)

lemma silent_feed: "parts_raise P r \<Longrightarrow> silent P (feed_io r e)"
  unfolding feed_io_def
  by (rule silent_world) (auto simp: parts_raise_def feed_raises_def split: prod.splits sum.splits)

section \<open>The attempt, as a protocol\<close>

definition completed_first :: "effect list \<Rightarrow> bool" where
  "completed_first t \<longleftrightarrow> (\<exists>a b. t = a @ [Returned CompleteCall, Acked] @ b)"

lemma completed_first_append [simp]: "completed_first t \<Longrightarrow> completed_first (a @ t)"
  unfolding completed_first_def by (metis append.assoc)

lemma completed_first_more [simp]: "completed_first t \<Longrightarrow> completed_first (t @ b)"
  unfolding completed_first_def by (metis append.assoc)

lemma completed_first_base [simp]: "completed_first (Returned CompleteCall # Acked # b)"
  unfolding completed_first_def by (rule exI [of _ "[]"]) simp

definition attempt_spec :: "(pyexn \<Rightarrow> bool) \<Rightarrow> effect list \<Rightarrow> (pyexn, 'a) result \<Rightarrow> bool" where
  "attempt_spec P t res \<longleftrightarrow>
     Returned ReleaseCall \<notin> set t \<and>
     (case res of
        Inr u \<Rightarrow> settled t = [Acked] \<and> completed_first t
      | Inl x \<Rightarrow>
          P x \<and> (is_exception (exn_cls x) \<longrightarrow> Returned CompleteCall \<notin> set t) \<and>
                (settled t = [] \<or>
                 settled t = [Acked] \<and> completed_first t \<and> \<not> is_exception (exn_cls x) \<and>
                 Raised (HookCall ''delivery_acked'') (exn_cls x) \<in> set t))"

lemma attempt_spec_prefix:
  "settled t1 = [] \<Longrightarrow> claim_kept t1 \<Longrightarrow> attempt_spec P t2 res \<Longrightarrow> attempt_spec P (t1 @ t2) res"
  by (auto simp: attempt_spec_def dest: claim_keptD split: sum.splits)

lemma attempt_spec_silent: "settled t = [] \<Longrightarrow> claim_kept t \<Longrightarrow> P x \<Longrightarrow> attempt_spec P t (Inl x)"
  by (simp add: attempt_spec_def claim_kept_def)

text \<open>After a silent computation the rest of the attempt decides.\<close>

lemma attempt_after:
  assumes "silent P m" and "\<And>v. emits (f v) (attempt_spec P)"
  shows "emits (bind_io m f) (attempt_spec P)"
  by (rule emits_weaken [OF emits_bind [OF assms(1) [unfolded silent_def] assms(2)]])
    (auto intro: attempt_spec_prefix attempt_spec_silent)

lemma attempt_after_then: "silent P m \<Longrightarrow> emits n (attempt_spec P) \<Longrightarrow> emits (then_io m n) (attempt_spec P)"
  unfolding then_io_def by (rule attempt_after)

lemma emits_complete:
  "store_raises P (rn_store r) \<Longrightarrow>
   emits (complete_io r k ow)
     (\<lambda>t res. (res = Inr () \<and> t = [Returned CompleteCall]) \<or>
              (\<exists>x. res = Inl x \<and> t = [Raised CompleteCall (exn_cls x)] \<and> P x))"
  unfolding complete_io_def
  by (rule emits_weaken, rule emits_store [where P = P]) (auto simp: store_raises_def)

text \<open>Completing and then acknowledging, with or without the hook.\<close>

lemma finish_spec:
  assumes st: "store_raises P (rn_store r)"
    and n: "emits n (\<lambda>t res. (\<exists>u. res = Inr u \<and> settled t = [] \<and> claim_kept t) \<or>
              (\<exists>x. res = Inl x \<and> t = [Raised (HookCall ''delivery_acked'') (exn_cls x)] \<and> P x \<and>
                   \<not> is_exception (exn_cls x)))"
  shows "emits (then_io (complete_io r k ow) (then_io (settle Acked) n)) (attempt_spec P)"
  unfolding settle_def
  by (rule emits_weaken [OF emits_then [OF emits_complete [OF st] emits_then [OF emits_note n]]])
    (auto simp: attempt_spec_def claim_kept_def)

text \<open>The value of the answering block: \<open>True\<close> when nothing is settled yet, \<open>False\<close> after the ACK of a
  rejected capability.\<close>

definition answered_spec :: "(pyexn \<Rightarrow> bool) \<Rightarrow> effect list \<Rightarrow> (pyexn, bool) result \<Rightarrow> bool" where
  "answered_spec P t res \<longleftrightarrow>
     Returned ReleaseCall \<notin> set t \<and>
     (case res of
        Inr go \<Rightarrow> if go then settled t = [] \<and> claim_kept t else settled t = [Acked] \<and> completed_first t
      | Inl x \<Rightarrow> P x \<and> settled t = [] \<and> claim_kept t)"

lemma answered_prefix:
  assumes "settled u = []" and "claim_kept u" and "answered_spec P t res"
  shows "answered_spec P (u @ t) res"
  using assms by (cases res) (simp_all add: answered_spec_def claim_keptD split: if_splits)

lemma answered_failed: "settled u = [] \<Longrightarrow> claim_kept u \<Longrightarrow> P x \<Longrightarrow> answered_spec P u (Inl x)"
  by (simp add: answered_spec_def claim_keptD)

lemma rejected_spec:
  fixes r :: "('s, 'u) runner"
  assumes p: "parts_raise P r" and x: "P x"
  shows "emits (capability_rejected r k ow e x) (answered_spec P)"
proof -
  have st: "store_raises P (rn_store r)" using p by (simp add: parts_raise_def)
  have tell: "silent P (case (rn_bot r, event_space e) of
      (Some b, Some sp) \<Rightarrow> create_message b sp (OutNotice (exn_cls x)) None | _ \<Rightarrow> ret ())"
    using p by (auto simp: parts_raise_def intro: silent_create silent_ret split: option.split)
  have fin: "emits (then_io (complete_io r k ow) (then_io (settle Acked) (ret False))) (answered_spec P)"
    unfolding settle_def
    by (rule emits_weaken [OF emits_then [OF emits_complete [OF st] emits_then [OF emits_note emits_ret]]])
      (auto simp: answered_spec_def)
  have "emits (then_io (case (rn_bot r, event_space e) of
      (Some b, Some sp) \<Rightarrow> create_message b sp (OutNotice (exn_cls x)) None | _ \<Rightarrow> ret ())
        (then_io (complete_io r k ow) (then_io (settle Acked) (ret False)))) (answered_spec P)"
    by (rule emits_weaken [OF emits_then [OF tell [unfolded silent_def] fin]])
      (use answered_prefix answered_failed in blast)
  moreover have "emits (throw x :: ('s, 'u, bool) delivery_io) (answered_spec P)"
    using x by (intro emits_weaken [OF emits_throw]) (auto simp: answered_spec_def)
  ultimately show ?thesis by (simp add: capability_rejected_def)
qed

lemma answered_block:
  assumes p: "parts_raise P r"
  shows "emits (catch_io (then_io (answer_io r e a) (ret True)) (capability_rejected r k ow e)) (answered_spec P)"
proof -
  have sil: "silent P (answer_io r e a)" using p by (rule silent_answer)
  have inner: "emits (then_io (answer_io r e a) (ret True))
      (\<lambda>t res. settled t = [] \<and> claim_kept t \<and> (\<forall>x. res = Inl x \<longrightarrow> P x) \<and> (\<forall>v. res = Inr v \<longrightarrow> v))"
    by (rule emits_weaken [OF emits_then [OF sil [unfolded silent_def] emits_ret]]) auto
  have rej: "emits (capability_rejected r k ow e x) (\<lambda>t res. P x \<longrightarrow> answered_spec P t res)" for x
  proof (cases "P x")
    case True
    show ?thesis by (rule emits_weaken [OF rejected_spec [OF p True]]) simp
  next
    case False
    have "emits (capability_rejected r k ow e x) (answered_spec (\<lambda>_. True))"
      by (rule rejected_spec [OF parts_raise_any]) simp
    then show ?thesis by (rule emits_weaken) (simp add: False)
  qed
  have good: "answered_spec P t (Inr v)" if "settled t = []" "claim_kept t" "v" for t v
    using that by (simp add: answered_spec_def claim_keptD)
  show ?thesis
    by (rule emits_weaken [OF emits_catch [OF inner rej]])
      (use good answered_prefix in blast)
qed

lemma parse_message_exception: "parse_message rd m = Inl x \<Longrightarrow> is_exception (exn_cls x)"
proof -
  assume x: "parse_message rd m = Inl x"
  from x show ?thesis
    by (auto dest: parse_exception simp: parse_message_def message_text_of_def unwrap_push_def bad_envelope_def bind_res_Inl_iff
        decode_message_data_def split: pyval.splits option.splits if_splits)
qed

lemma attempt_emits:
  fixes r :: "('s, 'u) runner"
  assumes p: "parts_raise P r"
  shows "emits (attempt r m k ow) (attempt_spec P)"
proof -
  have st: "store_raises P (rn_store r)" using p by (simp add: parts_raise_def)
  have acked: "hook_raises P (map_option (\<lambda>f. f (pm_id m) e) (Option.bind (rn_hooks r) rh_delivery_acked))" for e
    using p by (simp add: parts_raise_def hooks_raise_def)
  have last: "emits (if go then then_io (complete_io r k ow) (then_io (settle Acked)
        (call_hook ''delivery_acked''
          (map_option (\<lambda>f. f (pm_id m) e) (Option.bind (rn_hooks r) rh_delivery_acked))))
      else ret ()) (\<lambda>t res. if go then attempt_spec P t res else t = [] \<and> res = Inr ())" for go e
  proof (cases go)
    case True
    then show ?thesis
      by (auto intro!: finish_spec [OF st] emits_weaken [OF emits_hook [OF acked]])
  next
    case False
    then show ?thesis by (auto intro: emits_weaken [OF emits_ret])
  qed
  have blk: "emits (bind_io (catch_io (then_io (answer_io r e a) (ret True)) (capability_rejected r k ow e))
      (\<lambda>go. if go then then_io (complete_io r k ow) (then_io (settle Acked)
        (call_hook ''delivery_acked''
          (map_option (\<lambda>f. f (pm_id m) e) (Option.bind (rn_hooks r) rh_delivery_acked))))
      else ret ())) (attempt_spec P)" for e a
    by (rule emits_weaken [OF emits_bind [OF answered_block [OF p] last]])
      (auto simp: answered_spec_def attempt_spec_def dest: claim_keptD split: if_splits sum.splits)
  have rest: "emits (then_io (own_io (track_stale e)) (bind_io (feed_io r e) (\<lambda>a.
      bind_io (catch_io (then_io (answer_io r e a) (ret True)) (capability_rejected r k ow e))
      (\<lambda>go. if go then then_io (complete_io r k ow) (then_io (settle Acked)
        (call_hook ''delivery_acked''
          (map_option (\<lambda>f. f (pm_id m) e) (Option.bind (rn_hooks r) rh_delivery_acked))))
      else ret ())))) (attempt_spec P)" for e
    by (rule attempt_after_then [OF silent_own attempt_after [OF silent_feed [OF p] blk]])
  have bad: "emits (throw x :: ('s, 'u, unit) delivery_io) (attempt_spec P)" if "parse_message (rn_readers r) m = Inl x" for x
    using p parse_message_exception [OF that]
    by (intro emits_weaken [OF emits_throw]) (auto simp: attempt_spec_def parts_raise_def)
  show ?thesis unfolding attempt_def
    by (rule attempt_after_then)
      (auto intro: silent_note rest bad split: sum.split)
qed

text \<open>The two ways an acknowledgement inside an attempt is justified: the claim was completed just before,
  or the message is poison, its attempts used up and its claim given back.\<close>

definition released_first :: "effect list \<Rightarrow> bool" where
  "released_first t \<longleftrightarrow>
     (\<exists>a b c. t = a @ Acked # b \<and> (Returned ReleaseCall \<in> set a \<or> Raised ReleaseCall c \<in> set a))"

lemma released_first_append [simp]: "released_first t \<Longrightarrow> released_first (a @ t)"
proof -
  assume "released_first t"
  then obtain u b c where t: "t = u @ Acked # b" and rel: "Returned ReleaseCall \<in> set u \<or> Raised ReleaseCall c \<in> set u"
    unfolding released_first_def by blast
  have "a @ t = (a @ u) @ Acked # b" using t by simp
  moreover have "Returned ReleaseCall \<in> set (a @ u) \<or> Raised ReleaseCall c \<in> set (a @ u)" using rel by auto
  ultimately show "released_first (a @ t)" unfolding released_first_def by blast
qed

lemma released_first_more [simp]: "released_first t \<Longrightarrow> released_first (t @ b)"
  unfolding released_first_def by (elim exE conjE) (metis append.assoc append_Cons)

lemma released_first_base:
  "Returned ReleaseCall \<in> set a \<or> (\<exists>c. Raised ReleaseCall c \<in> set a) \<Longrightarrow> released_first (a @ Acked # b)"
  unfolding released_first_def by blast

definition poison :: "('s, 'u) runner \<Rightarrow> pubsub_message \<Rightarrow> bool" where
  "poison r m \<longleftrightarrow> (case pm_attempt m of Some n \<Rightarrow> rn_max_attempts r \<le> n | None \<Rightarrow> False)"

lemma is_cancelled_iff: "is_cancelled x \<longleftrightarrow> exn_cls x = Py CancelledError"
proof (cases "exn_cls x")
  case (Fw e)
  then show ?thesis by (cases e) (simp_all add: is_cancelled_def issubclass_def eval_nat_numeral)
next
  case (Wire e)
  then show ?thesis by (cases e) (simp_all add: is_cancelled_def issubclass_def eval_nat_numeral)
next
  case (Api e)
  then show ?thesis by (cases e) (simp_all add: is_cancelled_def issubclass_def eval_nat_numeral)
next
  case (St e)
  then show ?thesis by (cases e) (simp_all add: is_cancelled_def issubclass_def eval_nat_numeral)
next
  case (Py e)
  then show ?thesis by (cases e) (simp_all add: is_cancelled_def issubclass_def eval_nat_numeral)
qed

definition failed_spec ::
    "(pyexn \<Rightarrow> bool) \<Rightarrow> ('s, 'u) runner \<Rightarrow> pubsub_message \<Rightarrow> effect list \<Rightarrow> (pyexn, unit) result \<Rightarrow> bool" where
  "failed_spec P r m t res \<longleftrightarrow>
     Returned CompleteCall \<notin> set t \<and>
     (case res of
        Inr u \<Rightarrow> settled t = [Nacked] \<and> \<not> poison r m \<or> settled t = [Acked] \<and> released_first t \<and> poison r m
      | Inl y \<Rightarrow>
          settled t \<in> {[], [Nacked]} \<and> P y \<and> \<not> is_exception (exn_cls y)
          \<or> settled t = [] \<and> y = exn (Py TypeErr) \<and> pm_attempt m = None)"

definition released :: "effect list \<Rightarrow> bool" where
  "released t \<longleftrightarrow> Returned ReleaseCall \<in> set t \<or> (\<exists>c. Raised ReleaseCall c \<in> set t)"

lemma emits_released:
  assumes "store_raises P (rn_store r)"
  shows "emits (catch_io (release_io r k ow) (\<lambda>y. if is_exception (exn_cls y) then ret () else throw y))
    (\<lambda>t res. settled t = [] \<and> Returned CompleteCall \<notin> set t \<and>
       ((\<exists>u. res = Inr u \<and> released t) \<or> (\<exists>y. res = Inl y \<and> P y \<and> \<not> is_exception (exn_cls y))))"
proof -
  have rel: "emits (release_io r k ow)
     (\<lambda>t res. (\<exists>v. res = Inr v \<and> t = [Returned ReleaseCall]) \<or>
              (\<exists>x. res = Inl x \<and> t = [Raised ReleaseCall (exn_cls x)] \<and> P x))"
    unfolding release_io_def
    by (rule emits_weaken, rule emits_store [where P = P]) (use assms in \<open>auto simp: store_raises_def\<close>)
  have "emits (if is_exception (exn_cls y) then ret () else throw y)
     (\<lambda>t res. t = [] \<and> res = (if is_exception (exn_cls y) then Inr () else Inl y))" for y
    by (auto intro: emits_weaken [OF emits_ret] emits_weaken [OF emits_throw])
  from emits_catch [OF rel this] show ?thesis
    by (rule emits_weaken) (auto simp: released_def split: if_splits)
qed

lemma silent_notify:
  assumes "parts_raise P r"
  shows "silent (\<lambda>x. P x \<and> \<not> is_exception (exn_cls x)) (notify_poison r e c)"
proof -
  have "emits (catch_io (create_message b sp q None) (\<lambda>x. if is_exception (exn_cls x) then ret () else throw x))
      (\<lambda>t res. settled t = [] \<and> claim_kept t \<and> (\<forall>x. res = Inl x \<longrightarrow> P x \<and> \<not> is_exception (exn_cls x)))"
    if "rn_bot r = Some b" for b sp q
  proof -
    have c: "silent P (create_message b sp q None)" using assms that by (intro silent_create) (simp add: parts_raise_def)
    have h: "emits (if is_exception (exn_cls x) then ret () else throw x)
        (\<lambda>t res. t = [] \<and> res = (if is_exception (exn_cls x) then Inr () else Inl x))" for x
      by (auto intro: emits_weaken [OF emits_ret] emits_weaken [OF emits_throw])
    show ?thesis
      by (rule emits_weaken [OF emits_catch [OF c [unfolded silent_def] h]]) (auto split: if_splits)
  qed
  then show ?thesis unfolding notify_poison_def silent_def [symmetric]
    by (auto intro: silent_ret split: option.split)
qed

lemma nack_spec:
  assumes "hook_raises P h"
  shows "emits (then_io (settle Nacked) (call_hook n h))
    (\<lambda>t res. settled t = [Nacked] \<and> claim_kept t \<and> (\<forall>x. res = Inl x \<longrightarrow> P x \<and> \<not> is_exception (exn_cls x)))"
  unfolding settle_def
  by (rule emits_weaken [OF emits_then [OF emits_note emits_hook [OF assms]]]) auto

lemma poison_spec:
  assumes "parts_raise P r"
  shows "emits (then_io (notify_poison r e c) (settle Acked))
    (\<lambda>t res. (\<exists>u. res = Inr u \<and> (\<exists>a. t = a @ [Acked] \<and> settled a = [] \<and> claim_kept a)) \<or>
       (\<exists>x. res = Inl x \<and> settled t = [] \<and> claim_kept t \<and> P x \<and> \<not> is_exception (exn_cls x)))"
  unfolding settle_def
  by (rule emits_weaken [OF emits_then [OF silent_notify [OF assms, unfolded silent_def] emits_note]]) auto

lemma failed_emits:
  assumes p: "parts_raise P r" and x: "is_exception (exn_cls x)"
  shows "emits (attempt_failed r m k ow x) (failed_spec P r m)"
proof -
  have st: "store_raises P (rn_store r)" using p by (simp add: parts_raise_def)
  have nacked: "hook_raises P (map_option (\<lambda>f. f (pm_id m) e) (Option.bind (rn_hooks r) rh_delivery_nacked))" for e
    using p by (simp add: parts_raise_def hooks_raise_def)
  have nc: "\<not> is_cancelled x" using x by (auto simp: is_cancelled_iff)
  let ?e = "case parse_message (rn_readers r) m of Inr e \<Rightarrow> Some e | Inl _ \<Rightarrow> None"
  let ?tail = "case pm_attempt m of
      None \<Rightarrow> throw (exn (Py TypeErr))
    | Some n \<Rightarrow>
        if rn_max_attempts r \<le> n
        then then_io (notify_poison r ?e (exn_cls x)) (settle Acked)
        else then_io (settle Nacked) (call_hook ''delivery_nacked''
               (map_option (\<lambda>f. f (pm_id m) ?e) (Option.bind (rn_hooks r) rh_delivery_nacked)))"
  let ?Q = "\<lambda>t res. \<forall>u. settled u = [] \<longrightarrow> Returned CompleteCall \<notin> set u \<longrightarrow> released u \<longrightarrow> failed_spec P r m (u @ t) res"
  have tail: "emits ?tail ?Q"
  proof (cases "pm_attempt m")
    case None
    then show ?thesis by (auto simp: failed_spec_def intro: emits_weaken [OF emits_throw])
  next
    case (Some n)
    show ?thesis
    proof (cases "rn_max_attempts r \<le> n")
      case True
      have "emits (then_io (notify_poison r ?e (exn_cls x)) (settle Acked)) ?Q"
        by (rule emits_weaken [OF poison_spec [OF p]])
          (use True Some in \<open>auto simp: failed_spec_def poison_def released_def claim_kept_def
            intro!: released_first_base [of "_ @ _" "[]", simplified]\<close>)
      with True Some show ?thesis by simp
    next
      case False
      have "emits (then_io (settle Nacked) (call_hook ''delivery_nacked''
          (map_option (\<lambda>f. f (pm_id m) ?e) (Option.bind (rn_hooks r) rh_delivery_nacked)))) ?Q"
        by (rule emits_weaken [OF nack_spec [OF nacked]])
          (use False Some in \<open>auto simp: failed_spec_def poison_def claim_kept_def split: sum.splits\<close>)
      with False Some show ?thesis by simp
    qed
  qed
  have "emits (then_io (catch_io (release_io r k ow)
      (\<lambda>y. if is_exception (exn_cls y) then ret () else throw y)) ?tail) (failed_spec P r m)"
    by (rule emits_weaken [OF emits_then [OF emits_released [OF st] tail]])
      (auto simp: failed_spec_def)
  then show ?thesis using x nc by (simp add: attempt_failed_def Let_def)
qed

end
