(* ===== verification/Deliveries.thy ===== *)
theory Deliveries
  imports Delivery
begin

text \<open>
  What the delivery protocol of theory Delivery guarantees: which sequences of effects an attempt can
  leave, when it acknowledges, and what happens when a message is delivered again to a store that keeps
  the contract of theory Idempotency.
\<close>

section \<open>The trace of a delivery\<close>

definition justified :: "('s, 'u) runner \<Rightarrow> pubsub_message \<Rightarrow> effect list \<Rightarrow> bool" where
  "justified r m t \<longleftrightarrow> completed_first t \<or> poison r m \<and> released_first t"

definition first_spec ::
    "(pyexn \<Rightarrow> bool) \<Rightarrow> ('s, 'u) runner \<Rightarrow> pubsub_message \<Rightarrow> effect list \<Rightarrow> (pyexn, unit) result \<Rightarrow> bool" where
  "first_spec P r m t res \<longleftrightarrow>
     (Returned CompleteCall \<in> set t \<longrightarrow> Returned ReleaseCall \<notin> set t) \<and>
     (case res of
        Inr u \<Rightarrow> settled t = [Nacked] \<or> settled t = [Acked] \<and> justified r m t
      | Inl y \<Rightarrow>
          P y \<and>
          (settled t = [] \<and> (is_exception (exn_cls y) \<longrightarrow> y = exn (Py TypeErr) \<and> pm_attempt m = None)
           \<or> \<not> is_exception (exn_cls y) \<and>
             (settled t = [Nacked]
              \<or> settled t = [Acked] \<and> justified r m t
              \<or> settled t = [Acked, Nacked] \<and> completed_first t
                \<and> Raised (HookCall ''delivery_acked'') (Py CancelledError) \<in> set t)))"

lemma failed_any_emits:
  fixes r :: "('s, 'u) runner"
  assumes p: "parts_raise P r"
  shows "emits (attempt_failed r m k ow x)
    (\<lambda>t res. if is_exception (exn_cls x) then failed_spec P r m t res
             else res = Inl x \<and> t = (if exn_cls x = Py CancelledError then [Nacked] else []))"
proof (cases "is_exception (exn_cls x)")
  case True
  with failed_emits [OF p True] show ?thesis by simp
next
  case False
  have th: "emits (throw x :: ('s, 'u, unit) delivery_io) (\<lambda>t res. t = [] \<and> res = Inl x)" by (rule emits_throw)
  have nk: "emits (then_io (settle Nacked) (throw x) :: ('s, 'u, unit) delivery_io)
      (\<lambda>t res. t = [Nacked] \<and> res = Inl x)"
    unfolding settle_def by (rule emits_weaken [OF emits_then [OF emits_note th]]) auto
  with False show ?thesis
    by (auto simp: attempt_failed_def Let_def is_cancelled_iff intro: emits_weaken [OF th] emits_weaken [OF nk])
qed

lemma renew_loop_Inl:
  "renew_loop as = Inl x \<Longrightarrow> x = exn (Py CancelledError) \<or> Inl x \<in> set as \<and> \<not> is_exception (exn_cls x)"
  by (induction as rule: renew_loop.induct) (auto split: if_splits)

lemma end_renewal_emits:
  fixes P :: "pyexn \<Rightarrow> bool"
  assumes "\<And>x. Inl x \<in> set answers \<Longrightarrow> P x"
  shows "emits (end_renewal answers :: ('s, 'u, unit) delivery_io)
    (\<lambda>t res. t = [RenewalEnded] \<and> (\<forall>y. res = Inl y \<longrightarrow> P y \<and> \<not> is_exception (exn_cls y)))"
proof -
  have "emits ((case renew_loop answers of Inr u \<Rightarrow> ret ()
      | Inl x \<Rightarrow> if is_cancelled x \<or> is_exception (exn_cls x) then ret () else throw x)
      :: ('s, 'u, unit) delivery_io)
    (\<lambda>t res. t = [] \<and> (\<forall>y. res = Inl y \<longrightarrow> P y \<and> \<not> is_exception (exn_cls y)))"
  proof (cases "renew_loop answers")
    case (Inl x)
    with renew_loop_Inl [OF Inl] assms show ?thesis
      by (auto simp: is_cancelled_iff intro: emits_weaken [OF emits_ret] emits_weaken [OF emits_throw])
  next
    case (Inr u)
    then show ?thesis by (auto intro: emits_weaken [OF emits_ret])
  qed
  then show ?thesis unfolding end_renewal_def
    by (rule emits_weaken [OF emits_then [OF emits_note]]) auto
qed

lemma first_spec_prefix:
  "settled u = [] \<Longrightarrow> Returned CompleteCall \<notin> set u \<Longrightarrow> Returned ReleaseCall \<notin> set u \<Longrightarrow> first_spec P r m t res \<Longrightarrow> first_spec P r m (u @ t) res"
  by (auto simp: first_spec_def justified_def split: sum.splits)

lemma failed_first: "failed_spec P r m t res \<Longrightarrow> P (exn (Py TypeErr)) \<Longrightarrow> first_spec P r m t res"
  by (cases res) (auto simp: failed_spec_def first_spec_def justified_def)

text \<open>The attempt and then, when it failed, its \<open>except\<close> clauses.\<close>

lemma guarded_combine:
  assumes a: "attempt_spec P t1 (Inl x :: (pyexn, unit) result)"
    and f: "if is_exception (exn_cls x) then failed_spec P r m t2 res
            else res = Inl x \<and> t2 = (if exn_cls x = Py CancelledError then [Nacked] else [])"
    and ty: "P (exn (Py TypeErr))"
  shows "first_spec P r m (t1 @ t2) res"
proof (cases "is_exception (exn_cls x)")
  case True
  with a have "settled t1 = []" "Returned CompleteCall \<notin> set t1" "Returned ReleaseCall \<notin> set t1"
    by (simp_all add: attempt_spec_def)
  moreover have "first_spec P r m t2 res" using True f ty by (simp add: failed_first)
  ultimately show ?thesis by (rule first_spec_prefix)
next
  case False
  with f have res: "res = Inl x" and t2: "t2 = (if exn_cls x = Py CancelledError then [Nacked] else [])"
    by simp_all
  from a have "P x" by (simp add: attempt_spec_def)
  moreover from a consider "settled t1 = []"
    | "settled t1 = [Acked]" "completed_first t1" "Raised (HookCall ''delivery_acked'') (exn_cls x) \<in> set t1"
    by (auto simp: attempt_spec_def)
  then have "settled (t1 @ t2) = [] \<or> settled (t1 @ t2) = [Nacked]
      \<or> settled (t1 @ t2) = [Acked] \<and> justified r m (t1 @ t2)
      \<or> settled (t1 @ t2) = [Acked, Nacked] \<and> completed_first (t1 @ t2)
        \<and> Raised (HookCall ''delivery_acked'') (Py CancelledError) \<in> set (t1 @ t2)"
    by cases (auto simp: t2 justified_def)
  moreover have "Returned ReleaseCall \<notin> set (t1 @ t2)" using a t2 by (simp add: attempt_spec_def)
  ultimately show ?thesis using False unfolding res first_spec_def by auto
qed

lemma guarded_attempt_emits:
  fixes r :: "('s, 'u) runner"
  assumes p: "parts_raise P r"
  shows "emits (catch_io (attempt r m k ow) (attempt_failed r m k ow)) (first_spec P r m)"
proof -
  have ty: "P (exn (Py TypeErr))" using p by (simp add: parts_raise_def)
  have ok: "attempt_spec P t (Inr v) \<Longrightarrow> first_spec P r m t (Inr v)" for t v
    by (simp add: attempt_spec_def first_spec_def justified_def)
  show ?thesis
    by (rule emits_weaken [OF emits_catch [OF attempt_emits [OF p] failed_any_emits [OF p]]])
      (use ok guarded_combine ty in blast)
qed

lemma first_spec_finally:
  assumes "first_spec P r m t r1" and "\<And>y. r2 = Inl y \<Longrightarrow> P y \<and> \<not> is_exception (exn_cls y)"
  shows "first_spec P r m (t @ [RenewalEnded]) (case r2 of Inl x \<Rightarrow> Inl x | Inr _ \<Rightarrow> r1)"
proof (cases r2)
  case (Inl y)
  with assms(2) have y: "P y" "\<not> is_exception (exn_cls y)" by auto
  show ?thesis
    using assms(1) y by (cases r1) (auto simp: Inl first_spec_def justified_def)
next
  case (Inr u)
  then show ?thesis using assms(1) by (cases r1) (auto simp: first_spec_def justified_def)
qed

lemma first_claim_emits:
  fixes r :: "('s, 'u) runner"
  assumes p: "parts_raise P r"
  shows "emits (first_claim r m k ow) (first_spec P r m)"
  unfolding emits_def
proof (intro allI impI)
  fix s s' res
  assume run: "first_claim r m k ow s = (s', res)"
  obtain st answers where a: "st_renewals (rn_store r) k ow default_lease (rs_store s) = (st, answers)"
    by (cases "st_renewals (rn_store r) k ow default_lease (rs_store s)")
  have ans: "Inl x \<in> set answers \<Longrightarrow> P x" for x
    using p a by (auto simp: parts_raise_def store_raises_def)
  have "emits (finally_io (catch_io (attempt r m k ow) (attempt_failed r m k ow)) (end_renewal answers))
      (first_spec P r m)"
    by (rule emits_weaken [OF emits_finally [OF guarded_attempt_emits [OF p] end_renewal_emits]])
      (use ans first_spec_finally in blast)+
  moreover have "finally_io (catch_io (attempt r m k ow) (attempt_failed r m k ow)) (end_renewal answers)
      (s\<lparr> rs_store := st \<rparr>) = (s', res)"
    using run a by (simp add: first_claim_def)
  ultimately show "\<exists>t. rs_trace s' = rs_trace s @ t \<and> first_spec P r m t res"
    by (auto elim: emitsE)
qed

definition delivery_spec ::
    "(pyexn \<Rightarrow> bool) \<Rightarrow> ('s, 'u) runner \<Rightarrow> pubsub_message \<Rightarrow> effect list \<Rightarrow> (pyexn, unit) result \<Rightarrow> bool" where
  "delivery_spec P r m t res \<longleftrightarrow>
     t = [ClaimAnswered COMPLETED, Acked] \<and> res = Inr ()
     \<or> t = [ClaimAnswered ACTIVE, Nacked] \<and> res = Inr ()
     \<or> (\<exists>c. t = [Raised ClaimCall c, Nacked] \<and> is_exception c \<and> res = Inr ())
     \<or> (\<exists>x. t = [Raised ClaimCall (exn_cls x)] \<and> res = Inl x \<and> \<not> is_exception (exn_cls x) \<and> P x)
     \<or> (\<exists>u. t = ClaimAnswered FIRST # u \<and> first_spec P r m u res)"

lemma handle_emits:
  fixes r :: "('s, 'u) runner"
  assumes p: "parts_raise P r"
  shows "emits (handle r m ow) (delivery_spec P r m)"
proof -
  let ?k = "delivery_key r m"
  have clm: "emits (claim_io r ?k ow) (\<lambda>t res. (\<exists>v. res = Inr v \<and> t = [ClaimAnswered v]) \<or>
      (\<exists>x. res = Inl x \<and> t = [Raised ClaimCall (exn_cls x)] \<and> P x))"
    unfolding claim_io_def by (rule emits_store) (use p in \<open>auto simp: parts_raise_def store_raises_def\<close>)
  have some: "emits (bind_io (claim_io r ?k ow) (\<lambda>c. ret (Some c)))
      (\<lambda>t res. (\<exists>v. res = Inr (Some v) \<and> t = [ClaimAnswered v]) \<or>
        (\<exists>x. res = Inl x \<and> t = [Raised ClaimCall (exn_cls x)] \<and> P x))"
    by (rule emits_weaken [OF emits_bind [OF clm emits_ret]]) auto
  have nack: "emits (then_io (settle Nacked) (ret None) :: ('s, 'u, claim_result option) delivery_io)
      (\<lambda>t res. t = [Nacked] \<and> res = Inr None)"
    unfolding settle_def by (rule emits_weaken [OF emits_then [OF emits_note emits_ret]]) auto
  have handler: "emits ((if is_exception (exn_cls x) then then_io (settle Nacked) (ret None) else throw x)
        :: ('s, 'u, claim_result option) delivery_io)
      (\<lambda>t res. if is_exception (exn_cls x) then t = [Nacked] \<and> res = Inr None else t = [] \<and> res = Inl x)" for x
    by (auto intro: emits_weaken [OF nack] emits_weaken [OF emits_throw])
  have claimed: "emits (catch_io (bind_io (claim_io r ?k ow) (\<lambda>c. ret (Some c)))
        (\<lambda>x. if is_exception (exn_cls x) then then_io (settle Nacked) (ret None) else throw x))
      (\<lambda>t res. (\<exists>v. res = Inr (Some v) \<and> t = [ClaimAnswered v])
        \<or> (\<exists>c. res = Inr None \<and> t = [Raised ClaimCall c, Nacked] \<and> is_exception c)
        \<or> (\<exists>x. res = Inl x \<and> t = [Raised ClaimCall (exn_cls x)] \<and> \<not> is_exception (exn_cls x) \<and> P x))"
    by (rule emits_weaken [OF emits_catch [OF some handler]]) (auto split: if_splits)
  have rest: "emits ((case c of None \<Rightarrow> ret () | Some COMPLETED \<Rightarrow> settle Acked | Some ACTIVE \<Rightarrow> settle Nacked
        | Some FIRST \<Rightarrow> first_claim r m ?k ow) :: ('s, 'u, unit) delivery_io)
      (\<lambda>t res. case c of None \<Rightarrow> t = [] \<and> res = Inr () | Some COMPLETED \<Rightarrow> t = [Acked] \<and> res = Inr ()
        | Some ACTIVE \<Rightarrow> t = [Nacked] \<and> res = Inr () | Some FIRST \<Rightarrow> first_spec P r m t res)" for c
    by (cases c) (auto simp: settle_def intro: emits_weaken [OF emits_ret] emits_note first_claim_emits [OF p]
        split: claim_result.split)
  show ?thesis unfolding handle_def Let_def
    by (rule emits_weaken [OF emits_bind [OF claimed rest]])
      (auto simp: delivery_spec_def split: claim_result.splits, (metis claim_result.exhaust)+)
qed

section \<open>Delivering again\<close>

text \<open>The in-process store behind the runner; \<open>clock\<close> gives the readings of the clock in order and \<open>j\<close> bounds
  the renewals of one attempt.\<close>

fun renew_times ::
    "(nat \<Rightarrow> rat) \<Rightarrow> nat \<Rightarrow> string \<Rightarrow> string \<Rightarrow> rat \<Rightarrow> claims \<times> nat \<Rightarrow> (claims \<times> nat) \<times> (pyexn, bool) result list" where
  "renew_times clock 0 k ow l st = (st, [])"
| "renew_times clock (Suc j) k ow l (c, n) =
     (case renew k ow l (clock n) c of
        (c', b) \<Rightarrow>
          if b then (case renew_times clock j k ow l (c', Suc n) of (st, as) \<Rightarrow> (st, Inr True # as))
          else ((c', Suc n), [Inr False]))"

definition memory_store :: "(nat \<Rightarrow> rat) \<Rightarrow> nat \<Rightarrow> (claims \<times> nat) delivery_store" where
  "memory_store clock j =
     \<lparr> st_claim = (\<lambda>k ow l (c, n). case claim k ow l (clock n) (clock (Suc n)) c of
                     (c', a) \<Rightarrow> ((c', Suc (Suc n)), Inr a)),
       st_complete = (\<lambda>k ow (c, n). ((complete k ow c, n), Inr ())),
       st_release = (\<lambda>k ow (c, n). ((release k ow c, n), Inr ())),
       st_renewals = renew_times clock j \<rparr>"

text \<open>The claims after an attempt are the replay of the store calls in its trace.\<close>

fun replay :: "string \<Rightarrow> string \<Rightarrow> effect list \<Rightarrow> claims \<Rightarrow> claims" where
  "replay k ow [] c = c"
| "replay k ow (e # t) c =
     replay k ow t
       (if e = Returned CompleteCall then complete k ow c
        else if e = Returned ReleaseCall then release k ow c else c)"

lemma replay_append: "replay k ow (a @ b) c = replay k ow b (replay k ow a c)"
  by (induction a arbitrary: c) auto

definition replays :: "string \<Rightarrow> string \<Rightarrow> (claims \<times> nat, 'u, 'a) delivery_io \<Rightarrow> bool" where
  "replays k ow m \<longleftrightarrow>
     (\<forall>s s' res. m s = (s', res) \<longrightarrow>
        (\<exists>t. rs_trace s' = rs_trace s @ t \<and> fst (rs_store s') = replay k ow t (fst (rs_store s))))"

named_theorems replays \<open>computations whose store calls are replayed by their trace\<close>

lemma replays_ret [replays]: "replays k ow (ret x)"
  by (simp add: replays_def ret_def)

lemma replays_throw [replays]: "replays k ow (throw x)"
  by (simp add: replays_def throw_def)

lemma replays_own [replays]: "replays k ow (own_io f)"
  by (simp add: replays_def own_io_def)

lemma replays_note: "e \<noteq> Returned CompleteCall \<Longrightarrow> e \<noteq> Returned ReleaseCall \<Longrightarrow> replays k ow (note_io e)"
  by (simp add: replays_def note_io_def)

lemma replays_world:
  "c \<noteq> CompleteCall \<Longrightarrow> c \<noteq> ReleaseCall \<Longrightarrow> replays k ow (world_call (\<lambda>_. Returned c) (Raised c) f)"
  by (auto simp: replays_def world_call_def split: prod.splits sum.splits)

lemma replays_bind [replays]:
  assumes m: "replays k ow m" and f: "\<And>v. replays k ow (f v)"
  shows "replays k ow (bind_io m f)"
  unfolding replays_def
proof (intro allI impI)
  fix s s' res
  assume run: "bind_io m f s = (s', res)"
  obtain s1 r1 where ms: "m s = (s1, r1)" by (cases "m s")
  with m obtain t1 where t1: "rs_trace s1 = rs_trace s @ t1" "fst (rs_store s1) = replay k ow t1 (fst (rs_store s))"
    unfolding replays_def by blast
  show "\<exists>t. rs_trace s' = rs_trace s @ t \<and> fst (rs_store s') = replay k ow t (fst (rs_store s))"
  proof (cases r1)
    case (Inl x)
    with run ms t1 show ?thesis by (auto simp: bind_io_def)
  next
    case (Inr v)
    with run ms have "f v s1 = (s', res)" by (simp add: bind_io_def)
    with f [of v] obtain t2 where "rs_trace s' = rs_trace s1 @ t2" "fst (rs_store s') = replay k ow t2 (fst (rs_store s1))"
      unfolding replays_def by blast
    with t1 show ?thesis by (intro exI [of _ "t1 @ t2"]) (simp add: replay_append)
  qed
qed

lemma replays_then [replays]: "replays k ow m \<Longrightarrow> replays k ow n \<Longrightarrow> replays k ow (then_io m n)"
  unfolding then_io_def by (rule replays_bind)

text \<open>A computation with its outcome as a value; \<open>catch\<close> and \<open>finally\<close> are sequences that start with it.\<close>

definition outcome_io :: "('e, 's, 'w, 'k, 'a) io \<Rightarrow> ('e, 's, 'w, 'k, (pyexn, 'a) result) io" where
  "outcome_io m s = (case m s of (s', res) \<Rightarrow> (s', Inr res))"

lemma replays_outcome: "replays k ow m \<Longrightarrow> replays k ow (outcome_io m)"
  by (simp add: replays_def outcome_io_def split: prod.split)

lemma catch_outcome: "catch_io m h = bind_io (outcome_io m) (\<lambda>res. case res of Inl x \<Rightarrow> h x | Inr v \<Rightarrow> ret v)"
  by (auto simp: fun_eq_iff bind_io_def catch_io_def outcome_io_def ret_def split: prod.splits sum.splits)

lemma finally_outcome:
  "finally_io m f = bind_io (outcome_io m) (\<lambda>res. then_io f (case res of Inl x \<Rightarrow> throw x | Inr v \<Rightarrow> ret v))"
  by (auto simp: fun_eq_iff bind_io_def then_io_def finally_io_def outcome_io_def ret_def throw_def
      split: prod.splits sum.splits)

lemma replays_catch [replays]:
  "replays k ow m \<Longrightarrow> (\<And>x. replays k ow (h x)) \<Longrightarrow> replays k ow (catch_io m h)"
  unfolding catch_outcome by (intro replays_bind replays_outcome) (auto intro: replays_ret split: sum.split)

lemma replays_finally [replays]:
  "replays k ow m \<Longrightarrow> replays k ow f \<Longrightarrow> replays k ow (finally_io m f)"
  unfolding finally_outcome
  by (intro replays_bind replays_outcome replays_then) (auto intro: replays_ret replays_throw split: sum.split)

lemma replays_complete [replays]: "rn_store r = memory_store clock j \<Longrightarrow> replays k ow (complete_io r k ow)"
  by (auto simp: replays_def complete_io_def store_call_def memory_store_def split: prod.splits)

lemma replays_release [replays]: "rn_store r = memory_store clock j \<Longrightarrow> replays k ow (release_io r k ow)"
  by (auto simp: replays_def release_io_def store_call_def memory_store_def split: prod.splits)

lemma replays_hook [replays]: "replays k ow (call_hook n h)"
  unfolding call_hook_def by (rule replays_world) simp_all

lemma replays_create [replays]: "replays k ow (create_message b sp c th)"
  unfolding create_message_def by (rule replays_world) simp_all

lemma replays_update [replays]: "replays k ow (update_message b n c)"
  unfolding update_message_def by (rule replays_world) simp_all

lemma replays_feed [replays]: "replays k ow (feed_io r e)"
  unfolding feed_io_def by (rule replays_world) simp_all

lemma replays_settle [replays]: "replays k ow (settle Acked)" "replays k ow (settle Nacked)"
  unfolding settle_def by (simp_all add: replays_note)

lemma replays_answer [replays]: "replays k ow (answer_io r e a)"
proof -
  have "replays k ow (send_answer r b sp e c th)" "replays k ow (update_answer r b e n d)" for b sp c th n d
    unfolding send_answer_def update_answer_def outbound_hook_def by (intro replays)+
  then show ?thesis
    by (cases a) (auto simp: answer_io_def replays_ret replays_throw split: option.split)
qed

lemma replays_rejected [replays]:
  "rn_store r = memory_store clock j \<Longrightarrow> replays k ow (capability_rejected r k ow e x)"
  by (auto simp: capability_rejected_def intro!: replays split: option.split)

lemma replays_attempt [replays]:
  assumes "rn_store r = memory_store clock j"
  shows "replays k ow (attempt r m k ow)"
proof -
  have fin: "replays k ow (if go then then_io (complete_io r k ow) (then_io (settle Acked)
        (call_hook ''delivery_acked''
          (map_option (\<lambda>f. f (pm_id m) e) (Option.bind (rn_hooks r) rh_delivery_acked)))) else ret ())" for go e
    using assms by (auto intro: replays)
  have ev: "replays k ow (then_io (own_io (track_stale e)) (bind_io (feed_io r e) (\<lambda>a.
      bind_io (catch_io (then_io (answer_io r e a) (ret True)) (capability_rejected r k ow e)) (\<lambda>go.
        if go then then_io (complete_io r k ow) (then_io (settle Acked)
        (call_hook ''delivery_acked''
          (map_option (\<lambda>f. f (pm_id m) e) (Option.bind (rn_hooks r) rh_delivery_acked)))) else ret ()))))" for e
    by (intro replays_then replays_own replays_bind replays_feed replays_catch replays_answer replays_ret
        replays_rejected [OF assms] fin)
  show ?thesis unfolding attempt_def
    by (rule replays_then) (auto intro: replays_note replays_throw ev split: sum.split)
qed

lemma replays_failed [replays]:
  assumes "rn_store r = memory_store clock j"
  shows "replays k ow (attempt_failed r m k ow x)"
proof -
  have rel: "replays k ow (catch_io (release_io r k ow) (\<lambda>y. if is_exception (exn_cls y) then ret () else throw y))"
    using assms by (auto intro!: replays_catch replays_release intro: replays)
  have notify: "replays k ow (notify_poison r e c)" for e c
    unfolding notify_poison_def by (auto intro!: replays_catch intro: replays split: option.split)
  show ?thesis unfolding attempt_failed_def Let_def
    by (auto intro!: replays_then rel notify intro: replays split: option.split)
qed

lemma replays_end [replays]: "replays k ow (end_renewal answers)"
  unfolding end_renewal_def
  by (rule replays_then) (auto intro: replays_note replays split: sum.split)

section \<open>The claim of a delivery\<close>

definition done_key :: "string \<Rightarrow> claims \<Rightarrow> bool" where
  "done_key k c \<longleftrightarrow> (\<exists>e. dict_get c k = Some e \<and> completed e)"

definition owned_key :: "string \<Rightarrow> string \<Rightarrow> claims \<Rightarrow> bool" where
  "owned_key k ow c \<longleftrightarrow> (\<exists>e. dict_get c k = Some e \<and> owner e = ow)"

lemma owned_complete [simp]: "owned_key k ow c \<Longrightarrow> owned_key k ow (complete k ow c) \<and> done_key k (complete k ow c)"
  by (auto simp: owned_key_def done_key_def complete_def)

lemma replay_keeps_done:
  "Returned ReleaseCall \<notin> set t \<Longrightarrow> owned_key k ow c \<Longrightarrow> done_key k c \<Longrightarrow> done_key k (replay k ow t c)"
  by (induction t arbitrary: c) auto

lemma replay_done:
  "Returned ReleaseCall \<notin> set t \<Longrightarrow> Returned CompleteCall \<in> set t \<Longrightarrow> owned_key k ow c \<Longrightarrow>
   done_key k (replay k ow t c)"
proof (induction t arbitrary: c)
  case (Cons e t)
  then show ?case by (cases "e = Returned CompleteCall") (auto intro: replay_keeps_done)
qed simp

lemma op_other [simp]:
  "k \<noteq> k' \<Longrightarrow> dict_get (complete k ow c) k' = dict_get c k'"
  "k \<noteq> k' \<Longrightarrow> dict_get (release k ow c) k' = dict_get c k'"
  "k \<noteq> k' \<Longrightarrow> dict_get (fst (renew k ow l t c)) k' = dict_get c k'"
  "k \<noteq> k' \<Longrightarrow> dict_get (fst (claim k ow l t u c)) k' = dict_get c k'"
  by (auto simp: complete_def release_def renew_def claim_def prune_expired_def Let_def split: option.splits)

lemma replay_other: "k \<noteq> k' \<Longrightarrow> dict_get (replay k ow t c) k' = dict_get c k'"
  by (induction t arbitrary: c) auto

lemma renew_owned: "owned_key k ow c \<Longrightarrow> owned_key k ow (fst (renew k ow l t c))"
  by (auto simp: owned_key_def renew_def split: option.splits)

lemma renew_times_owned:
  "owned_key k ow (fst st) \<Longrightarrow> owned_key k ow (fst (fst (renew_times clock j k ow l st)))"
proof (induction clock j k ow l st rule: renew_times.induct)
  case (2 clock j k ow l c n)
  then show ?case using renew_owned [of k ow c l "clock n"] by (auto split: prod.splits)
qed simp

lemma renew_times_other:
  "k \<noteq> k' \<Longrightarrow> dict_get (fst (fst (renew_times clock j k ow l st))) k' = dict_get (fst st) k'"
proof (induction clock j k ow l st rule: renew_times.induct)
  case (2 clock j k ow l c n)
  have "renew k ow l (clock n) c = (c', b) \<Longrightarrow> dict_get c' k' = dict_get c k'" for c' b
    using op_other(3) [OF 2(2), of ow l "clock n" c] by simp
  with 2 show ?case by (auto split: prod.splits)
qed simp

lemma handle_completed:
  assumes st: "rn_store r = memory_store clock j" and k: "done_key (delivery_key r m) (fst (rs_store s))"
  shows "handle r m ow s =
    (s\<lparr> rs_store := (fst (rs_store s), Suc (Suc (snd (rs_store s)))),
        rs_trace := rs_trace s @ [ClaimAnswered COMPLETED, Acked] \<rparr>, Inr ())"
proof -
  obtain c n where s: "rs_store s = (c, n)" by (cases "rs_store s")
  with k obtain e where e: "dict_get c (delivery_key r m) = Some e" "completed e" by (auto simp: done_key_def)
  then have "claim (delivery_key r m) ow default_lease t u c = (c, COMPLETED)" for t u
    by (simp add: claim_def prune_expired_def Let_def)
  then show ?thesis
    by (simp add: handle_def Let_def io_defs claim_io_def settle_def st memory_store_def s)
qed

text \<open>A delivery goes on from the answer of the store.\<close>

lemma handle_claim:
  assumes "rn_store r = memory_store clock j" and "rs_store s = (c, n)"
    and "claim (delivery_key r m) ow default_lease (clock n) (clock (Suc n)) c = (c1, a)"
  shows "handle r m ow s =
    (case a of COMPLETED \<Rightarrow> settle Acked | ACTIVE \<Rightarrow> settle Nacked
       | FIRST \<Rightarrow> first_claim r m (delivery_key r m) ow)
      (s\<lparr> rs_store := (c1, Suc (Suc n)), rs_trace := rs_trace s @ [ClaimAnswered a] \<rparr>)"
  using assms by (simp add: handle_def Let_def io_defs claim_io_def memory_store_def)

text \<open>The claims after any delivery: those of the claim, then the renewals and the replay when it was FIRST.\<close>

lemma handle_store:
  assumes st: "rn_store r = memory_store clock j" and run: "handle r m ow s = (s', res)"
    and tr: "rs_trace s' = rs_trace s @ t"
  shows "(hd t = ClaimAnswered FIRST \<and>
      (\<exists>c1 n1. owned_key (delivery_key r m) ow c1 \<and>
         (\<forall>k'. k' \<noteq> delivery_key r m \<longrightarrow> dict_get c1 k' = dict_get (fst (rs_store s)) k') \<and>
         fst (rs_store s') = replay (delivery_key r m) ow (tl t)
           (fst (fst (renew_times clock j (delivery_key r m) ow default_lease (c1, n1))))))
    \<or> t = [ClaimAnswered COMPLETED, Acked] \<and> fst (rs_store s') = fst (rs_store s)
    \<or> t = [ClaimAnswered ACTIVE, Nacked] \<and> fst (rs_store s') = fst (rs_store s)"
proof -
  let ?k = "delivery_key r m"
  obtain c n where s: "rs_store s = (c, n)" by (cases "rs_store s")
  obtain c1 a where cl: "claim ?k ow default_lease (clock n) (clock (Suc n)) c = (c1, a)"
    by (cases "claim ?k ow default_lease (clock n) (clock (Suc n)) c")
  have other: "k' \<noteq> ?k \<Longrightarrow> dict_get c1 k' = dict_get c k'" for k'
    using op_other(4) [of ?k k' ow default_lease "clock n" "clock (Suc n)" c] cl by simp
  let ?s1 = "s\<lparr> rs_store := (c1, Suc (Suc n)), rs_trace := rs_trace s @ [ClaimAnswered a] \<rparr>"
  have go: "handle r m ow s = (case a of COMPLETED \<Rightarrow> settle Acked | ACTIVE \<Rightarrow> settle Nacked
      | FIRST \<Rightarrow> first_claim r m ?k ow) ?s1"
    using handle_claim [OF st s cl] .
  have same: "a \<noteq> FIRST \<Longrightarrow> c1 = prune_expired ?k (clock n) c"
    using cl by (auto simp: claim_def Let_def split: option.splits if_splits)
  have live: "a \<noteq> FIRST \<Longrightarrow> c1 = c"
    using cl by (auto simp: claim_def prune_expired_def Let_def split: option.splits if_splits)
  show ?thesis
  proof (cases a)
    case FIRST
    have own: "owned_key ?k ow c1"
      using cl FIRST by (auto simp: claim_def Let_def owned_key_def split: option.splits if_splits)
    obtain st1 answers where rn: "renew_times clock j ?k ow default_lease (c1, Suc (Suc n)) = (st1, answers)"
      by (cases "renew_times clock j ?k ow default_lease (c1, Suc (Suc n))")
    have "first_claim r m ?k ow ?s1 =
        finally_io (catch_io (attempt r m ?k ow) (attempt_failed r m ?k ow)) (end_renewal answers)
          (?s1\<lparr> rs_store := st1 \<rparr>)"
      using rn by (simp add: first_claim_def st memory_store_def)
    with go FIRST run have fin: "finally_io (catch_io (attempt r m ?k ow) (attempt_failed r m ?k ow))
        (end_renewal answers) (?s1\<lparr> rs_store := st1 \<rparr>) = (s', res)" by simp
    have "replays ?k ow (finally_io (catch_io (attempt r m ?k ow) (attempt_failed r m ?k ow)) (end_renewal answers))"
      by (intro replays_finally replays_catch replays_attempt [OF st] replays_failed [OF st] replays_end)
    with fin obtain u where u: "rs_trace s' = rs_trace s @ [ClaimAnswered a] @ u"
      "fst (rs_store s') = replay ?k ow u (fst st1)"
      unfolding replays_def by fastforce
    with tr FIRST have t: "t = ClaimAnswered FIRST # u" by simp
    show ?thesis
      using own other u(2) rn s by (intro disjI1 conjI exI [of _ c1] exI [of _ "Suc (Suc n)"]) (auto simp: t)
  next
    case COMPLETED
    with go run tr live s show ?thesis by (auto simp: settle_def note_io_def)
  next
    case ACTIVE
    with go run tr live s show ?thesis by (auto simp: settle_def note_io_def)
  qed
qed

lemma handle_keeps_done:
  assumes st: "rn_store r = memory_store clock j" and k: "done_key k (fst (rs_store s))"
  shows "done_key k (fst (rs_store (fst (handle r m ow s))))"
proof (cases "k = delivery_key r m")
  case True
  with handle_completed [OF st, of m s ow] k show ?thesis by simp
next
  case False
  obtain s' res where run: "handle r m ow s = (s', res)" by (cases "handle r m ow s")
  obtain t where tr: "rs_trace s' = rs_trace s @ t"
    using handle_emits [OF parts_raise_any, of r m ow] run by (auto elim: emitsE)
  have "dict_get (fst (rs_store s')) k = dict_get (fst (rs_store s)) k"
    using handle_store [OF st run tr] False
    by (auto simp: replay_other renew_times_other)
  with k run show ?thesis by (simp add: done_key_def)
qed

fun run_deliveries ::
    "('s, 'u) runner \<Rightarrow> (pubsub_message \<times> string) list
     \<Rightarrow> (effect, 's, 'u world, seen_times) run_state \<Rightarrow> (effect, 's, 'u world, seen_times) run_state" where
  "run_deliveries r [] s = s"
| "run_deliveries r ((m, ow) # ds) s = run_deliveries r ds (fst (handle r m ow s))"

lemma run_keeps_done:
  "rn_store r = memory_store clock j \<Longrightarrow> done_key k (fst (rs_store s)) \<Longrightarrow>
   done_key k (fst (rs_store (run_deliveries r ds s)))"
  by (induction r ds s rule: run_deliveries.induct) (auto simp: handle_keeps_done)

lemma handle_completes:
  assumes st: "rn_store r = memory_store clock j" and run: "handle r m ow s = (s', res)"
    and tr: "rs_trace s' = rs_trace s @ t" and c: "Returned CompleteCall \<in> set t"
  shows "done_key (delivery_key r m) (fst (rs_store s'))"
proof -
  have "delivery_spec (\<lambda>_. True) r m t res"
    using handle_emits [OF parts_raise_any, of r m ow] run tr by (auto elim!: emitsE)
  with c obtain u where u: "t = ClaimAnswered FIRST # u" "first_spec (\<lambda>_. True) r m u res"
    by (auto simp: delivery_spec_def)
  with c have "Returned CompleteCall \<in> set u" "Returned ReleaseCall \<notin> set u"
    by (auto simp: first_spec_def)
  with handle_store [OF st run tr] u show ?thesis
    by (auto intro!: replay_done renew_times_owned)
qed

section \<open>A runner to compute with\<close>

text \<open>A dispatcher without handlers, the in-process store at time zero, and readers that find a \<open>PING\<close> in
  every message that is text.\<close>

definition ping_model :: interaction_model where
  "ping_model =
     \<lparr> im_type = ''PING'', im_event_time = None, im_message = None, im_user = None, im_thread = None,
       im_space = None, im_action = None, im_is_dialog = None, im_dialog_type = None, im_common = None,
       im_command = None \<rparr>"

definition idle_dispatcher :: "(unit, answer) dispatcher" where
  "idle_dispatcher =
     \<lparr> dp_heap = (\<lambda>_. None), dp_root = 0, dp_routers = 0, dp_bot = None, dp_fsm = None, dp_hooks = None,
       dp_preview = {}, dp_strict = False \<rparr>"

definition sample_runner :: "unit runner_hooks option \<Rightarrow> (claims \<times> nat, unit) runner" where
  "sample_runner hk =
     \<lparr> rn_dispatcher = idle_dispatcher, rn_subscription = ''sub'', rn_bot = None, rn_hooks = hk,
       rn_store = memory_store (\<lambda>_. 0) 0, rn_max_attempts = 5,
       rn_readers = \<lparr> rd_utf8 = Some, rd_loads = (\<lambda>_. Some (PDict [(PStr ''type'', PStr ''PING'')])),
                      rd_validate = (\<lambda>_. Some ping_model), rd_fromiso = (\<lambda>_. None) \<rparr> \<rparr>"

definition sample_state :: "(effect, claims \<times> nat, unit world, seen_times) run_state" where
  "sample_state =
     \<lparr> rs_store = ([], 0), rs_world = \<lparr> current_bot = None, outside = () \<rparr>, rs_own = [], rs_trace = [] \<rparr>"

definition ping :: "int option \<Rightarrow> pubsub_message" where
  "ping n = \<lparr> pm_id = ''1'', pm_data = PStr ''{}'', pm_attempt = n \<rparr>"

definition ping_event :: event where
  "ping_event = Event (UnknownEvent ''PING'') (PDict [(PStr ''type'', PStr ''PING'')]) None None None None None None None"

lemma parse_ping: "parse_message (rn_readers (sample_runner hk)) (ping n) = Inr ping_event"
  by (simp add: parse_message_def message_text_of_def ping_def sample_runner_def unwrap_push_def obj_get_def
      is_mapping_def parse_interaction_def normalize_envelope_def envelope_event_def join_common_def
      del_key_def ping_model_def event_kwargs_of_def timestamp_def dialog_of_def thread_of_def
      typed_event_def known_types_def make_event_def ping_event_def Let_def)

lemma feed_idle: "feed_update idle_dispatcher e c w = (w, Inr None)"
proof -
  have pass: "route_pass idle_dispatcher e d n w = (w, Inr NotHandled)" for e d n w
    by (simp add: route_pass_def idle_dispatcher_def observer_of_def new_observer_def middleware_of_def
        try_routers_def try_router_def)
  have "specific_passes idle_dispatcher e d ns w = (w, Inr NotHandled)" for e d ns w
    by (induction idle_dispatcher e d ns w rule: specific_passes.induct) (simp_all add: pass)
  then have "route_with_errors idle_dispatcher e d w = (w, Inr None, None)" for d w
    by (simp add: route_with_errors_def route_event_def pass log_unmatched_def answer_of_def)
      (simp add: idle_dispatcher_def)
  then show ?thesis
    by (simp add: feed_update_def maybe_hook_def Let_def) (simp add: idle_dispatcher_def)
qed

definition ping_claim :: claim_entry where
  "ping_claim = \<lparr> owner = ''A'', lease_until = 300, completed = True \<rparr>"

lemma sample_key: "delivery_key (sample_runner hk) (ping n) = ''sub:1''"
  by (simp add: delivery_key_def sample_runner_def ping_def)

lemma sample_first:
  "handle (sample_runner hk) (ping n) ''A'' sample_state =
     first_claim (sample_runner hk) (ping n) ''sub:1'' ''A''
       (sample_state\<lparr> rs_store := ([(''sub:1'', ping_claim\<lparr> completed := False \<rparr>)], 2),
                      rs_trace := [ClaimAnswered FIRST] \<rparr>)"
proof -
  have "rn_store (sample_runner hk) = memory_store (\<lambda>_. 0) 0" by (simp add: sample_runner_def)
  moreover have "rs_store sample_state = ([], 0)" by (simp add: sample_state_def)
  moreover have "claim (delivery_key (sample_runner hk) (ping n)) ''A'' default_lease 0 0 [] =
      ([(''sub:1'', ping_claim\<lparr> completed := False \<rparr>)], FIRST)"
    by (simp add: sample_key claim_def prune_expired_def default_lease_def ping_claim_def)
  ultimately show ?thesis
    using handle_claim [of "sample_runner hk" "\<lambda>_. 0" 0 sample_state "[]" 0 "ping n" "''A''"]
    by (simp add: sample_key sample_state_def eval_nat_numeral)
qed

lemma sample_feed:
  "feed_io (sample_runner hk) ping_event s = (s\<lparr> rs_trace := rs_trace s @ [Returned FeedCall] \<rparr>, Inr NoAnswer)"
  by (simp add: feed_io_def world_call_def sample_runner_def feed_idle)

lemma sample_attempt:
  "rs_store s = ([(''sub:1'', ping_claim\<lparr> completed := False \<rparr>)], q) \<Longrightarrow>
   attempt (sample_runner hk) (ping n) ''sub:1'' ''A'' s =
     call_hook ''delivery_acked'' (map_option (\<lambda>f. f ''1'' ping_event) (Option.bind hk rh_delivery_acked))
       (s\<lparr> rs_store := ([(''sub:1'', ping_claim)], q),
          rs_trace := rs_trace s @ [RenewalStarted, Returned FeedCall, Returned CompleteCall, Acked] \<rparr>)"
proof -
  assume s: "rs_store s = ([(''sub:1'', ping_claim\<lparr> completed := False \<rparr>)], q)"
  have seen: "track_stale ping_event = (\<lambda>x. x)"
    by (simp add: fun_eq_iff track_stale_def interaction_message_def ping_event_def)
  have ans: "answer_io (sample_runner hk) ping_event NoAnswer = ret None" by (simp add: answer_io_def)
  show ?thesis
    unfolding attempt_def parse_ping
    by (simp add: then_io_def bind_io_def note_io_def own_io_def catch_io_def seen sample_feed ans ret_def
        complete_io_def store_call_def settle_def s)
      (simp add: sample_runner_def memory_store_def complete_def ping_claim_def ping_def)
qed

lemma sample_trace:
  "handle (sample_runner None) (ping n) ''A'' sample_state =
     (sample_state\<lparr> rs_store := ([(''sub:1'', ping_claim)], 2),
        rs_trace := [ClaimAnswered FIRST, RenewalStarted, Returned FeedCall, Returned CompleteCall, Acked,
                     Returned (HookCall ''delivery_acked''), RenewalEnded] \<rparr>, Inr ())"
proof -
  have rn: "st_renewals (rn_store (sample_runner None)) = renew_times (\<lambda>_. 0) 0"
    by (simp add: sample_runner_def memory_store_def)
  show ?thesis
    unfolding sample_first first_claim_def rn
    by (simp add: finally_io_def catch_io_def sample_attempt call_hook_def world_call_def maybe_hook_def
        end_renewal_def then_io_def bind_io_def note_io_def ret_def is_cancelled_iff)
qed

text \<open>A hook that is cancelled after the acknowledgement.\<close>

definition cancelled_hook :: "unit runner_hooks" where
  "cancelled_hook =
     \<lparr> rh_before_outbound = None, rh_after_outbound = None,
       rh_delivery_acked = Some (\<lambda>_ _ w. (w, Some (exn (Py CancelledError)))), rh_delivery_nacked = None \<rparr>"

lemma cancelled_trace:
  "handle (sample_runner (Some cancelled_hook)) (ping n) ''A'' sample_state =
     (sample_state\<lparr> rs_store := ([(''sub:1'', ping_claim)], 2),
        rs_trace := [ClaimAnswered FIRST, RenewalStarted, Returned FeedCall, Returned CompleteCall, Acked,
                     Raised (HookCall ''delivery_acked'') (Py CancelledError), Nacked, RenewalEnded] \<rparr>,
      Inl (exn (Py CancelledError)))"
proof -
  have rn: "st_renewals (rn_store (sample_runner hk)) = renew_times (\<lambda>_. 0) 0" for hk
    by (simp add: sample_runner_def memory_store_def)
  show ?thesis
    unfolding sample_first first_claim_def rn
    by (simp add: finally_io_def catch_io_def sample_attempt call_hook_def world_call_def maybe_hook_def
        end_renewal_def then_io_def bind_io_def note_io_def ret_def throw_def is_cancelled_iff cancelled_hook_def
        attempt_failed_def settle_def Let_def)
qed

section \<open>Properties of a delivery\<close>

text \<open>C1. A delivery is settled exactly once: when the parts of the runner raise only subclasses of
  \<open>Exception\<close> and the message carries its attempt number, \<open>_handle\<close> returns and has either ACKed or NACKed,
  once.\<close>

theorem delivery_settled_once:
  assumes "parts_raise (\<lambda>x. is_exception (exn_cls x)) r" and "pm_attempt m = Some n"
  shows "case handle r m ow s of (s', res) \<Rightarrow>
    res = Inr () \<and> (\<exists>t. rs_trace s' = rs_trace s @ t \<and> (settled t = [Acked] \<or> settled t = [Nacked]))"
proof -
  obtain s' res where run: "handle r m ow s = (s', res)" by (cases "handle r m ow s")
  with handle_emits [OF assms(1), of m ow] obtain t where t: "rs_trace s' = rs_trace s @ t"
    "delivery_spec (\<lambda>x. is_exception (exn_cls x)) r m t res" by (rule emitsE)
  then have "res = Inr () \<and> (settled t = [Acked] \<or> settled t = [Nacked])"
    using assms(2) by (cases res) (auto simp: delivery_spec_def first_spec_def)
  with run t show ?thesis by auto
qed

lemma sample_tame: "parts_raise (\<lambda>x. is_exception (exn_cls x)) (sample_runner None)"
  by (auto simp: parts_raise_def store_raises_def bot_raises_def hooks_raise_def hook_raises_def feed_raises_def
      sample_runner_def memory_store_def maybe_hook_def feed_idle split: prod.splits)

lemma delivery_settled_once_witness:
  "\<exists>t. rs_trace (fst (handle (sample_runner None) (ping (Some 1)) ''A'' sample_state)) = t \<and> settled t = [Acked]"
proof -
  have "pm_attempt (ping (Some 1)) = Some 1" by (simp add: ping_def)
  from delivery_settled_once [OF sample_tame this, of sample_state "''A''"] show ?thesis
    by (simp add: sample_trace)
qed


text \<open>C37. Two gaps of the protocol are real. When the \<open>delivery_acked\<close> hook is cancelled, one delivery is ACKed
  and then NACKed. When a message without an attempt number fails, comparing the missing number raises a
  \<open>TypeError\<close> out of \<open>_handle\<close> and the delivery is neither ACKed nor NACKed.\<close>

theorem protocol_gaps:
  "settled (rs_trace (fst (handle (sample_runner (Some cancelled_hook)) (ping n) ''A'' sample_state))) = [Acked, Nacked]
   \<and> (case handle (sample_runner None) ((ping None)\<lparr> pm_data := PNone \<rparr>) ''A'' sample_state of
        (s', res) \<Rightarrow> res = Inl (exn (Py TypeErr)) \<and> settled (rs_trace s') = [])"
proof
  show "settled (rs_trace (fst (handle (sample_runner (Some cancelled_hook)) (ping n) ''A'' sample_state))) = [Acked, Nacked]"
    by (simp add: cancelled_trace)
  let ?m = "(ping None)\<lparr> pm_data := PNone \<rparr>"
  let ?r = "sample_runner None"
  have st: "rn_store ?r = memory_store (\<lambda>_. 0) 0" by (simp add: sample_runner_def)
  have key: "delivery_key ?r ?m = ''sub:1''" by (simp add: delivery_key_def sample_runner_def ping_def)
  have cl: "claim (delivery_key ?r ?m) ''A'' default_lease ((\<lambda>_. 0) 0) ((\<lambda>_. 0) (Suc 0)) [] =
      ([(''sub:1'', ping_claim\<lparr> completed := False \<rparr>)], FIRST)"
    by (simp add: key claim_def prune_expired_def default_lease_def ping_claim_def)
  have s0: "rs_store sample_state = ([], 0)" by (simp add: sample_state_def)
  have bad: "parse_message (rn_readers ?r) ?m = Inl (exn (Wire PubSubEnvelopeError))"
    by (simp add: parse_message_def message_text_of_def bad_envelope_def)
  have rn: "st_renewals (rn_store ?r) = renew_times (\<lambda>_. 0) 0" by (simp add: st memory_store_def)
  have rel: "st_release (rn_store ?r) k ow (c, q) = ((release k ow c, q), Inr ())" for k ow c q
    by (simp add: st memory_store_def)
  have att: "attempt ?r ?m k ow s = (s\<lparr> rs_trace := rs_trace s @ [RenewalStarted] \<rparr>, Inl (exn (Wire PubSubEnvelopeError)))"
    for k ow s
    by (simp add: attempt_def bad then_io_def bind_io_def note_io_def throw_def)
  have none: "pm_attempt ?m = None" by (simp add: ping_def)
  show "case handle ?r ?m ''A'' sample_state of
        (s', res) \<Rightarrow> res = Inl (exn (Py TypeErr)) \<and> settled (rs_trace s') = []"
    unfolding handle_claim [OF st s0 cl] claim_result.case first_claim_def
    by (simp add: rn finally_io_def catch_io_def att attempt_failed_def bad none then_io_def bind_io_def
        release_io_def store_call_def rel throw_def ret_def is_cancelled_iff end_renewal_def note_io_def
        sample_state_def)
qed

text \<open>Effectively once: after a delivery completed its claim in the in-process store, and whatever other
  deliveries of any messages came since, the message delivered again is ACKed at once, no handler runs
  and nothing outside the store changes.\<close>

theorem redelivery_absorbed:
  assumes "rn_store r = memory_store clock j" and "handle r m ow s = (s1, res)"
    and "rs_trace s1 = rs_trace s @ t" and "Returned CompleteCall \<in> set t" and "pm_id m' = pm_id m"
    and "run_deliveries r ds s1 = s2"
  shows "handle r m' ow' s2 =
    (s2\<lparr> rs_store := (fst (rs_store s2), Suc (Suc (snd (rs_store s2)))),
         rs_trace := rs_trace s2 @ [ClaimAnswered COMPLETED, Acked] \<rparr>, Inr ())"
proof -
  have "done_key (delivery_key r m) (fst (rs_store s1))" using assms(1-4) by (rule handle_completes)
  then have "done_key (delivery_key r m) (fst (rs_store s2))"
    using run_keeps_done [OF assms(1)] assms(6) by blast
  then have "done_key (delivery_key r m') (fst (rs_store s2))" using assms(5) by (simp add: delivery_key_def)
  with assms(1) show ?thesis by (rule handle_completed)
qed

lemma redelivery_absorbed_witness:
  "rs_trace (fst (handle (sample_runner None) (ping None) ''B''
      (fst (handle (sample_runner None) (ping (Some 1)) ''A'' sample_state)))) =
    [ClaimAnswered FIRST, RenewalStarted, Returned FeedCall, Returned CompleteCall, Acked,
     Returned (HookCall ''delivery_acked''), RenewalEnded, ClaimAnswered COMPLETED, Acked]"
proof -
  let ?t = "[ClaimAnswered FIRST, RenewalStarted, Returned FeedCall, Returned CompleteCall, Acked,
     Returned (HookCall ''delivery_acked''), RenewalEnded]"
  let ?s1 = "sample_state\<lparr> rs_store := ([(''sub:1'', ping_claim)], 2), rs_trace := ?t \<rparr>"
  have "handle (sample_runner None) (ping None) ''B'' ?s1 =
      (?s1\<lparr> rs_store := (fst (rs_store ?s1), Suc (Suc (snd (rs_store ?s1)))),
         rs_trace := rs_trace ?s1 @ [ClaimAnswered COMPLETED, Acked] \<rparr>, Inr ())"
    by (rule redelivery_absorbed [where t = ?t and ds = "[]" and m = "ping (Some 1)" and s = sample_state
          and ow = "''A''" and clock = "\<lambda>_. 0" and j = 0])
      (simp_all add: sample_trace, simp_all add: sample_runner_def sample_state_def ping_def)
  then show ?thesis by (simp add: sample_trace)
qed

end
