(* ===== verification/KeyedLocks.thy ===== *)
theory KeyedLocks
  imports Prelude
begin

text \<open>
  The registry of per-key locks of the pull runner (\<open>_KeyedLockRegistry\<close> in
  \<open>transports/pubsub_runner.py\<close>), which serializes the updates of one card. The tasks of the event loop
  interleave at their awaits, so the registry is a state machine: a task asks for a key, is resumed when
  the event loop gets to it, is cancelled, or releases. \<open>asyncio.Lock\<close> is modelled with its queue of
  futures: a future is pending, ready (the lock was offered), dropped (cancelled while pending) or doomed
  (cancelled after it became ready, before the task ran).
\<close>

section \<open>State\<close>

type_synonym task = nat

type_synonym lock_id = nat

datatype future = Pending | Ready | Dropped | Doomed

record lock =
  lk_locked :: bool
  lk_queue :: "(task \<times> future) list"

datatype task_state = Idle | Waits string lock_id | Holds string lock_id

record registry =
  rg_locks :: "string \<Rightarrow> lock_id option"
  rg_waiters :: "string \<Rightarrow> nat option"
  rg_heap :: "lock_id \<Rightarrow> lock"
  rg_next :: lock_id
  rg_task :: "task \<Rightarrow> task_state"

definition new_lock :: lock where
  "new_lock = \<lparr> lk_locked = False, lk_queue = [] \<rparr>"

definition new_registry :: registry where
  "new_registry =
     \<lparr> rg_locks = (\<lambda>_. None), rg_waiters = (\<lambda>_. None), rg_heap = (\<lambda>_. new_lock), rg_next = 0,
       rg_task = (\<lambda>_. Idle) \<rparr>"

section \<open>The lock\<close>

text \<open>\<open>_wake_up_first\<close>\<close>

fun wake_first :: "(task \<times> future) list \<Rightarrow> (task \<times> future) list" where
  "wake_first [] = []"
| "wake_first ((t, f) # q) = (t, if f = Pending then Ready else f) # q"

definition lock_free :: "lock \<Rightarrow> bool" where
  "lock_free l \<longleftrightarrow> \<not> lk_locked l \<and> list_all (\<lambda>(t, f). f = Dropped) (lk_queue l)"

definition unqueue :: "task \<Rightarrow> lock \<Rightarrow> lock" where
  "unqueue t l = l\<lparr> lk_queue := filter (\<lambda>(u, f). u \<noteq> t) (lk_queue l) \<rparr>"

text \<open>What a failed wait does: the future leaves the queue and the offer is passed on.\<close>

definition give_up :: "task \<Rightarrow> lock \<Rightarrow> lock" where
  "give_up t l =
     (let l' = unqueue t l in if lk_locked l' then l' else l'\<lparr> lk_queue := wake_first (lk_queue l') \<rparr>)"

definition future_of :: "task \<Rightarrow> lock \<Rightarrow> future option" where
  "future_of t l = map_of (lk_queue l) t"

section \<open>The registry\<close>

definition drop_waiter :: "string \<Rightarrow> registry \<Rightarrow> registry" where
  "drop_waiter k s =
     (let remaining = (case rg_waiters s k of Some n \<Rightarrow> n | None \<Rightarrow> 0) - 1
      in s\<lparr> rg_waiters := (rg_waiters s)(k := if remaining = 0 then None else Some remaining) \<rparr>)"

text \<open>The first part of \<open>acquire\<close>, up to the point where the task waits or has the lock.\<close>

definition acquire :: "task \<Rightarrow> string \<Rightarrow> registry \<Rightarrow> registry" where
  "acquire t k s0 =
     (let s = (case rg_locks s0 k of
                 Some l \<Rightarrow> s0
               | None \<Rightarrow> s0\<lparr> rg_locks := (rg_locks s0)(k := Some (rg_next s0)),
                            rg_heap := (rg_heap s0)(rg_next s0 := new_lock), rg_next := Suc (rg_next s0) \<rparr>);
          l = the (rg_locks s k);
          lk = rg_heap s l;
          s1 = s\<lparr> rg_waiters := (rg_waiters s)(k := Some (Suc (case rg_waiters s k of Some n \<Rightarrow> n | None \<Rightarrow> 0))) \<rparr>
      in if lock_free lk
         then s1\<lparr> rg_heap := (rg_heap s1)(l := lk\<lparr> lk_locked := True \<rparr>), rg_task := (rg_task s1)(t := Holds k l) \<rparr>
         else s1\<lparr> rg_heap := (rg_heap s1)(l := lk\<lparr> lk_queue := lk_queue lk @ [(t, Pending)] \<rparr>),
                 rg_task := (rg_task s1)(t := Waits k l) \<rparr>)"

text \<open>The rest of \<open>acquire\<close>, when the task runs again: it has the lock, or the wait failed and the exception
  goes on.\<close>

definition resume :: "task \<Rightarrow> string \<Rightarrow> lock_id \<Rightarrow> registry \<Rightarrow> registry" where
  "resume t k l s =
     (let lk = rg_heap s l
      in case future_of t lk of
           Some Ready \<Rightarrow>
             s\<lparr> rg_heap := (rg_heap s)(l := (unqueue t lk)\<lparr> lk_locked := True \<rparr>),
                rg_task := (rg_task s)(t := Holds k l) \<rparr>
         | Some Pending \<Rightarrow> s
         | _ \<Rightarrow>
             drop_waiter k (s\<lparr> rg_heap := (rg_heap s)(l := give_up t lk), rg_task := (rg_task s)(t := Idle) \<rparr>))"

definition cancelled_future :: "future \<Rightarrow> future" where
  "cancelled_future f = (case f of Pending \<Rightarrow> Dropped | Ready \<Rightarrow> Doomed | _ \<Rightarrow> f)"

definition cancel_queue :: "task \<Rightarrow> (task \<times> future) list \<Rightarrow> (task \<times> future) list" where
  "cancel_queue t q = map (\<lambda>(u, f). (u, if u = t then cancelled_future f else f)) q"

definition cancel :: "task \<Rightarrow> lock_id \<Rightarrow> registry \<Rightarrow> registry" where
  "cancel t l s =
     s\<lparr> rg_heap := (rg_heap s)(l := (rg_heap s l)\<lparr> lk_queue := cancel_queue t (lk_queue (rg_heap s l)) \<rparr>) \<rparr>"

text \<open>\<open>release\<close> looks the lock up by its key; \<open>None\<close> is the \<open>KeyError\<close> of a missing lock or the
  \<open>RuntimeError\<close> of a lock that is not locked.\<close>

definition release_key :: "task \<Rightarrow> string \<Rightarrow> registry \<Rightarrow> registry option" where
  "release_key t k s0 =
     (let s = drop_waiter k s0
      in case rg_locks s k of
           None \<Rightarrow> None
         | Some l \<Rightarrow>
            (let lk = rg_heap s l
             in if \<not> lk_locked lk then None
                else Some (s\<lparr> rg_heap := (rg_heap s)(l := lk\<lparr> lk_locked := False, lk_queue := wake_first (lk_queue lk) \<rparr>),
                              rg_locks := (if rg_waiters s k = None then (rg_locks s)(k := None) else rg_locks s),
                              rg_task := (rg_task s)(t := Idle) \<rparr>)))"

text \<open>The steps. A resumed task has a future that is no longer pending.\<close>

inductive lock_step :: "registry \<Rightarrow> registry \<Rightarrow> bool" where
  acquiring: "rg_task s t = Idle \<Longrightarrow> lock_step s (acquire t k s)"
| resuming: "rg_task s t = Waits k l \<Longrightarrow> future_of t (rg_heap s l) \<noteq> Some Pending \<Longrightarrow> lock_step s (resume t k l s)"
| cancelling: "rg_task s t = Waits k l \<Longrightarrow> lock_step s (cancel t l s)"
| releasing: "rg_task s t = Holds k l \<Longrightarrow> release_key t k s = Some s' \<Longrightarrow> lock_step s s'"

section \<open>The invariant\<close>

definition involved :: "registry \<Rightarrow> string \<Rightarrow> task set" where
  "involved s k = {t. \<exists>l. rg_task s t = Waits k l \<or> rg_task s t = Holds k l}"

text \<open>A lock agrees with its tasks: its queue holds the waiting ones, it is locked exactly when one task holds
  it, only the head of the queue can have been offered the lock, and a free lock is always offered.\<close>

definition queue_ok :: "lock \<Rightarrow> bool" where
  "queue_ok lk \<longleftrightarrow>
     distinct (map fst (lk_queue lk)) \<and>
     (\<forall>(t, f) \<in> set (tl (lk_queue lk)). f = Pending \<or> f = Dropped) \<and>
     (lk_queue lk \<noteq> [] \<longrightarrow>
        (if lk_locked lk then snd (hd (lk_queue lk)) = Pending \<or> snd (hd (lk_queue lk)) = Dropped
         else snd (hd (lk_queue lk)) \<noteq> Pending))"

definition waiting :: "(task \<Rightarrow> task_state) \<Rightarrow> string \<Rightarrow> lock_id \<Rightarrow> task set" where
  "waiting task k l = {t. task t = Waits k l}"

definition holding :: "(task \<Rightarrow> task_state) \<Rightarrow> string \<Rightarrow> lock_id \<Rightarrow> task set" where
  "holding task k l = {t. task t = Holds k l}"

definition lock_ok :: "(task \<Rightarrow> task_state) \<Rightarrow> string \<Rightarrow> lock_id \<Rightarrow> lock \<Rightarrow> bool" where
  "lock_ok task k l lk \<longleftrightarrow>
     queue_ok lk \<and> fst ` set (lk_queue lk) = waiting task k l \<and>
     (if lk_locked lk then is_singleton (holding task k l) else holding task k l = {})"

lemma waiting_upd [simp]:
  "waiting (task(t := x)) k l = (if x = Waits k l then insert t (waiting task k l) else waiting task k l - {t})"
  by (auto simp: waiting_def)

lemma holding_upd [simp]:
  "holding (task(t := x)) k l = (if x = Holds k l then insert t (holding task k l) else holding task k l - {t})"
  by (auto simp: holding_def)

definition registry_ok :: "registry \<Rightarrow> bool" where
  "registry_ok s \<longleftrightarrow>
     (\<forall>k. finite (involved s k)) \<and>
     (\<forall>k. rg_waiters s k = (if involved s k = {} then None else Some (card (involved s k)))) \<and>
     (\<forall>t k l. rg_task s t = Waits k l \<or> rg_task s t = Holds k l \<longrightarrow> rg_locks s k = Some l) \<and>
     (\<forall>k k' l. rg_locks s k = Some l \<longrightarrow> rg_locks s k' = Some l \<longrightarrow> k = k') \<and>
     (\<forall>k l. rg_locks s k = Some l \<longrightarrow> l < rg_next s \<and> lock_ok (rg_task s) k l (rg_heap s l))"

lemma registry_okD:
  assumes "registry_ok s"
  shows "finite (involved s k)"
    and "rg_waiters s k = (if involved s k = {} then None else Some (card (involved s k)))"
    and "rg_task s t = Waits k l \<Longrightarrow> rg_locks s k = Some l"
    and "rg_task s t = Holds k l \<Longrightarrow> rg_locks s k = Some l"
    and "rg_locks s k = Some l \<Longrightarrow> rg_locks s k' = Some l \<Longrightarrow> k = k'"
    and "rg_locks s k = Some l \<Longrightarrow> l < rg_next s"
    and "rg_locks s k = Some l \<Longrightarrow> lock_ok (rg_task s) k l (rg_heap s l)"
  using assms unfolding registry_ok_def by blast+

lemma new_registry_ok: "registry_ok new_registry"
  by (simp add: registry_ok_def new_registry_def involved_def)

text \<open>A step that changes one task, one key and its lock keeps the other keys as they are.\<close>

lemma lock_ok_cong:
  assumes "\<And>u. task' u = Waits k l \<longleftrightarrow> task u = Waits k l"
    and "\<And>u. task' u = Holds k l \<longleftrightarrow> task u = Holds k l"
  shows "lock_ok task' k l lk = lock_ok task k l lk"
  by (simp add: lock_ok_def waiting_def holding_def assms)

lemma lock_ok_other:
  assumes "task t \<in> {Idle, Waits k l, Holds k l}" "x \<in> {Idle, Waits k l, Holds k l}" "k' \<noteq> k"
  shows "lock_ok (task(t := x)) k' l' lk = lock_ok task k' l' lk"
  by (rule lock_ok_cong) (use assms in \<open>auto split: if_splits\<close>)

definition with_task :: "task \<Rightarrow> string \<Rightarrow> lock_id \<Rightarrow> task_state \<Rightarrow> lock \<Rightarrow> nat option \<Rightarrow> registry \<Rightarrow> registry" where
  "with_task t k l x lk w s =
     s\<lparr> rg_heap := (rg_heap s)(l := lk), rg_waiters := (rg_waiters s)(k := w), rg_task := (rg_task s)(t := x) \<rparr>"

lemma involved_with_task:
  assumes "rg_task s t \<in> {Idle, Waits k l, Holds k l}" "x \<in> {Idle, Waits k l, Holds k l}"
  shows "involved (with_task t k l x lk w s) k' =
           (if k' = k then if x = Idle then involved s k - {t} else insert t (involved s k) else involved s k')"
  using assms by (auto simp: involved_def with_task_def)

lemma with_task_ok:
  assumes ok: "registry_ok s" and l: "rg_locks s k = Some l"
    and old: "rg_task s t \<in> {Idle, Waits k l, Holds k l}" and new: "x \<in> {Idle, Waits k l, Holds k l}"
    and lk: "lock_ok ((rg_task s)(t := x)) k l lk"
    and w: "w = (let I = (if x = Idle then involved s k - {t} else insert t (involved s k))
                 in if I = {} then None else Some (card I))"
  shows "registry_ok (with_task t k l x lk w s)"
proof -
  let ?s = "with_task t k l x lk w s"
  note inv = involved_with_task [OF old new, of lk w]
  have "\<forall>k'. finite (involved ?s k')"
    by (simp add: inv registry_okD(1) [OF ok])
  moreover have "\<forall>k'. rg_waiters ?s k' = (if involved ?s k' = {} then None else Some (card (involved ?s k')))"
  proof
    fix k'
    show "rg_waiters ?s k' = (if involved ?s k' = {} then None else Some (card (involved ?s k')))"
      unfolding inv using registry_okD(2) [OF ok, of k'] w by (simp add: with_task_def Let_def)
  qed
  moreover have "\<forall>u k' l'. rg_task ?s u = Waits k' l' \<or> rg_task ?s u = Holds k' l' \<longrightarrow> rg_locks ?s k' = Some l'"
    using registry_okD(3,4) [OF ok] new l by (auto simp: with_task_def split: if_splits)
  moreover have "\<forall>k' k'' l'. rg_locks ?s k' = Some l' \<longrightarrow> rg_locks ?s k'' = Some l' \<longrightarrow> k' = k''"
    using registry_okD(5) [OF ok] by (auto simp: with_task_def)
  moreover have "\<forall>k' l'. rg_locks ?s k' = Some l' \<longrightarrow>
                   l' < rg_next ?s \<and> lock_ok (rg_task ?s) k' l' (rg_heap ?s l')"
  proof (intro allI impI)
    fix k' l' assume k': "rg_locks ?s k' = Some l'"
    then have k'': "rg_locks s k' = Some l'" by (simp add: with_task_def)
    show "l' < rg_next ?s \<and> lock_ok (rg_task ?s) k' l' (rg_heap ?s l')"
    proof (cases "k' = k")
      case True
      then show ?thesis using k'' l lk registry_okD(6) [OF ok l] by (simp add: with_task_def)
    next
      case False
      then have "l' \<noteq> l" using registry_okD(5) [OF ok k''] l by blast
      then show ?thesis
        using registry_okD(6,7) [OF ok k''] lock_ok_other [of "rg_task s" t k l x k' l', OF old new False]
        by (simp add: with_task_def)
    qed
  qed
  ultimately show ?thesis unfolding registry_ok_def by blast
qed

lemma drop_lock_ok:
  assumes "registry_ok s" "involved s k = {}"
  shows "registry_ok (s\<lparr> rg_locks := (rg_locks s)(k := None) \<rparr>)"
proof -
  have "\<And>t l. rg_task s t \<noteq> Waits k l \<and> rg_task s t \<noteq> Holds k l"
    using assms(2) by (auto simp: involved_def)
  then show ?thesis
    using assms(1) unfolding registry_ok_def by (auto simp: involved_def)
qed

definition with_lock :: "string \<Rightarrow> registry \<Rightarrow> registry" where
  "with_lock k s =
     s\<lparr> rg_locks := (rg_locks s)(k := Some (rg_next s)), rg_heap := (rg_heap s)(rg_next s := new_lock),
        rg_next := Suc (rg_next s) \<rparr>"

lemma with_lock_ok:
  assumes ok: "registry_ok s" and free: "rg_locks s k = None"
  shows "registry_ok (with_lock k s)"
proof -
  let ?s = "with_lock k s"
  have none: "\<And>t l. rg_task s t \<noteq> Waits k l \<and> rg_task s t \<noteq> Holds k l"
    using registry_okD(3,4) [OF ok] free by force
  have inv: "involved ?s = involved s" by (simp add: with_lock_def involved_def fun_eq_iff)
  have "\<forall>k'. finite (involved ?s k')" "\<forall>k'. rg_waiters ?s k' =
          (if involved ?s k' = {} then None else Some (card (involved ?s k')))"
    using registry_okD(1,2) [OF ok] unfolding inv by (simp_all add: with_lock_def)
  moreover have "\<forall>u k' l'. rg_task ?s u = Waits k' l' \<or> rg_task ?s u = Holds k' l' \<longrightarrow> rg_locks ?s k' = Some l'"
    using registry_okD(3,4) [OF ok] none by (auto simp: with_lock_def)
  moreover have "\<forall>k' k'' l'. rg_locks ?s k' = Some l' \<longrightarrow> rg_locks ?s k'' = Some l' \<longrightarrow> k' = k''"
    using registry_okD(5) [OF ok] registry_okD(6) [OF ok, of _ "rg_next s"]
    by (auto simp: with_lock_def split: if_splits)
  moreover have "\<forall>k' l'. rg_locks ?s k' = Some l' \<longrightarrow>
                   l' < rg_next ?s \<and> lock_ok (rg_task ?s) k' l' (rg_heap ?s l')"
  proof (intro allI impI)
    fix k' l' assume k': "rg_locks ?s k' = Some l'"
    show "l' < rg_next ?s \<and> lock_ok (rg_task ?s) k' l' (rg_heap ?s l')"
    proof (cases "k' = k")
      case True
      then show ?thesis
        using k' none by (auto simp: with_lock_def lock_ok_def queue_ok_def new_lock_def waiting_def holding_def)
    next
      case False
      then have "rg_locks s k' = Some l'" using k' by (simp add: with_lock_def)
      from registry_okD(6,7) [OF ok this] show ?thesis by (auto simp: with_lock_def)
    qed
  qed
  ultimately show ?thesis unfolding registry_ok_def by blast
qed

section \<open>The operations keep it\<close>

lemma queue_head_ok [simp]:
  "queue_ok \<lparr> lk_locked = b, lk_queue = (t, f) # q, \<dots> = z \<rparr> \<longleftrightarrow>
     t \<notin> fst ` set q \<and> distinct (map fst q) \<and> (\<forall>(u, g) \<in> set q. g = Pending \<or> g = Dropped) \<and>
     (if b then f = Pending \<or> f = Dropped else f \<noteq> Pending)"
  by (auto simp: queue_ok_def)

lemma queue_nil_ok [simp]: "queue_ok \<lparr> lk_locked = b, lk_queue = [], \<dots> = z \<rparr>"
  by (simp add: queue_ok_def)

lemma waiters_count:
  assumes "registry_ok s"
  shows "(case rg_waiters s k of Some n \<Rightarrow> n | None \<Rightarrow> 0) = card (involved s k)"
  using registry_okD(2) [OF assms, of k] by simp

lemma acquire_ok:
  assumes ok: "registry_ok s0" and idle: "rg_task s0 t = Idle"
  shows "registry_ok (acquire t k s0)"
proof -
  define s where "s = (case rg_locks s0 k of Some l \<Rightarrow> s0 | None \<Rightarrow> with_lock k s0)"
  have s: "registry_ok s" "rg_task s t = Idle"
    using ok idle with_lock_ok [OF ok] by (auto simp: s_def with_lock_def split: option.splits)
  obtain l where l: "rg_locks s k = Some l"
    by (cases "rg_locks s0 k") (auto simp: s_def with_lock_def)
  have lk: "lock_ok (rg_task s) k l (rg_heap s l)" using registry_okD(7) [OF s(1) l] .
  have fresh: "t \<notin> involved s k" using s(2) by (simp add: involved_def)
  have t: "t \<notin> fst ` set (lk_queue (rg_heap s l))" using lk s(2) by (simp add: lock_ok_def waiting_def)
  have holds: "t \<notin> holding (rg_task s) k l" "t \<notin> waiting (rg_task s) k l"
    using s(2) by (simp_all add: holding_def waiting_def)
  let ?w = "Some (Suc (card (involved s k)))"
  let ?free = "lock_free (rg_heap s l)"
  let ?x = "if ?free then Holds k l else Waits k l"
  let ?lk = "if ?free then (rg_heap s l)\<lparr> lk_locked := True \<rparr>
             else (rg_heap s l)\<lparr> lk_queue := lk_queue (rg_heap s l) @ [(t, Pending)] \<rparr>"
  have "acquire t k s0 = with_task t k l ?x ?lk ?w s"
    using l waiters_count [OF s(1), of k]
    by (simp add: acquire_def with_task_def Let_def s_def with_lock_def split: option.splits)
  moreover have "lock_ok ((rg_task s)(t := ?x)) k l ?lk"
    using lk t holds
    by (cases "rg_heap s l"; cases "lk_queue (rg_heap s l)")
      (auto simp: lock_ok_def lock_free_def is_singleton_def)
  ultimately show ?thesis
    using with_task_ok [OF s(1) l, of t ?x ?lk ?w] s(2) fresh registry_okD(1) [OF s(1), of k]
    by (auto simp: Let_def)
qed

lemma wake_first_tasks [simp]: "fst ` set (wake_first q) = fst ` set q" "map fst (wake_first q) = map fst q"
  by (cases q; force)+

lemma quiet_queue_ok:
  assumes "distinct (map fst q)" "\<forall>(u, g) \<in> set q. g = Pending \<or> g = Dropped"
  shows "queue_ok \<lparr> lk_locked = False, lk_queue = wake_first q \<rparr>" "queue_ok \<lparr> lk_locked = True, lk_queue = q \<rparr>"
  by (cases q rule: wake_first.cases; use assms in \<open>force simp: queue_ok_def\<close>)+

lemma filter_tasks: "fst ` set (filter (\<lambda>(u, f). u \<noteq> t) q) = fst ` set q - {t}"
  by force

lemma filter_distinct: "distinct (map fst q) \<Longrightarrow> distinct (map fst (filter P q))"
  by (induction q) force+

lemma filter_other: "t \<notin> fst ` set q \<Longrightarrow> filter (\<lambda>(u, f). u \<noteq> t) q = q"
  by (induction q) auto

lemma give_up_queue_ok:
  assumes "queue_ok lk"
  shows "queue_ok (give_up t lk)"
proof (cases lk)
  case (fields b q)
  show ?thesis
  proof (cases q)
    case Nil
    then show ?thesis using fields by (simp add: give_up_def unqueue_def Let_def)
  next
    case (Cons h q')
    obtain u f where h: "h = (u, f)" by (cases h)
    have q': "u \<notin> fst ` set q'" "distinct (map fst q')" "\<forall>(u, g) \<in> set q'. g = Pending \<or> g = Dropped"
      and f: "if b then f = Pending \<or> f = Dropped else f \<noteq> Pending"
      using assms fields Cons h by auto
    let ?q = "filter (\<lambda>(u, f). u \<noteq> t) q'"
    have rest: "distinct (map fst ?q)" "\<forall>(u, g) \<in> set ?q. g = Pending \<or> g = Dropped" "u \<notin> fst ` set ?q"
      using q' by (auto simp: filter_distinct)
    show ?thesis
    proof (cases "u = t")
      case True
      then show ?thesis using quiet_queue_ok [OF rest(1,2)] fields Cons h
        by (cases b) (simp_all add: give_up_def unqueue_def)
    next
      case False
      then show ?thesis using rest f fields Cons h
        by (cases b) (auto simp: give_up_def unqueue_def)
    qed
  qed
qed

lemma give_up_fields:
  "lk_locked (give_up t lk) = lk_locked lk" "fst ` set (lk_queue (give_up t lk)) = fst ` set (lk_queue lk) - {t}"
  by (simp_all add: give_up_def unqueue_def Let_def filter_tasks del: set_filter)

lemma ready_head:
  assumes "queue_ok lk" "future_of t lk = Some Ready"
  shows "\<exists>q. lk = \<lparr> lk_locked = False, lk_queue = (t, Ready) # q \<rparr>"
  using assms
  by (cases lk; cases "lk_queue lk")
    (fastforce simp: future_of_def dest: map_of_SomeD split: if_splits)+

lemma one_less:
  assumes "t \<in> A" "finite A"
  shows "(if card A - 1 = 0 then None else Some (card A - 1)) =
           (let I = A - {t} in if I = {} then None else Some (card I))"
  using assms(2) by (simp only: card_Diff_singleton [OF assms(1), symmetric] card_eq_0_iff Let_def) simp

lemma resume_ok:
  assumes ok: "registry_ok s" and t: "rg_task s t = Waits k l" and f: "future_of t (rg_heap s l) \<noteq> Some Pending"
  shows "registry_ok (resume t k l s)"
proof -
  let ?lk = "rg_heap s l"
  note l = registry_okD(3) [OF ok t]
  note lk = registry_okD(7) [OF ok l]
  have I: "t \<in> involved s k" "finite (involved s k)"
    using t registry_okD(1) [OF ok] by (auto simp: involved_def)
  have W: "t \<in> waiting (rg_task s) k l" "t \<notin> holding (rg_task s) k l"
    using t by (simp_all add: waiting_def holding_def)
  have queue: "queue_ok ?lk" using lk by (simp add: lock_ok_def)
  show ?thesis
  proof (cases "future_of t ?lk = Some Ready")
    case True
    from ready_head [OF queue True] obtain q where q: "?lk = \<lparr> lk_locked = False, lk_queue = (t, Ready) # q \<rparr>" ..
    let ?lk' = "(unqueue t ?lk)\<lparr> lk_locked := True \<rparr>"
    have q': "distinct (map fst q)" "\<forall>(u, g) \<in> set q. g = Pending \<or> g = Dropped" "t \<notin> fst ` set q"
      using queue q by auto
    have "lock_ok ((rg_task s)(t := Holds k l)) k l ?lk'"
      using lk W q q'(3) quiet_queue_ok(2) [OF q'(1,2)]
      by (auto simp: lock_ok_def unqueue_def filter_other is_singleton_def)
    moreover have "resume t k l s = with_task t k l (Holds k l) ?lk' (rg_waiters s k) s"
      using True by (simp add: resume_def with_task_def Let_def)
    ultimately show ?thesis
      using with_task_ok [OF ok l, of t "Holds k l" ?lk' "rg_waiters s k"] registry_okD(2) [OF ok, of k] t I
      by (auto simp: insert_absorb Let_def)
  next
    case False
    let ?w = "if card (involved s k) - 1 = 0 then None else Some (card (involved s k) - 1)"
    have "resume t k l s = with_task t k l Idle (give_up t ?lk) ?w s"
      using False f waiters_count [OF ok, of k]
      by (simp add: resume_def with_task_def drop_waiter_def Let_def split: option.splits future.splits)
    moreover have "lock_ok ((rg_task s)(t := Idle)) k l (give_up t ?lk)"
      using lk W give_up_queue_ok [OF queue] by (simp add: lock_ok_def give_up_fields)
    moreover have "?w = (let I = involved s k - {t} in if I = {} then None else Some (card I))"
      by (rule one_less [OF I])
    ultimately show ?thesis
      using with_task_ok [OF ok l, of t Idle "give_up t ?lk" ?w] t by simp
  qed
qed

lemma cancel_queue_simps [simp]:
  "cancel_queue t [] = []"
  "cancel_queue t ((u, f) # q) = (u, if u = t then cancelled_future f else f) # cancel_queue t q"
  by (simp_all add: cancel_queue_def)

lemma cancel_queue_tasks [simp]: "map fst (cancel_queue t q) = map fst q"
  by (induction q) auto

lemma cancel_queue_set [simp]: "fst ` set (cancel_queue t q) = fst ` set q"
  using arg_cong [OF cancel_queue_tasks [of t q], of set] by (simp only: set_map)

lemma cancelled_quiet [simp]:
  "(if b then cancelled_future f else f) = Pending \<or> (if b then cancelled_future f else f) = Dropped \<longleftrightarrow>
     f = Pending \<or> f = Dropped"
  "f \<noteq> Pending \<Longrightarrow> (if b then cancelled_future f else f) \<noteq> Pending"
  by (cases f; simp add: cancelled_future_def)+

lemma cancel_queue_quiet:
  "(\<forall>(u, g) \<in> set (cancel_queue t q). g = Pending \<or> g = Dropped) = (\<forall>(u, g) \<in> set q. g = Pending \<or> g = Dropped)"
  by (induction q) (simp_all add: case_prod_beta cancel_queue_def)

lemma cancel_queue_ok:
  assumes "queue_ok lk"
  shows "queue_ok (lk\<lparr> lk_queue := cancel_queue t (lk_queue lk) \<rparr>)"
proof (cases "lk_queue lk")
  case Nil
  then show ?thesis using assms by (cases lk) simp
next
  case (Cons h q)
  then show ?thesis using assms cancel_queue_quiet [of t q]
    by (cases lk; cases h; cases "lk_locked lk") simp_all
qed

lemma cancel_ok:
  assumes ok: "registry_ok s" and t: "rg_task s t = Waits k l"
  shows "registry_ok (cancel t l s)"
proof -
  let ?lk = "(rg_heap s l)\<lparr> lk_queue := cancel_queue t (lk_queue (rg_heap s l)) \<rparr>"
  note l = registry_okD(3) [OF ok t]
  note lk = registry_okD(7) [OF ok l]
  have I: "t \<in> involved s k" using t by (auto simp: involved_def)
  have W: "t \<in> waiting (rg_task s) k l" "t \<notin> holding (rg_task s) k l"
    using t by (simp_all add: waiting_def holding_def)
  have "queue_ok ?lk" using lk cancel_queue_ok by (simp add: lock_ok_def)
  then have "lock_ok ((rg_task s)(t := Waits k l)) k l ?lk"
    using lk W by (auto simp: lock_ok_def insert_absorb)
  moreover have "cancel t l s = with_task t k l (Waits k l) ?lk (rg_waiters s k) s"
    using t by (simp add: cancel_def with_task_def fun_upd_idem)
  ultimately show ?thesis
    using with_task_ok [OF ok l, of t "Waits k l" ?lk "rg_waiters s k"] registry_okD(2) [OF ok, of k] t I
    by (auto simp: insert_absorb Let_def)
qed

lemma release_ok:
  assumes ok: "registry_ok s" and t: "rg_task s t = Holds k l"
  shows "\<exists>s'. release_key t k s = Some s' \<and> registry_ok s'"
proof -
  let ?lk = "(rg_heap s l)\<lparr> lk_locked := False, lk_queue := wake_first (lk_queue (rg_heap s l)) \<rparr>"
  let ?w = "if card (involved s k) - 1 = 0 then None else Some (card (involved s k) - 1)"
  let ?s = "with_task t k l Idle ?lk ?w s"
  note l = registry_okD(4) [OF ok t]
  note lk = registry_okD(7) [OF ok l]
  have I: "t \<in> involved s k" "finite (involved s k)"
    using t registry_okD(1) [OF ok] by (auto simp: involved_def)
  have H: "t \<in> holding (rg_task s) k l" "t \<notin> waiting (rg_task s) k l"
    using t by (simp_all add: holding_def waiting_def)
  then have locked: "lk_locked (rg_heap s l)" and one: "holding (rg_task s) k l = {t}"
    using lk by (auto simp: lock_ok_def is_singleton_def split: if_splits)
  have "queue_ok ?lk"
    using lk locked
    by (cases "rg_heap s l"; cases "lk_queue (rg_heap s l)") (auto simp: lock_ok_def)
  then have "lock_ok ((rg_task s)(t := Idle)) k l ?lk"
    using lk H one by (simp add: lock_ok_def)
  moreover have w: "?w = (let I = involved s k - {t} in if I = {} then None else Some (card I))"
    by (rule one_less [OF I])
  ultimately have s: "registry_ok ?s"
    using with_task_ok [OF ok l, of t Idle ?lk ?w] t by simp
  let ?s' = "?s\<lparr> rg_locks := (if ?w = None then (rg_locks s)(k := None) else rg_locks s) \<rparr>"
  have "release_key t k s = Some ?s'"
    using l locked waiters_count [OF ok, of k]
    by (simp add: release_key_def drop_waiter_def with_task_def Let_def)
  moreover have "registry_ok ?s'"
  proof (cases "?w = None")
    case True
    then have "rg_waiters ?s k = None" by (simp add: with_task_def)
    then have "involved ?s k = {}"
      using registry_okD(2) [OF s, of k] by (auto split: if_splits)
    from drop_lock_ok [OF s this] True show ?thesis by (simp add: with_task_def)
  next
    case False
    then have "(if ?w = None then (rg_locks s)(k := None) else rg_locks s) = rg_locks ?s"
      by (simp only: if_False) (simp add: with_task_def)
    then have "?s' = ?s" by simp
    with s show ?thesis by simp
  qed
  ultimately show ?thesis by blast
qed

section \<open>Reachable registries\<close>

lemma lock_step_ok: "lock_step s s' \<Longrightarrow> registry_ok s \<Longrightarrow> registry_ok s'"
  by (induction rule: lock_step.induct) (use acquire_ok resume_ok cancel_ok release_ok in fastforce)+

lemma reachable_ok: "lock_step\<^sup>*\<^sup>* new_registry s \<Longrightarrow> registry_ok s"
  by (induction rule: rtranclp_induct) (auto intro: new_registry_ok lock_step_ok)

lemma held_once: "registry_ok s \<Longrightarrow> rg_task s t = Holds k l \<Longrightarrow> rg_task s u = Holds k m \<Longrightarrow> t = u"
proof -
  assume ok: "registry_ok s" and t: "rg_task s t = Holds k l" and u: "rg_task s u = Holds k m"
  note l = registry_okD(4) [OF ok t]
  have "l = m" using l registry_okD(4) [OF ok u] by simp
  then have "t \<in> holding (rg_task s) k l" "u \<in> holding (rg_task s) k l"
    using t u by (simp_all add: holding_def)
  then show "t = u" using registry_okD(7) [OF ok l]
    by (auto simp: lock_ok_def is_singleton_def split: if_splits)
qed

lemma head_runs:
  assumes ok: "registry_ok s" and t: "rg_task s t = Waits k l" and free: "\<And>u. rg_task s u \<noteq> Holds k l"
  shows "\<exists>u. rg_task s u = Waits k l \<and> future_of u (rg_heap s l) \<noteq> Some Pending"
proof -
  have lk: "lock_ok (rg_task s) k l (rg_heap s l)"
    using registry_okD(7) [OF ok registry_okD(3) [OF ok t]] .
  have "holding (rg_task s) k l = {}" "t \<in> waiting (rg_task s) k l"
    using free t by (simp_all add: holding_def waiting_def)
  then have q: "\<not> lk_locked (rg_heap s l)" "queue_ok (rg_heap s l)" "t \<in> fst ` set (lk_queue (rg_heap s l))"
    and w: "fst ` set (lk_queue (rg_heap s l)) = waiting (rg_task s) k l"
    using lk by (auto simp: lock_ok_def is_singleton_def split: if_splits)
  then obtain u f q where "lk_queue (rg_heap s l) = (u, f) # q" "f \<noteq> Pending"
    by (cases "rg_heap s l"; cases "lk_queue (rg_heap s l)") auto
  moreover from this have "u \<in> waiting (rg_task s) k l" using w by auto
  ultimately show ?thesis by (auto simp: future_of_def waiting_def)
qed

lemma resumed_moves:
  "future_of u (rg_heap s l) \<noteq> Some Pending \<Longrightarrow> rg_task (resume u k l s) u \<noteq> Waits k l"
  by (auto simp: resume_def drop_waiter_def Let_def split: option.split future.split)

lemma idle_key_free:
  assumes ok: "registry_ok s" and idle: "involved s k = {}"
  shows "\<exists>l. rg_task (acquire t k s) t = Holds k l"
proof (cases "rg_locks s k")
  case None
  then show ?thesis by (simp add: acquire_def Let_def lock_free_def new_lock_def)
next
  case (Some l)
  have "waiting (rg_task s) k l = {}" "holding (rg_task s) k l = {}"
    using idle by (auto simp: involved_def waiting_def holding_def)
  then have "lock_free (rg_heap s l)"
    using registry_okD(7) [OF ok Some] by (auto simp: lock_ok_def lock_free_def is_singleton_def split: if_splits)
  then show ?thesis using Some by (simp add: acquire_def Let_def)
qed

text \<open>Two tasks on one card and one on another: the second waits for the first and has the lock after its
  release, the third runs beside them.\<close>

definition two_cards :: registry where
  "two_cards = acquire 3 ''b'' (acquire 2 ''a'' (acquire 1 ''a'' new_registry))"

definition handed_over :: registry where
  "handed_over = (case release_key 1 ''a'' two_cards of Some s \<Rightarrow> resume 2 ''a'' 0 s | None \<Rightarrow> two_cards)"

lemmas lock_ops =
  two_cards_def handed_over_def acquire_def release_key_def resume_def drop_waiter_def new_registry_def
  new_lock_def lock_free_def unqueue_def future_of_def Let_def

lemma two_cards_reached: "lock_step\<^sup>*\<^sup>* new_registry two_cards"
  unfolding two_cards_def
  by (rule rtranclp.rtrancl_into_rtrancl [OF rtranclp.rtrancl_into_rtrancl [OF rtranclp.rtrancl_into_rtrancl
        [OF rtranclp.rtrancl_refl]]]; rule lock_step.acquiring; simp add: lock_ops)

text \<open>C10. Whatever the interleaving of the tasks that update cards and however they are cancelled, at most
  one task holds the lock of a card; its release never fails and leaves no waiter behind without a runnable
  one; a task that asks for a card nobody uses gets its lock at once; and the waiter counts are exact, so no
  lock in use is ever removed.\<close>

theorem updates_serialized:
  assumes "lock_step\<^sup>*\<^sup>* new_registry s"
  shows "(\<forall>t u k l m. rg_task s t = Holds k l \<longrightarrow> rg_task s u = Holds k m \<longrightarrow> t = u)
       \<and> (\<forall>t k l. rg_task s t = Holds k l \<longrightarrow> release_key t k s \<noteq> None)
       \<and> (\<forall>t k l. rg_task s t = Waits k l \<longrightarrow>
            (\<exists>u. rg_task s u = Holds k l) \<or>
            (\<exists>u s'. rg_task s u = Waits k l \<and> s' = resume u k l s \<and> rg_task s' u \<noteq> Waits k l \<and> lock_step s s'))
       \<and> (\<forall>t k. involved s k = {} \<longrightarrow> (\<exists>l. rg_task (acquire t k s) t = Holds k l))
       \<and> (\<forall>k. rg_waiters s k = (if involved s k = {} then None else Some (card (involved s k))))
       \<and> (\<forall>k. involved s k \<noteq> {} \<longrightarrow> rg_locks s k \<noteq> None)"
proof (intro conjI allI impI)
  note ok = reachable_ok [OF assms]
  fix t u k l m
  show "rg_task s t = Holds k l \<Longrightarrow> rg_task s u = Holds k m \<Longrightarrow> t = u" by (rule held_once [OF ok])
  show "rg_task s t = Holds k l \<Longrightarrow> release_key t k s \<noteq> None" using release_ok [OF ok] by force
  show "involved s k = {} \<Longrightarrow> \<exists>l. rg_task (acquire t k s) t = Holds k l" by (rule idle_key_free [OF ok])
  show "rg_waiters s k = (if involved s k = {} then None else Some (card (involved s k)))"
    by (rule registry_okD(2) [OF ok])
  show "involved s k \<noteq> {} \<Longrightarrow> rg_locks s k \<noteq> None"
    using registry_okD(3,4) [OF ok] by (force simp: involved_def)
  show "rg_task s t = Waits k l \<Longrightarrow> (\<exists>u. rg_task s u = Holds k l) \<or>
          (\<exists>u s'. rg_task s u = Waits k l \<and> s' = resume u k l s \<and> rg_task s' u \<noteq> Waits k l \<and> lock_step s s')"
    using head_runs [OF ok, of t k l] resuming [of s _ k l] resumed_moves [of _ s l k] by metis
qed

lemma updates_serialized_witness:
  "(\<exists>l. rg_task two_cards 1 = Holds ''a'' l) \<and> release_key 1 ''a'' two_cards \<noteq> None \<and>
   rg_task handed_over 2 = Holds ''a'' 0 \<and> rg_task handed_over 3 = Holds ''b'' 1 \<and>
   rg_waiters two_cards ''a'' = Some (card (involved two_cards ''a''))"
proof -
  have "rg_task two_cards 1 = Holds ''a'' 0" "rg_task handed_over 2 = Holds ''a'' 0"
    "rg_task handed_over 3 = Holds ''b'' 1" by (simp_all add: lock_ops)
  moreover from this have "involved two_cards ''a'' \<noteq> {}" by (force simp: involved_def)
  ultimately show ?thesis using updates_serialized [OF two_cards_reached] by auto
qed

text \<open>A waiter that is cancelled after it was offered the lock, and is the last one, leaves the lock object
  behind: only \<open>release\<close> removes it.\<close>

definition left_behind :: registry where
  "left_behind =
     (case release_key 1 ''a'' (acquire 2 ''a'' (acquire 1 ''a'' new_registry)) of
        Some s \<Rightarrow> resume 2 ''a'' 0 (cancel 2 0 s) | None \<Rightarrow> new_registry)"

lemma lock_left_behind:
  "lock_step\<^sup>*\<^sup>* new_registry left_behind \<and> involved left_behind ''a'' = {} \<and> rg_locks left_behind ''a'' = Some 0"
proof -
  let ?a = "acquire 1 ''a'' new_registry"
  let ?b = "acquire 2 ''a'' ?a"
  let ?c = "the (release_key 1 ''a'' ?b)"
  have "lock_step new_registry ?a" "lock_step ?a ?b"
    by (rule lock_step.acquiring; simp add: lock_ops)+
  moreover have "lock_step ?b ?c"
    by (rule lock_step.releasing [of _ 1 "''a''" 0]; simp add: lock_ops)
  moreover have "lock_step ?c (cancel 2 0 ?c)"
    by (rule lock_step.cancelling [of _ _ "''a''"]; simp add: lock_ops)
  moreover have "lock_step (cancel 2 0 ?c) (resume 2 ''a'' 0 (cancel 2 0 ?c))"
    by (rule lock_step.resuming; simp add: lock_ops cancel_def cancelled_future_def)
  moreover have "left_behind = resume 2 ''a'' 0 (cancel 2 0 ?c)"
    by (simp add: left_behind_def lock_ops)
  ultimately have "lock_step\<^sup>*\<^sup>* new_registry left_behind" by (metis (no_types) rtranclp.simps)
  then show ?thesis
    by (simp add: left_behind_def lock_ops cancel_def cancelled_future_def give_up_def involved_def)
qed

end
