(* ===== verification/RunnerLife.thy ===== *)
theory RunnerLife
  imports Effects
begin

text \<open>
  The life of the pull runner (\<open>transports/pubsub_runner.py\<close>): \<open>_schedule\<close>, which the subscriber calls on threads of
  its own, \<open>close\<close> on the event loop, and \<open>run\<close>. What \<open>_schedule\<close> and \<open>close\<close> do between two points where another
  thread can run is one action; \<open>act\<close> performs an action, and is \<open>None\<close> where the action is not possible. The
  attempts themselves are the deliveries of the theory \<open>Delivery\<close>; here they only run and finish.
\<close>

section \<open>Scheduling and closing\<close>

text \<open>Where the callback for a message is: not called, returned without scheduling, past the check of the loop,
  with its attempt submitted, added to the tracked ones, registered to be discarded, or ended by an
  \<open>AttributeError\<close>.\<close>

datatype callback = Uncalled | Ignored | Passed | Submitted | Added | Registered | Crashed

datatype closing = Open | Loop_dropped | Subscriber_closed | Snapshot_taken | Draining | Closed

record life =
  lf_limit :: nat
  lf_permits :: nat
  lf_loop :: bool
  lf_closed :: bool
  lf_subscriber :: bool
  lf_scheduled :: "nat set"
  lf_running :: "nat set"
  lf_drain :: "nat set"
  lf_callback :: "nat \<Rightarrow> callback"
  lf_close :: closing

definition started :: "nat \<Rightarrow> life" where
  "started limit =
     \<lparr> lf_limit = limit, lf_permits = limit, lf_loop = True, lf_closed = False, lf_subscriber = True, lf_scheduled = {},
       lf_running = {}, lf_drain = {}, lf_callback = (\<lambda>i. Uncalled), lf_close = Open \<rparr>"

datatype life_action =
    Check nat | Submit nat | Add nat | Register nat | Finish nat
  | Begin_close | Close_subscriber | Take_snapshot | Clear_scheduled | Drained

fun act :: "life_action \<Rightarrow> life \<Rightarrow> life option" where
  "act (Check i) s =
     (if lf_callback s i = Uncalled
      then Some (s\<lparr> lf_callback := (lf_callback s)(i := if lf_loop s then Passed else Ignored) \<rparr>) else None)"
| "act (Submit i) s =
     (if lf_callback s i = Passed
      then Some (if lf_loop s
                 then s\<lparr> lf_callback := (lf_callback s)(i := Submitted), lf_running := insert i (lf_running s) \<rparr>
                 else s\<lparr> lf_callback := (lf_callback s)(i := Crashed) \<rparr>) else None)"
| "act (Add i) s =
     (if lf_callback s i = Submitted
      then Some (s\<lparr> lf_callback := (lf_callback s)(i := Added), lf_scheduled := insert i (lf_scheduled s) \<rparr>) else None)"
| "act (Register i) s =
     (if lf_callback s i = Added
      then Some (s\<lparr> lf_callback := (lf_callback s)(i := Registered),
                    lf_scheduled := (if i \<in> lf_running s then lf_scheduled s else lf_scheduled s - {i}) \<rparr>) else None)"
| "act (Finish i) s =
     (if i \<in> lf_running s
      then Some (s\<lparr> lf_running := lf_running s - {i},
                    lf_scheduled := (if lf_callback s i = Registered then lf_scheduled s - {i} else lf_scheduled s) \<rparr>) else None)"
| "act Begin_close s =
     (if lf_closed s then Some s else Some (s\<lparr> lf_closed := True, lf_loop := False, lf_close := Loop_dropped \<rparr>))"
| "act Close_subscriber s =
     (if lf_close s = Loop_dropped then Some (s\<lparr> lf_subscriber := False, lf_close := Subscriber_closed \<rparr>) else None)"
| "act Take_snapshot s =
     (if lf_close s = Subscriber_closed then Some (s\<lparr> lf_drain := lf_scheduled s, lf_close := Snapshot_taken \<rparr>) else None)"
| "act Clear_scheduled s =
     (if lf_close s = Snapshot_taken then Some (s\<lparr> lf_scheduled := {}, lf_close := Draining \<rparr>) else None)"
| "act Drained s =
     (if lf_close s = Draining \<and> lf_drain s \<inter> lf_running s = {} then Some (s\<lparr> lf_close := Closed \<rparr>) else None)"

fun acts :: "life_action list \<Rightarrow> life \<Rightarrow> life option" where
  "acts [] s = Some s"
| "acts (a # as) s = Option.bind (act a s) (acts as)"

lemma acts_append: "acts (as @ bs) s = Option.bind (acts as s) (acts bs)"
proof (induction as arbitrary: s)
  case (Cons a as)
  then show ?case by (cases "act a s") simp_all
qed simp

text \<open>Induction over the runs from a state.\<close>

lemma acts_invariant:
  assumes "acts as s = Some s'" and "I s" and "\<And>a s s'. act a s = Some s' \<Longrightarrow> I s \<Longrightarrow> I s'"
  shows "I s'"
  using assms(1,2)
proof (induction as arbitrary: s)
  case (Cons a as)
  then obtain s1 where "act a s = Some s1" "acts as s1 = Some s'" by (cases "act a s") auto
  then show ?case using Cons assms(3) by blast
qed simp

section \<open>Tracking\<close>

text \<open>What runs is tracked or about to be; what is tracked has been submitted; before \<open>close\<close> takes its
  snapshot nothing has left the tracked set but what has finished.\<close>

fun submitted :: "callback \<Rightarrow> bool" where
  "submitted Submitted = True"
| "submitted Added = True"
| "submitted Registered = True"
| "submitted c = False"

fun before_snapshot :: "closing \<Rightarrow> bool" where
  "before_snapshot Open = True"
| "before_snapshot Loop_dropped = True"
| "before_snapshot Subscriber_closed = True"
| "before_snapshot c = False"

definition tracked :: "life \<Rightarrow> bool" where
  "tracked s \<longleftrightarrow>
     (lf_loop s \<longrightarrow> lf_close s = Open) \<and> (lf_close s = Open \<longleftrightarrow> \<not> lf_closed s) \<and>
     (\<forall>i \<in> lf_running s. submitted (lf_callback s i)) \<and>
     (if before_snapshot (lf_close s) then \<forall>i \<in> lf_running s. lf_callback s i = Submitted \<or> i \<in> lf_scheduled s else True) \<and>
     lf_permits s = lf_limit s"

lemma tracked_started: "tracked (started n)"
  by (simp add: tracked_def started_def)

lemma not_running: "tracked s \<Longrightarrow> \<not> submitted (lf_callback s i) \<Longrightarrow> i \<notin> lf_running s"
  by (auto simp: tracked_def)

lemma running_tracked:
  "tracked s \<Longrightarrow> before_snapshot (lf_close s) \<Longrightarrow> i \<in> lf_running s \<Longrightarrow> lf_callback s i = Submitted \<or> i \<in> lf_scheduled s"
  by (simp add: tracked_def)

lemma tracked_act:
  assumes "act a s = Some s'" and "tracked s"
  shows "tracked s'"
proof (cases a)
  case (Check i)
  then show ?thesis using assms not_running [OF assms(2), of i] by (auto simp: tracked_def split: if_splits)
next
  case (Submit i)
  then show ?thesis using assms not_running [OF assms(2), of i] by (auto simp: tracked_def split: if_splits)
next
  case (Register i)
  then have c: "lf_callback s i = Added" and
    s': "s' = s\<lparr> lf_callback := (lf_callback s)(i := Registered),
      lf_scheduled := (if i \<in> lf_running s then lf_scheduled s else lf_scheduled s - {i}) \<rparr>"
    using assms(1) by (simp_all split: if_splits)
  have m: "i \<in> lf_scheduled s" if "before_snapshot (lf_close s)" "i \<in> lf_running s"
    using running_tracked [OF assms(2) that] c by simp
  show ?thesis using assms(2) c m by (cases "i \<in> lf_running s"; cases "lf_close s") (auto simp: tracked_def s')
next
  case (Begin_close)
  then show ?thesis using assms by (cases "lf_close s") (auto simp: tracked_def split: if_splits)
qed (use assms in \<open>auto simp: tracked_def split: if_splits\<close>)

lemma tracked_acts: "acts as (started n) = Some s \<Longrightarrow> tracked s"
  by (rule acts_invariant [where I = tracked, OF _ tracked_started tracked_act])

section \<open>Closing with no callback under way\<close>

definition under_way :: "life \<Rightarrow> nat set" where
  "under_way s = {i. lf_callback s i \<in> {Passed, Submitted, Added}}"

text \<open>After the loop was dropped and with no callback under way: nothing starts, and what runs is among what \<open>close\<close>
  waits for.\<close>

definition settled :: "nat set \<Rightarrow> life \<Rightarrow> bool" where
  "settled R s \<longleftrightarrow>
     \<not> lf_loop s \<and> lf_closed s \<and> under_way s = {} \<and> lf_running s \<subseteq> R \<and>
     (case lf_close s of
        Open \<Rightarrow> False
      | Loop_dropped \<Rightarrow> lf_running s \<subseteq> lf_scheduled s
      | Subscriber_closed \<Rightarrow> lf_running s \<subseteq> lf_scheduled s
      | Closed \<Rightarrow> lf_running s = {}
      | _ \<Rightarrow> lf_running s \<subseteq> lf_drain s)"

lemma settled_idle: "settled R s \<Longrightarrow> lf_callback s i \<in> {Uncalled, Ignored, Registered, Crashed}"
  by (cases "lf_callback s i") (auto simp: settled_def under_way_def)

lemma settled_act:
  assumes "act a s = Some s'" and "settled R s"
  shows "settled R s'"
proof (cases a)
  case Drained
  then show ?thesis using assms by (auto simp: settled_def under_way_def split: if_splits) blast
next
  case (Submit i)
  then show ?thesis using assms settled_idle [OF assms(2), of i] by (auto split: if_splits)
next
  case (Add i)
  then show ?thesis using assms settled_idle [OF assms(2), of i] by (auto split: if_splits)
next
  case (Register i)
  then show ?thesis using assms settled_idle [OF assms(2), of i] by (auto split: if_splits)
next
  case (Finish i)
  then have "lf_callback s i = Registered \<or> lf_callback s i \<noteq> Registered" by simp
  then show ?thesis using assms Finish
    by (cases "lf_close s") (auto simp: settled_def under_way_def split: if_splits)
qed (use assms in \<open>auto simp: settled_def under_way_def split: if_splits closing.splits\<close>)

lemma settled_start:
  assumes "tracked s" and "lf_close s = Loop_dropped" and "under_way s = {}"
  shows "settled (lf_running s) s"
  using assms by (auto simp: settled_def tracked_def under_way_def)

text \<open>C25. When no callback of the subscriber is under way at the moment \<open>close\<close> drops the loop, closing is complete: no
  attempt starts any more, whatever the subscriber still calls, only those that ran go on, and when \<open>close\<close>
  returns none is left.\<close>

theorem close_drains:
  assumes "acts before (started n) = Some s" and "lf_close s = Loop_dropped" and "under_way s = {}"
    and "acts after s = Some s'"
  shows "lf_running s' \<subseteq> lf_running s \<and> (if lf_close s' = Closed then lf_running s' = {} else True)"
proof -
  have "settled (lf_running s) s'"
    by (rule acts_invariant [where I = "settled (lf_running s)",
          OF assms(4) settled_start [OF tracked_acts [OF assms(1)] assms(2,3)] settled_act])
  then show ?thesis by (auto simp: settled_def)
qed

definition orderly :: "life_action list" where
  "orderly = [Check 0, Submit 0, Add 0, Register 0, Check 1, Submit 1, Add 1, Register 1, Begin_close]"

definition orderly_close :: "life_action list" where
  "orderly_close =
     [Close_subscriber, Finish 1, Take_snapshot, Check 2, Clear_scheduled, Finish 0, Drained]"

lemma close_drains_witness:
  "\<exists>s s'. acts orderly (started 10) = Some s \<and> lf_running s = {0, 1} \<and> acts orderly_close s = Some s' \<and>
     lf_close s' = Closed \<and> lf_running s' = {}"
proof -
  define s where "s = \<lparr> lf_limit = 10, lf_permits = 10, lf_loop = False, lf_closed = True, lf_subscriber = True,
    lf_scheduled = {0, 1}, lf_running = {0, 1}, lf_drain = {},
    lf_callback = (\<lambda>i. Uncalled)(0 := Registered, 1 := Registered), lf_close = Loop_dropped \<rparr>"
  have a: "acts orderly (started 10) = Some s"
    by (simp add: orderly_def started_def s_def insert_commute)
  have c: "lf_close s = Loop_dropped" "under_way s = {}" "lf_running s = {0, 1}"
    by (simp_all add: s_def under_way_def)
  obtain s' where s': "acts orderly_close s = Some s'" "lf_close s' = Closed"
    by (simp add: s_def orderly_close_def insert_Diff_if)
  show ?thesis using close_drains [OF a c(1,2) s'(1)] a c s' by auto
qed

text \<open>
  A callback that is under way is not waited for. One that has submitted its attempt but not yet tracked it when
  \<open>close\<close> takes its snapshot leaves an attempt that still runs when \<open>close\<close> has returned; one that has passed the
  check of the loop but not yet submitted ends with an \<open>AttributeError\<close>, for which \<open>_schedule\<close> has no handler.\<close>

theorem close_races:
  "(\<exists>s. acts [Check 0, Submit 0, Begin_close, Close_subscriber, Take_snapshot, Add 0, Clear_scheduled, Drained] (started n) = Some s
      \<and> lf_close s = Closed \<and> lf_running s = {0} \<and> lf_drain s = {}) \<and>
   (\<exists>s. acts [Check 0, Begin_close, Submit 0] (started n) = Some s \<and> lf_callback s 0 = Crashed)"
  by (simp add: started_def)

text \<open>The semaphore is never acquired: with any \<open>max_concurrency\<close> any number of attempts can run at once.\<close>

fun arrivals :: "nat \<Rightarrow> life_action list" where
  "arrivals 0 = []"
| "arrivals (Suc k) = arrivals k @ [Check k, Submit k, Add k, Register k]"

lemma arrivals_run:
  "\<exists>s. acts (arrivals k) (started n) = Some s \<and> lf_running s = {..<k} \<and> lf_loop s \<and> lf_permits s = n \<and>
     (\<forall>i. k \<le> i \<longrightarrow> lf_callback s i = Uncalled)"
proof (induction k)
  case 0
  then show ?case by (simp add: started_def)
next
  case (Suc k)
  then obtain s where s: "acts (arrivals k) (started n) = Some s" "lf_running s = {..<k}" "lf_loop s" "lf_permits s = n"
    "\<forall>i. k \<le> i \<longrightarrow> lf_callback s i = Uncalled" by blast
  then show ?case by (auto simp: acts_append lessThan_Suc)
qed

theorem concurrency_unbounded:
  "\<exists>as s. acts as (started 1) = Some s \<and> card (lf_running s) = k \<and> lf_limit s = 1 \<and> lf_permits s = 1"
proof -
  obtain s where s: "acts (arrivals k) (started 1) = Some s" "lf_running s = {..<k}" "lf_permits s = 1"
    using arrivals_run [of k 1] by blast
  moreover have "lf_limit s = 1" using tracked_acts [OF s(1)] s(3) by (simp add: tracked_def)
  ultimately show ?thesis by (intro exI [of _ "arrivals k"] exI [of _ s]) simp
qed

section \<open>A run\<close>

text \<open>What happens outside: the extra that is installed, the client library, the two conditions \<open>asyncio.wait\<close> waits
  for (whether the stop event is set, and how the stream ended), the end of the stream after it was cancelled,
  and \<open>close\<close>.\<close>

record ('w, 'c) run_parts =
  rp_installed :: bool
  rp_credentials :: "'c option"
  rp_provider :: "('w \<Rightarrow> 'w \<times> (pyexn, 'c) result) option"
  rp_client :: "'c option \<Rightarrow> 'w \<Rightarrow> 'w \<times> (pyexn, unit) result"
  rp_subscribe :: "'w \<Rightarrow> 'w \<times> (pyexn, unit) result"
  rp_wait :: "'w \<Rightarrow> 'w \<times> (pyexn, bool \<times> pyexn option) result"
  rp_join :: "'w \<Rightarrow> 'w \<times> (pyexn, unit) result"
  rp_close :: "'w \<Rightarrow> 'w \<times> (pyexn, unit) result"

datatype run_event =
    Resolved | Made_client | Subscribed | Failed exn_class | Waited bool "exn_class option" | Wait_failed exn_class
  | Pull_cancelled | Joined | Join_failed exn_class | Runner_closed | Close_failed exn_class

type_synonym ('w, 'a) run_io = "(run_event, unit, 'w, unit, 'a) io"

definition resolve_runner_credentials :: "('w, 'c) run_parts \<Rightarrow> ('w, 'c option) run_io" where
  "resolve_runner_credentials p =
     (case rp_credentials p of
        Some c \<Rightarrow> ret (Some c)
      | None \<Rightarrow>
          (case rp_provider p of
             Some f \<Rightarrow> bind_io (world_call (\<lambda>c. Resolved) Failed f) (\<lambda>c. ret (Some c))
           | None \<Rightarrow> ret None))"

text \<open>The outcome once the wait ended, and the teardown.\<close>

definition stream_verdict :: "bool \<Rightarrow> pyexn option \<Rightarrow> ('w, unit) run_io" where
  "stream_verdict stop ended =
     (if stop then ret ()
      else
        (case ended of
           Some x \<Rightarrow> if is_exception (exn_cls x) then throw (exn (Fw ChatticeError)) else throw x
         | None \<Rightarrow> throw (exn (Fw ChatticeError))))"

definition teardown :: "('w, 'c) run_parts \<Rightarrow> ('w, unit) run_io" where
  "teardown p =
     then_io (note_io Pull_cancelled)
       (then_io
          (catch_io (world_call (\<lambda>u. Joined) Join_failed (rp_join p))
             (\<lambda>x. if is_exception (exn_cls x) then ret () else throw x))
          (world_call (\<lambda>u. Runner_closed) Close_failed (rp_close p)))"

definition run_subscribed :: "('w, 'c) run_parts \<Rightarrow> ('w, unit) run_io" where
  "run_subscribed p =
     finally_io
       (bind_io (world_call (\<lambda>(stop, ended). Waited stop (map_option exn_cls ended)) Wait_failed (rp_wait p))
          (\<lambda>(stop, ended). stream_verdict stop ended))
       (teardown p)"

definition run_pull :: "('w, 'c) run_parts \<Rightarrow> ('w, unit) run_io" where
  "run_pull p =
     (if \<not> rp_installed p then throw (exn (Fw ChatticeError))
      else bind_io (resolve_runner_credentials p) (\<lambda>c.
        then_io (world_call (\<lambda>u. Made_client) Failed (rp_client p c))
          (then_io (world_call (\<lambda>u. Subscribed) Failed (rp_subscribe p)) (run_subscribed p))))"

text \<open>What the end of the wait means for the run.\<close>

fun verdict_of :: "run_event \<Rightarrow> (pyexn, unit) result \<Rightarrow> bool" where
  "verdict_of (Waited True ended) r \<longleftrightarrow> r = Inr ()"
| "verdict_of (Waited False None) r \<longleftrightarrow> r = Inl (exn (Fw ChatticeError))"
| "verdict_of (Waited False (Some c)) r \<longleftrightarrow>
     (if is_exception c then r = Inl (exn (Fw ChatticeError)) else \<exists>x. r = Inl x \<and> exn_cls x = c)"
| "verdict_of (Wait_failed c) r \<longleftrightarrow> (\<exists>x. r = Inl x \<and> exn_cls x = c)"
| "verdict_of e r \<longleftrightarrow> False"

text \<open>The end of a run that was subscribed: the stream is cancelled and joined, the runner closed, and then the verdict
  is the outcome; a failure of \<open>close\<close> replaces it, and so does a join that fails otherwise than with an
  \<open>Exception\<close>, which leaves the runner open.\<close>

definition run_ended :: "run_event \<Rightarrow> run_event list \<Rightarrow> (pyexn, unit) result \<Rightarrow> bool" where
  "run_ended w t r \<longleftrightarrow>
     (\<exists>j c. (j = Joined \<or> (\<exists>k. j = Join_failed k \<and> is_exception k)) \<and> t = [Pull_cancelled, j, c] \<and>
        (c = Runner_closed \<and> verdict_of w r \<or> (\<exists>k x. c = Close_failed k \<and> r = Inl x \<and> exn_cls x = k))) \<or>
     (\<exists>k x. t = [Pull_cancelled, Join_failed k] \<and> \<not> is_exception k \<and> r = Inl x \<and> exn_cls x = k)"

text \<open>What a run emits: it fails before the subscription, or it is subscribed and ends.\<close>

definition setting_up :: "run_event \<Rightarrow> bool" where
  "setting_up e \<longleftrightarrow> e = Resolved \<or> e = Made_client \<or> (\<exists>c. e = Failed c)"

definition run_judged :: "run_event list \<Rightarrow> (pyexn, unit) result \<Rightarrow> bool" where
  "run_judged t r \<longleftrightarrow>
     list_all setting_up t \<and> (\<exists>x. r = Inl x) \<or>
     (\<exists>setup w down. t = setup @ Subscribed # w # down \<and> list_all setting_up setup \<and> run_ended w down r)"

lemma judged_failed: "list_all setting_up t \<Longrightarrow> run_judged t (Inl x)"
  by (simp add: run_judged_def)

lemma judged_ended: "list_all setting_up setup \<Longrightarrow> run_ended w down r \<Longrightarrow> run_judged (setup @ Subscribed # w # down) r"
  unfolding run_judged_def by blast

lemma world_call_eq:
  "world_call good bad f s =
     (let w = fst (f (rs_world s))
      in case snd (f (rs_world s)) of
           Inr v \<Rightarrow> (s\<lparr> rs_world := w, rs_trace := rs_trace s @ [good v] \<rparr>, Inr v)
         | Inl x \<Rightarrow> (s\<lparr> rs_world := w, rs_trace := rs_trace s @ [bad (exn_cls x)] \<rparr>, Inl x))"
  by (simp add: world_call_def case_prod_beta Let_def split: sum.splits)

lemma close_outcome_of:
  assumes "world_call (\<lambda>u. Runner_closed) Close_failed f s = (s', r)"
  shows "\<exists>c. rs_trace s' = rs_trace s @ [c] \<and>
    (c = Runner_closed \<and> r = Inr () \<or> (\<exists>k x. c = Close_failed k \<and> r = Inl x \<and> exn_cls x = k))"
proof (cases "snd (f (rs_world s))")
  case (Inl x)
  then have "rs_trace s' = rs_trace s @ [Close_failed (exn_cls x)] \<and> r = Inl x"
    using assms by (auto simp: world_call_eq Let_def)
  then show ?thesis by blast
qed (use assms in \<open>auto simp: world_call_eq Let_def\<close>)

lemma join_outcome:
  assumes "catch_io (world_call (\<lambda>u. Joined) Join_failed f) (\<lambda>x. if is_exception (exn_cls x) then ret () else throw x) s = (s', r)"
  shows "\<exists>j. rs_trace s' = rs_trace s @ [j] \<and>
    (r = Inr () \<and> (j = Joined \<or> (\<exists>k. j = Join_failed k \<and> is_exception k)) \<or>
     (\<exists>k x. j = Join_failed k \<and> \<not> is_exception k \<and> r = Inl x \<and> exn_cls x = k))"
proof (cases "snd (f (rs_world s))")
  case (Inl x)
  then have "rs_trace s' = rs_trace s @ [Join_failed (exn_cls x)] \<and> r = (if is_exception (exn_cls x) then Inr () else Inl x)"
    using assms by (auto simp: catch_io_def world_call_eq Let_def ret_def throw_def)
  then show ?thesis by (cases "is_exception (exn_cls x)") auto
qed (use assms in \<open>auto simp: catch_io_def world_call_eq Let_def\<close>)

lemma run_ended_closed:
  assumes "j = Joined \<or> (\<exists>k. j = Join_failed k \<and> is_exception k)"
    and "c = Runner_closed \<and> verdict_of w r \<or> (\<exists>k x. c = Close_failed k \<and> r = Inl x \<and> exn_cls x = k)"
  shows "run_ended w [Pull_cancelled, j, c] r"
  using assms unfolding run_ended_def by blast

lemma run_ended_open: "\<not> is_exception (exn_cls x) \<Longrightarrow> run_ended w [Pull_cancelled, Join_failed (exn_cls x)] (Inl x)"
  unfolding run_ended_def by blast

lemma teardown_outcome:
  assumes "teardown p s = (s', r)" and "verdict_of w q"
  shows "\<exists>t. rs_trace s' = rs_trace s @ t \<and> run_ended w t (case r of Inl x \<Rightarrow> Inl x | Inr u \<Rightarrow> q)"
proof -
  let ?s = "s\<lparr> rs_trace := rs_trace s @ [Pull_cancelled] \<rparr>"
  let ?join = "catch_io (world_call (\<lambda>u. Joined) Join_failed (rp_join p)) (\<lambda>x. if is_exception (exn_cls x) then ret () else throw x)"
  obtain s1 r1 where j: "?join ?s = (s1, r1)" by (cases "?join ?s")
  then obtain j where t1: "rs_trace s1 = rs_trace s @ [Pull_cancelled, j]"
    and r1: "r1 = Inr () \<and> (j = Joined \<or> (\<exists>k. j = Join_failed k \<and> is_exception k)) \<or>
      (\<exists>k x. j = Join_failed k \<and> \<not> is_exception k \<and> r1 = Inl x \<and> exn_cls x = k)"
    using join_outcome [OF j] by auto
  have run: "teardown p s = (case r1 of Inl x \<Rightarrow> (s1, Inl x) | Inr u \<Rightarrow> world_call (\<lambda>u. Runner_closed) Close_failed (rp_close p) s1)"
    by (simp add: teardown_def then_io_def bind_io_def note_io_def j)
  show ?thesis
  proof (cases r1)
    case (Inl x)
    then have j: "j = Join_failed (exn_cls x)" "\<not> is_exception (exn_cls x)" and r: "s' = s1" "r = Inl x"
      using r1 run assms(1) by auto
    show ?thesis using run_ended_open [OF j(2)] t1 unfolding r j(1) by auto
  next
    case (Inr u)
    then have "world_call (\<lambda>u. Runner_closed) Close_failed (rp_close p) s1 = (s', r)" using run assms(1) by simp
    from close_outcome_of [OF this] obtain c where c: "rs_trace s' = rs_trace s1 @ [c]"
      "c = Runner_closed \<and> r = Inr () \<or> (\<exists>k x. c = Close_failed k \<and> r = Inl x \<and> exn_cls x = k)"
      by (elim exE conjE)
    have tr: "rs_trace s' = rs_trace s @ [Pull_cancelled, j, c]" unfolding c(1) t1 by simp
    have j: "j = Joined \<or> (\<exists>k. j = Join_failed k \<and> is_exception k)" using r1 Inr by blast
    let ?q = "case r of Inl x \<Rightarrow> Inl x | Inr u \<Rightarrow> q"
    have "c = Runner_closed \<and> verdict_of w ?q \<or> (\<exists>k x. c = Close_failed k \<and> ?q = Inl x \<and> exn_cls x = k)"
    proof (cases r)
      case (Inl x)
      then have "\<exists>k. c = Close_failed k \<and> exn_cls x = k" using c(2) by auto
      then show ?thesis unfolding Inl sum.case by blast
    next
      case (Inr u)
      then have "c = Runner_closed" using c(2) by auto
      then show ?thesis using assms(2) unfolding Inr sum.case by blast
    qed
    then show ?thesis using run_ended_closed [OF j] tr by blast
  qed
qed

lemma subscribed_outcome:
  assumes "run_subscribed p s = (s', r)"
  shows "\<exists>w t. rs_trace s' = rs_trace s @ w # t \<and> run_ended w t r"
proof -
  let ?m = "bind_io (world_call (\<lambda>(stop, ended). Waited stop (map_option exn_cls ended)) Wait_failed (rp_wait p))
    (\<lambda>(stop, ended). stream_verdict stop ended)"
  obtain s1 q where m: "?m s = (s1, q)" by (cases "?m s")
  have "\<exists>w. rs_trace s1 = rs_trace s @ [w] \<and> verdict_of w q"
  proof (cases "snd (rp_wait p (rs_world s))")
    case (Inl x)
    then show ?thesis using m by (auto simp: bind_io_def world_call_eq Let_def)
  next
    case (Inr v)
    then show ?thesis using m
      by (cases "fst v"; cases "snd v")
        (auto simp: bind_io_def world_call_eq Let_def stream_verdict_def ret_def throw_def case_prod_beta split: if_splits)
  qed
  then obtain w where w: "rs_trace s1 = rs_trace s @ [w]" "verdict_of w q" by blast
  obtain s2 r2 where t: "teardown p s1 = (s2, r2)" by (cases "teardown p s1")
  have "s' = s2 \<and> r = (case r2 of Inl x \<Rightarrow> Inl x | Inr u \<Rightarrow> q)"
    using assms m t by (cases r2) (auto simp: run_subscribed_def finally_io_def)
  then show ?thesis using teardown_outcome [OF t w(2)] w(1) by auto
qed

text \<open>C26. A run of the puller. It ends before the subscription with a failure and nothing is torn down, or it is subscribed:
  then the stream is cancelled and joined and the runner closed whatever happened, in this order and once. It returns
  only when the stop event was set; a stream that ended by itself, with an error or without one, is a
  \<open>ChatticeError\<close>; and a failure of \<open>close\<close> replaces the outcome.\<close>

theorem run_outcome:
  "case run_pull p s of (s', r) \<Rightarrow> \<exists>t. rs_trace s' = rs_trace s @ t \<and> run_judged t r"
proof -
  have res: "\<exists>setup. rs_trace s1 = rs_trace s @ setup \<and> list_all setting_up setup"
    if "resolve_runner_credentials p s = (s1, q)" for s1 q
    using that
    by (auto simp: resolve_runner_credentials_def ret_def bind_io_def world_call_eq Let_def setting_up_def
        split: option.splits sum.splits)
  show ?thesis
  proof (cases "rp_installed p")
    case False
    then show ?thesis using judged_failed [of "[]"] by (simp add: run_pull_def throw_def)
  next
    case True
    obtain s1 q where c: "resolve_runner_credentials p s = (s1, q)" by (cases "resolve_runner_credentials p s")
    then obtain a where a: "rs_trace s1 = rs_trace s @ a" "list_all setting_up a" using res by blast
    show ?thesis
    proof (cases q)
      case (Inl x)
      then show ?thesis using True c a judged_failed by (auto simp: run_pull_def bind_io_def)
    next
      case (Inr oc)
      let ?s2 = "s1\<lparr> rs_world := fst (rp_client p oc (rs_world s1)), rs_trace := rs_trace s1 @ [Made_client] \<rparr>"
      let ?s3 = "?s2\<lparr> rs_world := fst (rp_subscribe p (rs_world ?s2)), rs_trace := rs_trace ?s2 @ [Subscribed] \<rparr>"
      have eq: "run_pull p s = (case snd (rp_client p oc (rs_world s1)) of
          Inl x \<Rightarrow> (s1\<lparr> rs_world := fst (rp_client p oc (rs_world s1)), rs_trace := rs_trace s1 @ [Failed (exn_cls x)] \<rparr>, Inl x)
        | Inr u \<Rightarrow> (case snd (rp_subscribe p (rs_world ?s2)) of
            Inl x \<Rightarrow> (?s2\<lparr> rs_world := fst (rp_subscribe p (rs_world ?s2)), rs_trace := rs_trace ?s2 @ [Failed (exn_cls x)] \<rparr>, Inl x)
          | Inr u \<Rightarrow> run_subscribed p ?s3))"
        using True c Inr
        by (simp add: run_pull_def bind_io_def then_io_def world_call_eq Let_def split: sum.splits)
      show ?thesis
      proof (cases "snd (rp_client p oc (rs_world s1))")
        case (Inl x)
        then show ?thesis using eq a judged_failed [of "a @ [Failed (exn_cls x)]"] by (simp add: setting_up_def)
      next
        case client: (Inr u)
        show ?thesis
        proof (cases "snd (rp_subscribe p (rs_world ?s2))")
          case (Inl x)
          then show ?thesis using eq a client judged_failed [of "a @ [Made_client, Failed (exn_cls x)]"]
            by (simp add: setting_up_def)
        next
          case (Inr u)
          obtain s4 r where sub: "run_subscribed p ?s3 = (s4, r)" by (cases "run_subscribed p ?s3")
          then have run: "run_pull p s = (s4, r)" using eq client Inr by simp
          from subscribed_outcome [OF sub] obtain w t where "rs_trace s4 = rs_trace ?s3 @ w # t" "run_ended w t r" by blast
          then show ?thesis using run a judged_ended [of "a @ [Made_client]" w t r] by (auto simp: setting_up_def)
        qed
      qed
    qed
  qed
qed

end
