(* ===== verification/Responses.thy ===== *)
theory Responses
  imports Capabilities PubSub
begin

text \<open>
  Synchronous answers: the one-shot response and the typed answers of \<open>transports/http/response.py\<close>, and
  \<open>_serialize\<close> of \<open>integrations/fastapi/router.py\<close>, which turns what a handler answered into an HTTP
  response, or refuses it. A response is a status and the JSON value that is its body. Cards, dialogs and
  statuses are given by what their \<open>to_dict()\<close> returns. \<open>render\<close> is Starlette's \<open>JSONResponse\<close>, which
  encodes a value or raises.
\<close>

section \<open>Encoding\<close>

text \<open>\<open>json.dumps(value, allow_nan=False)\<close>, of which only success and failure matter: the values it encodes,
  \<open>TypeError\<close> for what is no JSON, \<open>ValueError\<close> for a float that is not finite.\<close>

fun dumps_key :: "pyval \<Rightarrow> (pyexn, unit) result" where
  "dumps_key (PStr s) = Inr ()"
| "dumps_key (PInt i) = Inr ()"
| "dumps_key (PBool b) = Inr ()"
| "dumps_key PNone = Inr ()"
| "dumps_key (PFloat x) = (case x of Fin r \<Rightarrow> Inr () | _ \<Rightarrow> Inl (exn (Py ValueErr)))"
| "dumps_key v = Inl (exn (Py TypeErr))"

fun json_dumps :: "pyval \<Rightarrow> (pyexn, unit) result" where
  "json_dumps (PFloat x) = (case x of Fin r \<Rightarrow> Inr () | _ \<Rightarrow> Inl (exn (Py ValueErr)))"
| "json_dumps (PBytes b) = Inl (exn (Py TypeErr))"
| "json_dumps (PEnum c n v) = Inl (exn (Py TypeErr))"
| "json_dumps (PObj c i) = Inl (exn (Py TypeErr))"
| "json_dumps (PList xs) = map_sum id (\<lambda>_. ()) (traverse json_dumps xs)"
| "json_dumps (PTuple xs) = map_sum id (\<lambda>_. ()) (traverse json_dumps xs)"
| "json_dumps (PDict d) =
     map_sum id (\<lambda>_. ()) (traverse (\<lambda>(k, v). bind_res (dumps_key k) (\<lambda>_. json_dumps v)) d)"
| "json_dumps v = Inr ()"

lemma dumps_key_fails: "dumps_key k = Inl x \<Longrightarrow> x = exn (Py TypeErr) \<or> x = exn (Py ValueErr)"
  by (cases k rule: dumps_key.cases) (auto split: pyfloat.splits)

lemma json_dumps_fails: "json_dumps v = Inl x \<Longrightarrow> x = exn (Py TypeErr) \<or> x = exn (Py ValueErr)"
proof (induction v rule: json_dumps.induct)
  case (7 d)
  then show ?case
    by (auto simp: map_sum_Inl_iff bind_res_Inl_iff dest!: traverse_Inl_elem dumps_key_fails)
qed (auto simp: map_sum_Inl_iff dest!: traverse_Inl_elem split: pyfloat.splits)

section \<open>Answers\<close>

datatype http_reply =
    NoReply
  | TextReply string
  | RawReply pyval
  | DictReply "(pyval \<times> pyval) list"
  | DialogReply pyval
  | StatusReply pyval
  | CardReply pyval
  | AutocompleteReply string "string list"
  | ConfigReply string
  | ForeignReply

text \<open>\<open>InteractionResponse\<close> and \<open>respond\<close>.\<close>

record interaction_response =
  ir_payload :: http_reply
  ir_responded :: bool

definition new_response :: interaction_response where
  "new_response = \<lparr> ir_payload = NoReply, ir_responded = False \<rparr>"

definition respond :: "http_reply \<Rightarrow> interaction_response \<Rightarrow> (pyexn, interaction_response) result" where
  "respond p r =
     (if ir_responded r then Inl (exn (Wire DoubleResponseError))
      else Inr (r\<lparr> ir_payload := p, ir_responded := True \<rparr>))"

definition jobj :: "(string \<times> pyval) list \<Rightarrow> pyval" where
  "jobj ps = PDict (map (\<lambda>(k, v). (PStr k, v)) ps)"

text \<open>\<open>WidgetAutocomplete.to_dict\<close> and \<open>RequestConfigResponse.to_dict\<close>.\<close>

definition autocomplete_dict :: "string \<Rightarrow> string list \<Rightarrow> pyval" where
  "autocomplete_dict widget suggestions =
     jobj [(''actionResponse'', jobj [(''type'', PStr ''UPDATE_WIDGET''),
       (''updatedWidget'', jobj [(''widget'', PStr widget),
         (''suggestions'', jobj [(''items'', PList (map (\<lambda>t. jobj [(''text'', PStr t)]) suggestions))])])])]"

definition config_dict :: "string \<Rightarrow> pyval" where
  "config_dict url = jobj [(''actionResponse'', jobj [(''type'', PStr ''REQUEST_CONFIG''), (''authUrl'', PStr url)])]"

section \<open>Serialization\<close>

record http_response =
  hr_status :: nat
  hr_body :: "pyval option"

definition empty_response :: "nat \<Rightarrow> http_response" where
  "empty_response n = \<lparr> hr_status = n, hr_body = None \<rparr>"

definition json_response :: "(pyval \<Rightarrow> (pyexn, unit) result) \<Rightarrow> pyval \<Rightarrow> (pyexn, http_response) result" where
  "json_response render v = bind_res (render v) (\<lambda>_. Inr \<lparr> hr_status = 200, hr_body = Some v \<rparr>)"

definition refused :: "(pyexn, 'a) result" where
  "refused = Inl (exn (Py TypeErr))"

text \<open>A raw mapping is encoded on the spot; a \<open>TypeError\<close> or \<open>ValueError\<close> becomes the \<open>TypeError\<close> of an
  unsupported payload.\<close>

definition raw_response :: "pyval \<Rightarrow> (pyexn, http_response) result" where
  "raw_response v =
     (case json_dumps v of
        Inr u \<Rightarrow> Inr \<lparr> hr_status = 200, hr_body = Some v \<rparr>
      | Inl x \<Rightarrow> if issubclass (exn_cls x) (Py TypeErr) \<or> issubclass (exn_cls x) (Py ValueErr) then refused else Inl x)"

definition action_response :: "string \<Rightarrow> string \<times> pyval" where
  "action_response t = (''actionResponse'', jobj [(''type'', PStr t)])"

definition dialog_response :: "pyval \<Rightarrow> pyval" where
  "dialog_response v = jobj [(''actionResponse'', jobj [(''type'', PStr ''DIALOG''), (''dialogAction'', v)])]"

text \<open>The card branch: navigation on the home surface, else a message with the update its event allows.\<close>

definition card_body :: "pyval \<Rightarrow> event \<Rightarrow> (pyexn, pyval) result" where
  "card_body shown e =
     (let nav = (\<lambda>n. jobj [(''action'', jobj [(''navigations'', PList [jobj [(n, shown)]])])]);
          cards = (''cardsV2'', PList [jobj [(''cardId'', PStr ''card''), (''card'', shown)]])
      in case body e of
           AppHomeEvent \<Rightarrow> Inr (nav ''pushCard'')
         | FormSubmitEvent f \<Rightarrow> Inr (jobj [(''renderActions'', nav ''updateCard'')])
         | MessageEvent m \<Rightarrow>
             Inr (jobj (cards # (if matched_url m \<noteq> None then [action_response ''UPDATE_USER_MESSAGE_CARDS''] else [])))
         | ActionEvent a \<Rightarrow>
             (if action_sender_type a = Some ''BOT'' then Inr (jobj [cards, action_response ''UPDATE_MESSAGE''])
              else if action_sender_type a = Some ''HUMAN''
              then Inr (jobj [cards, action_response ''UPDATE_USER_MESSAGE_CARDS''])
              else refused)
         | _ \<Rightarrow> Inr (jobj [cards]))"

definition is_submit :: "event \<Rightarrow> bool" where
  "is_submit e \<longleftrightarrow>
     (case body e of
        ActionEvent a \<Rightarrow>
          (case dialog e of None \<Rightarrow> False | Some d \<Rightarrow> dialog_event_type d = SUBMIT_DIALOG)
      | _ \<Rightarrow> False)"

definition serialize :: "(pyval \<Rightarrow> (pyexn, unit) result) \<Rightarrow> http_reply \<Rightarrow> event \<Rightarrow> (pyexn, http_response) result" where
  "serialize render p e =
     (if p = NoReply then Inr (empty_response 200)
      else if body e = RemovedFromSpaceEvent then refused
      else
        (case p of
           TextReply t \<Rightarrow> json_response render (jobj [(''text'', PStr t)])
         | RawReply v \<Rightarrow> raw_response v
         | DictReply d \<Rightarrow> raw_response (PDict d)
         | DialogReply v \<Rightarrow>
             (if can_open_dialog (Some e) then json_response render (dialog_response v) else refused)
         | StatusReply v \<Rightarrow>
             (if is_submit e then json_response render (dialog_response (jobj [(''actionStatus'', v)])) else refused)
         | CardReply v \<Rightarrow> bind_res (card_body v e) (json_response render)
         | AutocompleteReply w ts \<Rightarrow>
             (case body e of
                WidgetUpdatedEvent f \<Rightarrow> json_response render (autocomplete_dict w ts)
              | _ \<Rightarrow> refused)
         | ConfigReply u \<Rightarrow> json_response render (config_dict u)
         | _ \<Rightarrow> refused))"

section \<open>What is accepted\<close>

text \<open>An answer the serializer builds a response for, when the encoder makes no trouble.\<close>

definition accepted :: "http_reply \<Rightarrow> event \<Rightarrow> bool" where
  "accepted p e \<longleftrightarrow> (\<exists>r. serialize (\<lambda>_. Inr ()) p e = Inr r)"

definition response_type :: "http_reply \<Rightarrow> event \<Rightarrow> pyval option" where
  "response_type p e =
     (case serialize (\<lambda>_. Inr ()) p e of
        Inr r \<Rightarrow>
          (case hr_body r of
             Some (PDict d) \<Rightarrow>
               (case obj_get d ''actionResponse'' of PDict a \<Rightarrow> Some (obj_get a ''type'') | _ \<Rightarrow> None)
           | _ \<Rightarrow> None)
      | Inl x \<Rightarrow> None)"

lemma raw_response_fails: "raw_response v = Inl x \<Longrightarrow> x = exn (Py TypeErr)"
  using json_dumps_fails [of v] by (auto simp: raw_response_def refused_def issubclass_refl split: sum.splits if_splits)

lemma json_response_fails: "json_response render v = Inl x \<Longrightarrow> render v = Inl x"
  by (auto simp: json_response_def bind_res_Inl_iff)

lemma serialize_fails:
  "serialize render p e = Inl x \<Longrightarrow> x = exn (Py TypeErr) \<or> (\<exists>v. render v = Inl x)"
  by (auto simp: serialize_def refused_def card_body_def Let_def bind_res_Inl_iff
      dest: raw_response_fails json_response_fails split: if_splits http_reply.splits event_body.splits)

lemma serialize_status: "serialize render p e = Inr r \<Longrightarrow> hr_status r = 200"
  by (auto simp: serialize_def refused_def raw_response_def json_response_def bind_res_Inr_iff empty_response_def
      split: if_splits http_reply.splits event_body.splits sum.splits)

lemma obj_get_jobj: "obj_get (map (\<lambda>(k, v). (PStr k, v)) ps) n = (case dict_get ps n of Some v \<Rightarrow> v | None \<Rightarrow> PNone)"
  by (induction ps) (auto simp: obj_get_def)

lemma http_capabilities:
  "resolve_response ''http'' (Some e) = Inr cs \<longleftrightarrow>
     cs = {SYNC_RESPONSE} \<union> (if can_open_dialog (Some e) then {DIALOGS} else {}) \<union> event_capabilities e"
  by (auto simp: resolve_response_def)

definition class_is_action :: "event \<Rightarrow> bool" where
  "class_is_action e \<longleftrightarrow> (case body e of ActionEvent a \<Rightarrow> True | _ \<Rightarrow> False)"

lemmas answering_defs = accepted_def response_type_def serialize_def json_response_def refused_def card_body_def
  raw_response_def dialog_response_def autocomplete_dict_def config_dict_def action_response_def jobj_def Let_def


definition bot_click :: event where
  "bot_click =
     Event (ActionEvent \<lparr> action_name = ''ok'', action_params = [], action_inputs = [],
              action_sender_type = Some ''BOT'', action_source = None, action_message = None \<rparr>)
       PNone None None None None (Some \<lparr> dialog_event_type = REQUEST_DIALOG, is_dialog_event = True \<rparr>) None None"


end
