(* ===== verification/WorkspaceEvents.thy ===== *)
theory WorkspaceEvents
  imports Dispatcher PubSub Json
begin

text \<open>
  Workspace events (\<open>workspace_events/*.py\<close>): the two parsers, of a structured CloudEvent and of the push
  envelope Google delivers, and the separate dispatcher for these events. \<open>loads\<close> is \<open>json.loads\<close>,
  \<open>fromiso\<close> is \<open>datetime.fromisoformat\<close> with whether the result is aware, \<open>other\<close> is \<open>str\<close> of the keys a
  snapshot converts. The router tree is the heap of theory Routers: the code repeats that class.
\<close>

section \<open>The event\<close>

text \<open>\<open>we_class\<close> is the class of the object: \<open>WorkspaceEvent\<close> or a subclass of it.\<close>

datatype ws_class = WorkspaceC | WorkspaceSub nat

record workspace_event =
  we_class :: ws_class
  we_id :: string
  we_source :: string
  we_subject :: "string option"
  we_time :: "time option"
  we_data :: pyval
  cloud_type :: string
  we_raw :: pyval

definition ws_error :: "(pyexn, 'a) result" where
  "ws_error = Inl (exn (Wire WorkspaceEventError))"

definition type_prefix :: string where
  "type_prefix = ''google.workspace.''"

definition required_specversion :: string where
  "required_specversion = ''1.0''"

definition utc_suffix :: "string \<Rightarrow> string" where
  "utc_suffix s = concat (map (\<lambda>c. if c = CHR ''Z'' then ''+00:00'' else [c]) s)"

definition parse_event_time :: "(string \<Rightarrow> (time \<times> bool) option) \<Rightarrow> pyval \<Rightarrow> (pyexn, time option) result" where
  "parse_event_time fromiso v =
     (case v of
        PNone \<Rightarrow> Inr None
      | PStr s \<Rightarrow>
          (case fromiso (utc_suffix s) of
             None \<Rightarrow> ws_error
           | Some (t, aware) \<Rightarrow> if aware then Inr (Some t) else ws_error)
      | _ \<Rightarrow> ws_error)"

definition optional_text :: "pyval \<Rightarrow> (pyexn, string option) result" where
  "optional_text v = (case v of PNone \<Rightarrow> Inr None | PStr s \<Rightarrow> Inr (Some s) | _ \<Rightarrow> ws_error)"

definition required_text :: "pyval \<Rightarrow> (pyexn, string) result" where
  "required_text v = (case v of PStr s \<Rightarrow> Inr s | _ \<Rightarrow> ws_error)"

definition check_type :: "string \<Rightarrow> (pyexn, string) result" where
  "check_type s = (if py_startswith s type_prefix then Inr s else ws_error)"

section \<open>Parsing\<close>

definition parse_workspace_event ::
    "(pyval \<Rightarrow> string) \<Rightarrow> (string \<Rightarrow> (time \<times> bool) option) \<Rightarrow> pyval \<Rightarrow> (pyexn, workspace_event) result" where
  "parse_workspace_event other fromiso payload =
     (case payload of
        PDict d \<Rightarrow>
          if obj_get d ''specversion'' \<noteq> PStr required_specversion then ws_error
          else
            bind_res (required_text (obj_get d ''id'')) (\<lambda>i.
            bind_res (required_text (obj_get d ''source'')) (\<lambda>src.
            bind_res (bind_res (required_text (obj_get d ''type'')) check_type) (\<lambda>ct.
            bind_res (optional_text (obj_get d ''subject'')) (\<lambda>sub.
            bind_res (parse_event_time fromiso (obj_get d ''time'')) (\<lambda>t.
            bind_res (case obj_get d ''data'' of PNone \<Rightarrow> Inr (PDict []) | PDict v \<Rightarrow> Inr (PDict v) | _ \<Rightarrow> ws_error) (\<lambda>data.
            bind_res (deep_snapshot other data) (\<lambda>data'.
            bind_res (deep_snapshot other payload) (\<lambda>raw'.
            Inr \<lparr> we_class = WorkspaceC, we_id = i, we_source = src, we_subject = sub, we_time = t, we_data = data',
                  cloud_type = ct, we_raw = raw' \<rparr>))))))))
      | _ \<Rightarrow> ws_error)"

definition required_ce_attributes :: "string list" where
  "required_ce_attributes = [''ce-id'', ''ce-source'', ''ce-specversion'', ''ce-type'']"

definition decode_envelope_data :: "(string \<Rightarrow> pyval option) \<Rightarrow> pydict \<Rightarrow> (pyexn, pydict) result" where
  "decode_envelope_data loads m =
     (case obj_get m ''data'' of
        PStr s \<Rightarrow>
          (case b64decode s of
             None \<Rightarrow> ws_error
           | Some bs \<Rightarrow> (case loads bs of Some (PDict inner) \<Rightarrow> Inr inner | _ \<Rightarrow> ws_error))
      | _ \<Rightarrow> ws_error)"

definition nonempty_text :: "pyval \<Rightarrow> bool" where
  "nonempty_text v \<longleftrightarrow> (case v of PStr s \<Rightarrow> s \<noteq> [] | _ \<Rightarrow> False)"

definition parse_workspace_envelope ::
    "(string \<Rightarrow> pyval option) \<Rightarrow> (string \<Rightarrow> (time \<times> bool) option) \<Rightarrow> pyval \<Rightarrow> (pyexn, workspace_event) result" where
  "parse_workspace_envelope loads fromiso payload =
     (case payload of
        PDict d \<Rightarrow>
          (case obj_get d ''message'' of
             PDict m \<Rightarrow>
               (case obj_get m ''attributes'' of
                  PDict a \<Rightarrow>
                    if \<not> list_all (\<lambda>k. nonempty_text (obj_get a k)) required_ce_attributes then ws_error
                    else if obj_get a ''ce-specversion'' \<noteq> PStr required_specversion then ws_error
                    else
                      bind_res (bind_res (required_text (obj_get a ''ce-type'')) check_type) (\<lambda>ct.
                      bind_res (if obj_get a ''ce-datacontenttype'' = PNone
                                   \<or> obj_get a ''ce-datacontenttype'' = PStr ''application/json''
                                then Inr () else ws_error) (\<lambda>_.
                      bind_res (optional_text (obj_get a ''ce-subject'')) (\<lambda>sub.
                      bind_res (parse_event_time fromiso (obj_get a ''ce-time'')) (\<lambda>t.
                      bind_res (decode_envelope_data loads m) (\<lambda>data.
                      bind_res (required_text (obj_get a ''ce-id'')) (\<lambda>i.
                      bind_res (required_text (obj_get a ''ce-source'')) (\<lambda>src.
                      Inr \<lparr> we_class = WorkspaceC, we_id = i, we_source = src, we_subject = sub, we_time = t,
                            we_data = PDict data, cloud_type = ct, we_raw = PDict d \<rparr>)))))))
                | _ \<Rightarrow> ws_error)
           | _ \<Rightarrow> ws_error)
      | _ \<Rightarrow> ws_error)"

section \<open>Handlers\<close>

type_synonym ('w, 'v) ws_filter =
  "workspace_event \<Rightarrow> 'v ctx \<Rightarrow> 'w \<Rightarrow> 'w \<times> (pyexn, 'v filter_value) result"

type_synonym ('w, 'v, 'r) ws_next =
  "workspace_event \<Rightarrow> 'v ctx \<Rightarrow> 'w \<Rightarrow> 'w \<times> (pyexn, 'r) result"

type_synonym ('w, 'v, 'r) ws_middleware = "('w, 'v, 'r) ws_next \<Rightarrow> ('w, 'v, 'r) ws_next"

datatype ws_annotation = WsEmpty | WsAny | WsUnion "ws_annotation list" | WsEvent ws_class | WsOther nat

record ws_parameter =
  wa_name :: string
  wa_kind :: param_kind
  wa_annotation :: ws_annotation
  wa_has_default :: bool

record ws_signature =
  ws_is_async :: bool
  ws_params :: "ws_parameter list option"
  ws_hints :: "(string, ws_annotation) pdict option"

record ws_param_plan =
  wp_name :: string
  wp_types :: "ws_class list"
  wp_alias :: bool
  wp_default :: bool

fun ws_event_types :: "ws_annotation \<Rightarrow> ws_class list" where
  "ws_event_types (WsUnion as) = rev (remdups (rev (concat (map ws_event_types as))))"
| "ws_event_types (WsEvent c) = [c]"
| "ws_event_types a = []"

definition ws_instance :: "workspace_event \<Rightarrow> ws_class \<Rightarrow> bool" where
  "ws_instance e c \<longleftrightarrow> c = WorkspaceC \<or> we_class e = c"

definition ws_plan_param :: "ws_signature \<Rightarrow> ws_parameter \<Rightarrow> (pyexn, ws_param_plan) result" where
  "ws_plan_param s p =
     (if wa_kind p \<in> {PositionalOnly, VarPositional, VarKeyword} then Inl (exn (Fw InvalidHandlerError))
      else
        (let a = (case Option.bind (ws_hints s) (\<lambda>h. dict_get h (wa_name p)) of
                    Some a \<Rightarrow> a | None \<Rightarrow> wa_annotation p);
             ts = ws_event_types a
         in Inr \<lparr> wp_name = wa_name p, wp_types = ts,
                  wp_alias = (ts = [] \<and> (a = WsEmpty \<or> a = WsAny) \<and> wa_name p \<in> {''event'', ''workspace_event''}),
                  wp_default = wa_has_default p \<rparr>))"

definition ws_build_plan :: "ws_signature \<Rightarrow> (pyexn, ws_param_plan list) result" where
  "ws_build_plan s =
     (if \<not> ws_is_async s then Inl (exn (Fw InvalidHandlerError))
      else (case ws_params s of
              None \<Rightarrow> Inl (exn (Fw InvalidHandlerError))
            | Some ps \<Rightarrow> traverse (ws_plan_param s) ps))"

datatype 'v ws_argument = WsEventArg workspace_event | WsValueArg 'v

type_synonym ('w, 'v, 'r) ws_callback =
  "(string, 'v ws_argument) pdict \<Rightarrow> 'w \<Rightarrow> 'w \<times> (pyexn, 'r Dependency.reply) result"

record ('w, 'v, 'r) ws_handler =
  wh_callback :: "('w, 'v, 'r) ws_callback"
  wh_filters :: "('w, 'v) ws_filter list"
  wh_plan :: "ws_param_plan list"

fun ws_resolve_kwargs ::
    "workspace_event \<Rightarrow> 'v ctx \<Rightarrow> ws_param_plan list \<Rightarrow> (string, 'v ws_argument) pdict
     \<Rightarrow> (pyexn, (string, 'v ws_argument) pdict) result" where
  "ws_resolve_kwargs e d [] kw = Inr kw"
| "ws_resolve_kwargs e d (p # ps) kw =
     (if wp_types p \<noteq> [] then
        (if list_ex (ws_instance e) (wp_types p)
         then ws_resolve_kwargs e d ps (dict_set (wp_name p) (WsEventArg e) kw)
         else Inl (exn (Fw DependencyResolutionError)))
      else if wp_alias p then ws_resolve_kwargs e d ps (dict_set (wp_name p) (WsEventArg e) kw)
      else
        (case dict_get d (wp_name p) of
           Some v \<Rightarrow> ws_resolve_kwargs e d ps (dict_set (wp_name p) (WsValueArg v) kw)
         | None \<Rightarrow>
             if wp_default p then ws_resolve_kwargs e d ps kw
             else Inl (exn (Fw DependencyResolutionError))))"

definition ws_invoke_plan :: "('w, 'v, 'r) ws_handler \<Rightarrow> ('w, 'v, 'r) ws_next" where
  "ws_invoke_plan h e d w =
     (case ws_resolve_kwargs e d (wh_plan h) [] of
        Inl x \<Rightarrow> (w, Inl x)
      | Inr kw \<Rightarrow>
         (case wh_callback h kw w of
            (w1, Inl x) \<Rightarrow> (w1, Inl x)
          | (w1, Inr NotAwaitable) \<Rightarrow> (w1, Inl (exn (Fw InvalidHandlerError)))
          | (w1, Inr (Awaited r)) \<Rightarrow> (w1, Inr r)))"

text \<open>Registration: a string stands for the comparison of the event's type with it.\<close>

datatype ('w, 'v) ws_filter_arg = WsStrFilter string | WsFnFilter "('w, 'v) ws_filter" | WsBadFilter

definition ws_normalize_filter :: "('w, 'v) ws_filter_arg \<Rightarrow> (pyexn, ('w, 'v) ws_filter) result" where
  "ws_normalize_filter a =
     (case a of
        WsStrFilter s \<Rightarrow> Inr (\<lambda>e d w. (w, Inr (FBool (cloud_type e = s))))
      | WsFnFilter f \<Rightarrow> Inr f
      | WsBadFilter \<Rightarrow> Inl (exn (Py TypeErr)))"

definition ws_register ::
    "('w, 'v, 'r) ws_callback \<Rightarrow> bool \<Rightarrow> ws_signature \<Rightarrow> ('w, 'v) ws_filter_arg list
     \<Rightarrow> ('w, 'v, 'r) ws_handler list \<Rightarrow> (pyexn, ('w, 'v, 'r) ws_handler list) result" where
  "ws_register cb hashable sg as hs =
     bind_res (traverse ws_normalize_filter as) (\<lambda>fs.
       if \<not> hashable then Inl (exn (Fw InvalidHandlerError))
       else bind_res (ws_build_plan sg)
              (\<lambda>pl. Inr (hs @ [\<lparr> wh_callback = cb, wh_filters = fs, wh_plan = pl \<rparr>])))"

section \<open>Filters and middleware\<close>

fun ws_evaluate_filters ::
    "('w, 'v) ws_filter list \<Rightarrow> workspace_event \<Rightarrow> 'v ctx \<Rightarrow> 'w \<Rightarrow> 'w \<times> 'v ctx \<times> (pyexn, bool) result" where
  "ws_evaluate_filters [] e d w = (w, d, Inr True)"
| "ws_evaluate_filters (f # fs) e d w =
     (case f e d w of
        (w1, Inl x) \<Rightarrow> (w1, d, Inl x)
      | (w1, Inr (FBool b)) \<Rightarrow> if b then ws_evaluate_filters fs e d w1 else (w1, d, Inr False)
      | (w1, Inr FOther) \<Rightarrow> (w1, d, Inl (exn (Fw FilterError)))
      | (w1, Inr (FMapping ps)) \<Rightarrow>
         (case merge_mapping ps d of
            (d1, Some x) \<Rightarrow> (w1, d1, Inl x)
          | (d1, None) \<Rightarrow> ws_evaluate_filters fs e d1 w1))"

definition ws_invoke :: "('w, 'v, 'r) ws_handler \<Rightarrow> ('w, 'v, 'r) ws_middleware list \<Rightarrow> ('w, 'v, 'r) ws_next" where
  "ws_invoke h ms = foldl (\<lambda>current item. item current) (ws_invoke_plan h) (rev ms)"

section \<open>The dispatcher\<close>

text \<open>\<open>EventsRouter.__init__\<close> refuses a name of white space only.\<close>

definition events_router_name :: "string option \<Rightarrow> (pyexn, string) result" where
  "events_router_name n =
     (let m = (case n of Some s \<Rightarrow> if s = [] then ''events_router'' else s | None \<Rightarrow> ''events_router'')
      in if py_strip m = [] then Inl (exn (Py ValueErr)) else Inr m)"

type_synonym ('w, 'v, 'r) events_heap = "(('w, 'v, 'r) ws_middleware, ('w, 'v, 'r) ws_handler list) heap"

definition include_events_router ::
    "nat \<Rightarrow> rid \<Rightarrow> rid \<Rightarrow> ('w, 'v, 'r) events_heap \<Rightarrow> (pyexn, ('w, 'v, 'r) events_heap) result" where
  "include_events_router n self r h = include_router n self r h"

definition handlers_of :: "('w, 'v, 'r) events_heap \<Rightarrow> rid \<Rightarrow> ('w, 'v, 'r) ws_handler list" where
  "handlers_of h r = (case h r of Some x \<Rightarrow> r_content x | None \<Rightarrow> [])"

definition candidates ::
    "('w, 'v, 'r) events_heap \<Rightarrow> nat \<Rightarrow> rid \<Rightarrow> (('w, 'v, 'r) ws_handler \<times> ('w, 'v, 'r) ws_middleware list) list" where
  "candidates h n r = concat (map (\<lambda>(x, ms). map (\<lambda>hd. (hd, ms)) (handlers_of h x)) (walk h n r []))"

definition catch_ws :: "pyexn \<Rightarrow> 'r option verdict" where
  "catch_ws x =
     (if exn_cls x = Fw SkipHandler then GoOn
      else if exn_cls x = Fw StopPropagation then Decide (Inr (Handled None))
      else Decide (Inl x))"

text \<open>One candidate, with a copy of the caller's context.\<close>

definition try_ws ::
    "workspace_event \<Rightarrow> 'v ctx \<Rightarrow> ('w, 'v, 'r) ws_handler \<times> ('w, 'v, 'r) ws_middleware list \<Rightarrow> 'w
     \<Rightarrow> 'w \<times> 'r option verdict" where
  "try_ws e c cand w =
     (case cand of
        (h, ms) \<Rightarrow>
          (case ws_evaluate_filters (wh_filters h) e c w of
             (w1, d1, Inl x) \<Rightarrow> (w1, catch_ws x)
           | (w1, d1, Inr False) \<Rightarrow> (w1, GoOn)
           | (w1, d1, Inr True) \<Rightarrow>
              (case ws_invoke h ms e d1 w1 of
                 (w2, Inl x) \<Rightarrow> (w2, catch_ws x)
               | (w2, Inr r) \<Rightarrow> (w2, Decide (Inr (Handled (Some r)))))))"

definition feed_event ::
    "('w, 'v, 'r) events_heap \<Rightarrow> nat \<Rightarrow> rid \<Rightarrow> workspace_event \<Rightarrow> 'v ctx \<Rightarrow> 'w \<Rightarrow> 'w \<times> (pyexn, 'r option) result" where
  "feed_event h n r e c w =
     (case first_verdict (try_ws e c) (candidates h n r) w of
        (w1, GoOn) \<Rightarrow> (w1, Inr None)
      | (w1, Decide (Inr (Handled v))) \<Rightarrow> (w1, Inr v)
      | (w1, Decide (Inr _)) \<Rightarrow> (w1, Inr None)
      | (w1, Decide (Inl x)) \<Rightarrow> (w1, Inl x))"

section \<open>Two forms of one event\<close>

text \<open>The content of a CloudEvent, as a structured event and as the push message that carries it.\<close>

record cloud_event =
  ce_id :: string
  ce_source :: string
  ce_type :: string
  ce_subject :: "string option"
  ce_time :: "string option"
  ce_data :: pydict

definition opt_item :: "string \<Rightarrow> string option \<Rightarrow> pydict" where
  "opt_item k v = (case v of Some s \<Rightarrow> [(PStr k, PStr s)] | None \<Rightarrow> [])"

definition structured_form :: "cloud_event \<Rightarrow> pydict" where
  "structured_form c =
     [(PStr ''specversion'', PStr ''1.0''), (PStr ''id'', PStr (ce_id c)), (PStr ''source'', PStr (ce_source c)),
      (PStr ''type'', PStr (ce_type c)), (PStr ''data'', PDict (ce_data c))]
     @ opt_item ''subject'' (ce_subject c) @ opt_item ''time'' (ce_time c)"

definition push_form :: "string \<Rightarrow> cloud_event \<Rightarrow> pydict" where
  "push_form bs c =
     [(PStr ''message'', PDict
        [(PStr ''attributes'', PDict
            ([(PStr ''ce-specversion'', PStr ''1.0''), (PStr ''ce-id'', PStr (ce_id c)),
              (PStr ''ce-source'', PStr (ce_source c)), (PStr ''ce-type'', PStr (ce_type c))]
             @ opt_item ''ce-subject'' (ce_subject c) @ opt_item ''ce-time'' (ce_time c))),
         (PStr ''data'', PStr (b64encode bs))])]"

definition same_content :: "workspace_event \<Rightarrow> workspace_event \<Rightarrow> bool" where
  "same_content e e' \<longleftrightarrow> e\<lparr> we_raw := PNone \<rparr> = e'\<lparr> we_raw := PNone \<rparr>"

lemma structured_gets:
  "obj_get (structured_form c) ''specversion'' = PStr ''1.0''" "obj_get (structured_form c) ''id'' = PStr (ce_id c)"
  "obj_get (structured_form c) ''source'' = PStr (ce_source c)" "obj_get (structured_form c) ''type'' = PStr (ce_type c)"
  "obj_get (structured_form c) ''data'' = PDict (ce_data c)"
  "obj_get (structured_form c) ''subject'' = (case ce_subject c of Some s \<Rightarrow> PStr s | None \<Rightarrow> PNone)"
  "obj_get (structured_form c) ''time'' = (case ce_time c of Some s \<Rightarrow> PStr s | None \<Rightarrow> PNone)"
  by (simp_all add: structured_form_def opt_item_def obj_get_def split: option.split)

lemma structured_json: "is_json (PDict (ce_data c)) \<Longrightarrow> is_json (PDict (structured_form c))"
  by (simp add: structured_form_def opt_item_def dict_ok_def split: option.split)

text \<open>The value both parsers give, when the content is complete.\<close>

definition parsed_cloud_event ::
    "(string \<Rightarrow> (time \<times> bool) option) \<Rightarrow> pyval \<Rightarrow> cloud_event \<Rightarrow> (pyexn, workspace_event) result" where
  "parsed_cloud_event fromiso r c =
     bind_res (check_type (ce_type c)) (\<lambda>ct.
     bind_res (parse_event_time fromiso (case ce_time c of Some s \<Rightarrow> PStr s | None \<Rightarrow> PNone)) (\<lambda>t.
     Inr \<lparr> we_class = WorkspaceC, we_id = ce_id c, we_source = ce_source c, we_subject = ce_subject c, we_time = t,
           we_data = PDict (ce_data c), cloud_type = ct, we_raw = r \<rparr>))"

lemma parse_structured_form:
  assumes "is_json (PDict (ce_data c))"
  shows "parse_workspace_event other fromiso (PDict (structured_form c)) =
           parsed_cloud_event fromiso (PDict (structured_form c)) c"
  using deep_snapshot_fixed [OF assms] deep_snapshot_fixed [OF structured_json [OF assms]]
  by (cases "ce_subject c")
    (simp_all add: parse_workspace_event_def parsed_cloud_event_def structured_gets required_specversion_def
      required_text_def optional_text_def del: deep_snapshot.simps)

lemma parse_push_form:
  assumes "ce_id c \<noteq> []" "ce_source c \<noteq> []" "loads bs = Some (PDict (ce_data c))"
  shows "parse_workspace_envelope loads fromiso (PDict (push_form bs c)) =
           parsed_cloud_event fromiso (PDict (push_form bs c)) c"
proof (cases "ce_type c = []")
  case True
  have "check_type [] = ws_error" by (simp add: check_type_def py_startswith_def type_prefix_def)
  with True show ?thesis
    by (simp add: parse_workspace_envelope_def parsed_cloud_event_def push_form_def obj_get_def nonempty_text_def
        required_ce_attributes_def ws_error_def)
next
  case False
  with assms show ?thesis
    by (cases "ce_subject c"; cases "ce_time c")
      (simp_all add: parse_workspace_envelope_def parsed_cloud_event_def push_form_def obj_get_def nonempty_text_def
        required_ce_attributes_def required_specversion_def opt_item_def required_text_def optional_text_def
        decode_envelope_data_def b64_round_trip)
qed

text \<open>C34. The two forms of a Workspace event agree: the push message Google delivers and the structured
  CloudEvent with the same content give the same event, its raw payload apart, or are both refused, with
  the same error; the data comes through base64 and JSON unharmed.\<close>

theorem forms_agree:
  assumes "ce_id c \<noteq> []" "ce_source c \<noteq> []" "is_json (PDict (ce_data c))"
    and "loads bs = Some (PDict (ce_data c))"
  shows "case (parse_workspace_event other fromiso (PDict (structured_form c)),
               parse_workspace_envelope loads fromiso (PDict (push_form bs c))) of
      (Inr e, Inr e') \<Rightarrow>
        same_content e e' \<and> we_id e' = ce_id c \<and> we_data e' = PDict (ce_data c) \<and>
        cloud_type e' = ce_type c \<and> we_raw e' = PDict (push_form bs c)
    | (Inl x, Inl y) \<Rightarrow> x = exn (Wire WorkspaceEventError) \<and> y = x
    | _ \<Rightarrow> False"
  unfolding parse_structured_form [OF assms(3)] parse_push_form [where loads = loads and bs = bs, OF assms(1,2,4)]
  by (auto simp: parsed_cloud_event_def same_content_def check_type_def parse_event_time_def ws_error_def
      split: option.split)

definition created_event :: cloud_event where
  "created_event =
     \<lparr> ce_id = ''1'', ce_source = ''//chat'', ce_type = ''google.workspace.chat.message.v1.created'',
       ce_subject = None, ce_time = None, ce_data = [(PStr ''name'', PStr ''spaces/A'')] \<rparr>"

lemma forms_agree_witness:
  "case parse_workspace_envelope (\<lambda>_. Some (PDict (ce_data created_event))) (\<lambda>_. None)
          (PDict (push_form ''{}'' created_event)) of
     Inr e \<Rightarrow> we_id e = ''1'' \<and> we_data e = PDict (ce_data created_event) | Inl x \<Rightarrow> False"
proof -
  have "is_json (PDict (ce_data created_event))" by (simp add: created_event_def dict_ok_def)
  moreover have "ce_id created_event \<noteq> []" "ce_source created_event \<noteq> []" by (simp_all add: created_event_def)
  moreover have "parse_workspace_event (\<lambda>_. []) (\<lambda>_. None) (PDict (structured_form created_event)) \<noteq> Inl x" for x
    using calculation(1)
    by (simp add: parse_structured_form parsed_cloud_event_def check_type_def py_startswith_def type_prefix_def
        parse_event_time_def created_event_def)
  ultimately show ?thesis
    using forms_agree [of created_event "\<lambda>_. Some (PDict (ce_data created_event))" "''{}''" "\<lambda>_. []" "\<lambda>_. None"]
    by (auto simp: created_event_def split: sum.splits)
qed

section \<open>Dispatch\<close>

lemma catch_ws_Some: "catch_ws x \<noteq> Decide (Inr (Handled (Some r)))"
  by (simp add: catch_ws_def)

lemma try_ws_Some:
  "try_ws e c (h, ms) w = (w', Decide (Inr (Handled (Some r)))) \<longleftrightarrow>
     (\<exists>w1 d1. ws_evaluate_filters (wh_filters h) e c w = (w1, d1, Inr True) \<and> ws_invoke h ms e d1 w1 = (w', Inr r))"
  by (auto simp: try_ws_def catch_ws_Some split: prod.splits sum.splits bool.splits)

lemma try_ws_calm: "try_ws e c cand w = (w', Decide (Inl x)) \<Longrightarrow> \<not> is_control (exn_cls x)"
  by (auto simp: try_ws_def catch_ws_def is_control_def split: prod.splits sum.splits bool.splits if_splits)

lemma feed_event_Some:
  "feed_event h n r e c w = (w', Inr (Some v)) \<longleftrightarrow>
     first_verdict (try_ws e c) (candidates h n r) w = (w', Decide (Inr (Handled (Some v))))"
  by (auto simp: feed_event_def split: prod.splits verdict.splits sum.splits outcome.splits)

lemma feed_event_calm: "feed_event h n r e c w = (w', Inl x) \<Longrightarrow> \<not> is_control (exn_cls x)"
  by (auto simp: feed_event_def first_verdict_decides dest: try_ws_calm
      split: prod.splits verdict.splits sum.splits outcome.splits)

text \<open>The Workspace dispatcher answers with \<open>v\<close> exactly when some handler, in the order of the router
  tree, matched by its own filters on a copy of the caller's context alone and completed with \<open>v\<close> under
  the middleware of its path, after every earlier candidate passed the event on; routing control never
  escapes as an exception.\<close>

theorem feed_event_first_match:
  "(feed_event h n r e c w = (w', Inr (Some v)) \<longleftrightarrow>
      (\<exists>before hd ms rest w1 w2 d1.
         candidates h n r = before @ (hd, ms) # rest \<and>
         first_verdict (try_ws e c) before w = (w1, GoOn) \<and>
         ws_evaluate_filters (wh_filters hd) e c w1 = (w2, d1, Inr True) \<and>
         ws_invoke hd ms e d1 w2 = (w', Inr v)))
   \<and> (case snd (feed_event h n r e c w) of Inl x \<Rightarrow> \<not> is_control (exn_cls x) | Inr _ \<Rightarrow> True)"
proof (rule conjI)
  show "feed_event h n r e c w = (w', Inr (Some v)) \<longleftrightarrow>
      (\<exists>before hd ms rest w1 w2 d1.
         candidates h n r = before @ (hd, ms) # rest \<and>
         first_verdict (try_ws e c) before w = (w1, GoOn) \<and>
         ws_evaluate_filters (wh_filters hd) e c w1 = (w2, d1, Inr True) \<and>
         ws_invoke hd ms e d1 w2 = (w', Inr v))"
    unfolding feed_event_Some first_verdict_decides by (simp add: try_ws_Some split_paired_Ex)
  show "case snd (feed_event h n r e c w) of Inl x \<Rightarrow> \<not> is_control (exn_cls x) | Inr _ \<Rightarrow> True"
    by (cases "feed_event h n r e c w") (auto split: sum.split dest: feed_event_calm)
qed

end
