(* ===== verification/Ingress.thy ===== *)
theory Ingress
  imports Responses WorkspaceEvents Deliveries
begin

text \<open>
  The HTTP endpoints of \<open>integrations/fastapi/router.py\<close>: the shared push coordinator with its claims, the two
  push endpoints, for interactions and for Workspace events, and the endpoint of the synchronous channel. An
  endpoint is a computation of theory Effects; its trace notes the claims and the calls of the dispatcher.
  Starlette's routing and the encoding of responses are outside; a request is its snapshot, and \<open>loads\<close>
  is \<open>json.loads\<close> of its body.
\<close>

section \<open>The push coordinator\<close>

datatype push_call = PClaim | PFeed | PComplete | PRelease

datatype push_effect =
    PClaimed claim_result
  | PReturned push_call
  | PRaised push_call exn_class

type_synonym ('s, 'w, 'a) push_io = "(push_effect, 's, 'w, unit, 'a) io"

definition envelope_metadata :: "pydict \<Rightarrow> string option \<times> string option" where
  "envelope_metadata d =
     ((case obj_get d ''message'' of
         PDict m \<Rightarrow> (case obj_get m ''messageId'' of PStr s \<Rightarrow> Some s | _ \<Rightarrow> None)
       | _ \<Rightarrow> None),
      (case obj_get d ''subscription'' of PStr s \<Rightarrow> Some s | _ \<Rightarrow> None))"

definition push_key :: "string \<Rightarrow> string option \<Rightarrow> string" where
  "push_key mid sub =
     (case sub of Some s \<Rightarrow> if s = [] then ''global'' else s | None \<Rightarrow> ''global'') @ '':'' @ mid"

definition push_lease :: rat where
  "push_lease = 3600"

text \<open>\<open>claim\<close>: the response that ends the request at once, if any, with the key and the owner of the claim.\<close>

definition push_claim ::
    "'s delivery_store option \<Rightarrow> string option \<Rightarrow> string option \<Rightarrow> string
     \<Rightarrow> ('s, 'w, http_response option \<times> string option \<times> string option) push_io" where
  "push_claim st mid sub ow =
     (case (st, mid) of
        (Some st, Some m) \<Rightarrow>
          (let k = push_key m sub
           in bind_io
                (catch_io
                  (bind_io (store_call PClaimed (PRaised PClaim) (st_claim st k ow push_lease)) (\<lambda>c. ret (Some c)))
                  (\<lambda>x. if is_exception (exn_cls x) then ret None else throw x))
                (\<lambda>c. ret
                  (case c of
                     None \<Rightarrow> Some (empty_response 500)
                   | Some COMPLETED \<Rightarrow> Some (empty_response 204)
                   | Some ACTIVE \<Rightarrow> Some (empty_response 429)
                   | Some FIRST \<Rightarrow> None, Some k, Some ow)))
      | _ \<Rightarrow> ret (None, None, None))"

definition best_effort :: "('s, 'w, unit) push_io \<Rightarrow> ('s, 'w, unit) push_io" where
  "best_effort m = catch_io m (\<lambda>x. if is_exception (exn_cls x) then ret () else throw x)"

definition given :: "string option \<Rightarrow> bool" where
  "given s \<longleftrightarrow> (case s of Some t \<Rightarrow> t \<noteq> [] | None \<Rightarrow> False)"

definition push_release ::
    "'s delivery_store option \<Rightarrow> string option \<Rightarrow> string option \<Rightarrow> ('s, 'w, unit) push_io" where
  "push_release st key ow =
     (case st of
        Some st \<Rightarrow>
          if \<not> given key \<or> \<not> given ow then ret ()
          else best_effort (store_call (\<lambda>_. PReturned PRelease) (PRaised PRelease) (st_release st (the key) (the ow)))
      | None \<Rightarrow> ret ())"

definition push_complete ::
    "'s delivery_store option \<Rightarrow> string option \<Rightarrow> string option \<Rightarrow> ('s, 'w, unit) push_io" where
  "push_complete st key ow =
     (case st of
        Some st \<Rightarrow>
          if \<not> given key \<or> \<not> given ow then ret ()
          else best_effort (store_call (\<lambda>_. PReturned PComplete) (PRaised PComplete) (st_complete st (the key) (the ow)))
      | None \<Rightarrow> ret ())"

section \<open>The push endpoints\<close>

text \<open>A push router without a verifier is created only on request.\<close>

definition create_push_router :: "'v option \<Rightarrow> bool \<Rightarrow> (pyexn, 'v option) result" where
  "create_push_router verifier allow_unverified =
     (if verifier = None \<and> \<not> allow_unverified then Inl (exn (Py ValueErr)) else Inr verifier)"

type_synonym verifier = "incoming_request \<Rightarrow> (pyexn, unit) result"

text \<open>The verifier sees the request without its body; only a \<open>VerificationError\<close> is answered.\<close>

definition gate :: "verifier option \<Rightarrow> incoming_request \<Rightarrow> ('s, 'w, http_response) push_io \<Rightarrow> ('s, 'w, http_response) push_io" where
  "gate v rq m =
     (case v of
        None \<Rightarrow> m
      | Some verify \<Rightarrow>
         (case verify (rq\<lparr> rq_body := [] \<rparr>) of
            Inr u \<Rightarrow> m
          | Inl x \<Rightarrow>
              if issubclass (exn_cls x) (Wire VerificationError) then ret (empty_response 401) else throw x))"

text \<open>Dispatch under the claim: a failed dispatch gives the claim back, a good one completes it.\<close>

definition dispatch_claimed ::
    "'s delivery_store option \<Rightarrow> string option \<Rightarrow> string option \<Rightarrow> ('w \<Rightarrow> 'w \<times> (pyexn, 'a) result)
     \<Rightarrow> ('s, 'w, http_response) push_io" where
  "dispatch_claimed st key ow feed =
     bind_io
       (catch_io (then_io (world_call (\<lambda>_. PReturned PFeed) (PRaised PFeed) feed) (ret True))
         (\<lambda>x. if is_exception (exn_cls x) then then_io (push_release st key ow) (ret False) else throw x))
       (\<lambda>good. if good then then_io (push_complete st key ow) (ret (empty_response 204))
                else ret (empty_response 500))"

definition after_claim ::
    "'s delivery_store option \<Rightarrow> ('w \<Rightarrow> 'w \<times> (pyexn, 'a) result)
     \<Rightarrow> http_response option \<times> string option \<times> string option \<Rightarrow> ('s, 'w, http_response) push_io" where
  "after_claim st feed v =
     (case fst v of
        Some r \<Rightarrow> ret r
      | None \<Rightarrow> dispatch_claimed st (fst (snd v)) (snd (snd v)) feed)"

definition claim_and_dispatch ::
    "'s delivery_store option \<Rightarrow> pydict \<Rightarrow> string \<Rightarrow> ('w \<Rightarrow> 'w \<times> (pyexn, 'a) result)
     \<Rightarrow> ('s, 'w, http_response) push_io" where
  "claim_and_dispatch st payload ow feed =
     (case envelope_metadata payload of
        (mid, sub) \<Rightarrow>
          bind_io (push_claim st mid sub ow) (after_claim st feed))"

text \<open>\<open>parse\<close> is \<open>parse_interaction\<close> with its readers. Resolving the capabilities of the transport cannot fail,
  so it is written next to the call it precedes.\<close>

definition pubsub_endpoint ::
    "verifier option \<Rightarrow> 's delivery_store option \<Rightarrow> (string \<Rightarrow> pyval option) \<Rightarrow> (pyval \<Rightarrow> (pyexn, event) result)
     \<Rightarrow> ('u, 'r) dispatcher \<Rightarrow> string \<Rightarrow> incoming_request \<Rightarrow> ('s, 'u world, http_response) push_io" where
  "pubsub_endpoint v st loads parse dp ow rq =
     gate v rq
       (case loads (rq_body rq) of
          None \<Rightarrow> ret (empty_response 400)
        | Some payload \<Rightarrow>
           (case (parse_envelope loads parse payload, payload) of
              (Inl x, _) \<Rightarrow>
                if issubclass (exn_cls x) (Wire PubSubEnvelopeError) \<or> issubclass (exn_cls x) (Wire GoogleInteractionError)
                then ret (empty_response 400) else throw x
            | (Inr e, PDict d) \<Rightarrow>
                claim_and_dispatch st d ow
                  (\<lambda>w. case resolve_response ''pubsub'' (Some e) of
                         Inl x \<Rightarrow> (w, Inl x)
                       | Inr caps \<Rightarrow> feed_update dp e [(''capabilities'', CCapabilities caps)] w)
            | _ \<Rightarrow> ret (empty_response 400)))"

definition workspace_endpoint ::
    "verifier option \<Rightarrow> 's delivery_store option \<Rightarrow> (string \<Rightarrow> pyval option) \<Rightarrow> (string \<Rightarrow> (time \<times> bool) option)
     \<Rightarrow> ('w, 'v, 'r) events_heap \<Rightarrow> nat \<Rightarrow> rid \<Rightarrow> string \<Rightarrow> incoming_request \<Rightarrow> ('s, 'w, http_response) push_io" where
  "workspace_endpoint v st loads fromiso h n r ow rq =
     gate v rq
       (case loads (rq_body rq) of
          Some (PDict d) \<Rightarrow>
            (case parse_workspace_envelope loads fromiso (PDict d) of
               Inl x \<Rightarrow>
                 if issubclass (exn_cls x) (Wire WorkspaceEventError) then ret (empty_response 400) else throw x
             | Inr e \<Rightarrow> claim_and_dispatch st d ow (feed_event h n r e []))
        | _ \<Rightarrow> ret (empty_response 400))"

section \<open>The synchronous endpoint\<close>

text \<open>The response object of a request is part of what the handlers can change: it is stored next to their
  state.\<close>

definition invalid_payload_response :: http_response where
  "invalid_payload_response =
     \<lparr> hr_status = 400, hr_body = Some (jobj [(''error'', PStr ''invalid_interaction_payload'')]) \<rparr>"

definition chat_context :: "response_capability set \<Rightarrow> ctx_val ctx" where
  "chat_context caps =
     [(''request'', CVal (PObj ''IncomingRequest'' 0)), (''response'', CVal (PObj ''InteractionResponse'' 0)),
      (''interaction'', CVal (PObj ''InteractionContext'' 0)), (''capabilities'', CCapabilities caps)]"

definition feed_chat ::
    "('u \<times> interaction_response, http_reply) dispatcher \<Rightarrow> event
     \<Rightarrow> ('u \<times> interaction_response) world \<Rightarrow> ('u \<times> interaction_response) world \<times> (pyexn, http_reply option) result" where
  "feed_chat dp e w =
     (case resolve_response ''http'' (Some e) of
        Inl x \<Rightarrow> (w, Inl x)
      | Inr caps \<Rightarrow> feed_update dp e (chat_context caps) (w\<lparr> outside := (fst (outside w), new_response) \<rparr>))"

definition chosen_payload :: "interaction_response \<Rightarrow> http_reply option \<Rightarrow> http_reply" where
  "chosen_payload r result =
     (if ir_responded r then ir_payload r else (case result of Some p \<Rightarrow> p | None \<Rightarrow> NoReply))"

definition answer_request ::
    "(pyval \<Rightarrow> (pyexn, unit) result) \<Rightarrow> event \<Rightarrow> http_reply \<Rightarrow> (pyexn, http_response) result" where
  "answer_request render e p =
     (case serialize render p e of
        Inr r \<Rightarrow> Inr r
      | Inl x \<Rightarrow> if issubclass (exn_cls x) (Py TypeErr) then Inr (empty_response 500) else Inl x)"

definition chat_endpoint ::
    "verifier \<Rightarrow> (string \<Rightarrow> pyval option) \<Rightarrow> (pyval \<Rightarrow> (pyexn, event) result) \<Rightarrow> (pyval \<Rightarrow> (pyexn, unit) result)
     \<Rightarrow> ('u \<times> interaction_response, http_reply) dispatcher \<Rightarrow> incoming_request
     \<Rightarrow> ('s, ('u \<times> interaction_response) world, http_response) push_io" where
  "chat_endpoint verify loads parse render dp rq =
     gate (Some verify) rq
       (case bind_res (request_json loads rq) (\<lambda>d. parse (PDict d)) of
          Inl x \<Rightarrow>
            if issubclass (exn_cls x) (Wire GoogleInteractionError) then ret invalid_payload_response else throw x
        | Inr e \<Rightarrow>
            bind_io
              (catch_io
                (bind_io (world_call (\<lambda>_. PReturned PFeed) (PRaised PFeed) (feed_chat dp e)) (\<lambda>a. ret (Some a)))
                (\<lambda>x. if is_exception (exn_cls x) then ret None else throw x))
              (\<lambda>a s. case a of
                 None \<Rightarrow> (s, Inr (empty_response 500))
               | Some result \<Rightarrow> (s, answer_request render e (chosen_payload (snd (outside (rs_world s))) result))))"

section \<open>What a push request does\<close>

text \<open>The contract of dispatching under a claim that was made, or without deduplication.\<close>

definition dispatch_contract :: "bool \<Rightarrow> push_effect list \<Rightarrow> (pyexn, http_response) result \<Rightarrow> bool" where
  "dispatch_contract claimed t res \<longleftrightarrow>
     (case res of
        Inr r \<Rightarrow>
          r = empty_response 204 \<and>
            (if claimed then t = [PReturned PFeed, PReturned PComplete] \<or> (\<exists>c. t = [PReturned PFeed, PRaised PComplete c])
             else t = [PReturned PFeed]) \<or>
          r = empty_response 500 \<and>
            (\<exists>c. is_exception c \<and>
               (if claimed then t = [PRaised PFeed c, PReturned PRelease] \<or> (\<exists>c'. t = [PRaised PFeed c, PRaised PRelease c'])
                else t = [PRaised PFeed c]))
      | Inl x \<Rightarrow>
          \<not> is_exception (exn_cls x) \<and>
          (t = [PRaised PFeed (exn_cls x)]
           \<or> claimed \<and> (t = [PReturned PFeed, PRaised PComplete (exn_cls x)]
                         \<or> (\<exists>c. t = [PRaised PFeed c, PRaised PRelease (exn_cls x)]))))"

text \<open>The contract of a request. \<open>passed\<close> says that the verifier, if there is one, accepted it.\<close>

definition push_contract :: "bool \<Rightarrow> push_effect list \<Rightarrow> (pyexn, http_response) result \<Rightarrow> bool" where
  "push_contract passed t res \<longleftrightarrow>
     (case t of
        [] \<Rightarrow> (case res of Inr r \<Rightarrow> r = empty_response (if passed then 400 else 401) | Inl x \<Rightarrow> True)
      | PClaimed COMPLETED # u \<Rightarrow> passed \<and> u = [] \<and> res = Inr (empty_response 204)
      | PClaimed ACTIVE # u \<Rightarrow> passed \<and> u = [] \<and> res = Inr (empty_response 429)
      | PClaimed FIRST # u \<Rightarrow> passed \<and> dispatch_contract True u res
      | PRaised PClaim c # u \<Rightarrow>
          passed \<and> u = [] \<and>
          (if is_exception c then res = Inr (empty_response 500) else (\<exists>x. res = Inl x \<and> exn_cls x = c))
      | _ \<Rightarrow> passed \<and> dispatch_contract False t res)"

lemma emits_best_effort:
  assumes "emits m (\<lambda>t r. (r = Inr () \<and> t = [a]) \<or> (\<exists>x. r = Inl x \<and> t = [b (exn_cls x)]))"
  shows "emits (best_effort m)
    (\<lambda>t r. (r = Inr () \<and> (t = [a] \<or> (\<exists>c. t = [b c]))) \<or>
           (\<exists>x. r = Inl x \<and> t = [b (exn_cls x)] \<and> \<not> is_exception (exn_cls x)))"
proof -
  have "emits (if is_exception (exn_cls x) then ret () else throw x)
      (\<lambda>t r. t = [] \<and> (if is_exception (exn_cls x) then r = Inr () else r = Inl x))" for x
    by (auto intro: emits_weaken [OF emits_ret] emits_weaken [OF emits_throw])
  from emits_catch [OF assms this] show ?thesis
    unfolding best_effort_def by (rule emits_weaken) (auto split: if_splits)
qed

lemma emits_store_unit:
  fixes f :: "'s \<Rightarrow> 's \<times> (pyexn, unit) result"
  shows "emits (store_call (\<lambda>_. a) b f :: ('s, 'w, unit) push_io)
    (\<lambda>t r. (r = Inr () \<and> t = [a]) \<or> (\<exists>x. r = Inl x \<and> t = [b (exn_cls x)]))"
  by (rule emits_weaken [OF emits_store [where P = "\<lambda>_. True"]]) auto

lemma emits_push_release:
  "emits (push_release st key ow)
     (\<lambda>t r. if st \<noteq> None \<and> given key \<and> given ow
            then (r = Inr () \<and> (t = [PReturned PRelease] \<or> (\<exists>c. t = [PRaised PRelease c]))) \<or>
                 (\<exists>x. r = Inl x \<and> t = [PRaised PRelease (exn_cls x)] \<and> \<not> is_exception (exn_cls x))
            else r = Inr () \<and> t = [])"
  by (auto simp: push_release_def intro: emits_weaken [OF emits_ret]
      emits_weaken [OF emits_best_effort [OF emits_store_unit]] split: option.split)

lemma emits_push_complete:
  "emits (push_complete st key ow)
     (\<lambda>t r. if st \<noteq> None \<and> given key \<and> given ow
            then (r = Inr () \<and> (t = [PReturned PComplete] \<or> (\<exists>c. t = [PRaised PComplete c]))) \<or>
                 (\<exists>x. r = Inl x \<and> t = [PRaised PComplete (exn_cls x)] \<and> \<not> is_exception (exn_cls x))
            else r = Inr () \<and> t = [])"
  by (auto simp: push_complete_def intro: emits_weaken [OF emits_ret]
      emits_weaken [OF emits_best_effort [OF emits_store_unit]] split: option.split)

lemma emits_dispatch:
  fixes feed :: "'w \<Rightarrow> 'w \<times> (pyexn, 'a) result" and st :: "'s delivery_store option"
  assumes "claimed \<longleftrightarrow> st \<noteq> None \<and> given key \<and> given ow"
  shows "emits (dispatch_claimed st key ow feed) (dispatch_contract claimed)"
proof -
  let ?feed = "world_call (\<lambda>_. PReturned PFeed) (PRaised PFeed) feed :: ('s, 'w, 'a) push_io"
  have run: "emits (then_io ?feed (ret True))
      (\<lambda>t r. (r = Inr True \<and> t = [PReturned PFeed]) \<or> (\<exists>x. r = Inl x \<and> t = [PRaised PFeed (exn_cls x)]))"
    by (rule emits_weaken [OF emits_then [OF emits_world [where P = "\<lambda>_. True"] emits_ret]]) auto
  have failed: "emits (if is_exception (exn_cls x) then then_io (push_release st key ow) (ret False) else throw x)
      (\<lambda>t r. if is_exception (exn_cls x)
             then (if claimed
                   then (r = Inr False \<and> (t = [PReturned PRelease] \<or> (\<exists>c. t = [PRaised PRelease c]))) \<or>
                        (\<exists>y. r = Inl y \<and> t = [PRaised PRelease (exn_cls y)] \<and> \<not> is_exception (exn_cls y))
                   else r = Inr False \<and> t = [])
             else t = [] \<and> r = Inl x)" for x
    using assms
    by (auto intro: emits_weaken [OF emits_then [OF emits_push_release emits_ret]] emits_weaken [OF emits_throw])
  have rest: "emits (if good then then_io (push_complete st key ow) (ret (empty_response 204)) else ret (empty_response 500))
      (\<lambda>t r. if good
             then (if claimed
                   then (r = Inr (empty_response 204) \<and> (t = [PReturned PComplete] \<or> (\<exists>c. t = [PRaised PComplete c]))) \<or>
                        (\<exists>y. r = Inl y \<and> t = [PRaised PComplete (exn_cls y)] \<and> \<not> is_exception (exn_cls y))
                   else r = Inr (empty_response 204) \<and> t = [])
             else t = [] \<and> r = Inr (empty_response 500))" for good
    using assms
    by (auto intro: emits_weaken [OF emits_then [OF emits_push_complete emits_ret]] emits_weaken [OF emits_ret])
  show ?thesis unfolding dispatch_claimed_def
    by (rule emits_weaken [OF emits_bind [OF emits_catch [OF run failed] rest]])
      (auto simp: dispatch_contract_def split: if_splits)
qed

lemma given_push_key [simp]: "given (Some (push_key m sub))"
  by (simp add: given_def push_key_def)

text \<open>How a claim can end, with its key.\<close>

definition claim_contract ::
    "string \<Rightarrow> string \<Rightarrow> push_effect list
     \<Rightarrow> (pyexn, http_response option \<times> string option \<times> string option) result \<Rightarrow> bool" where
  "claim_contract k ow t r \<longleftrightarrow>
     (r = Inr (Some (empty_response 204), Some k, Some ow) \<and> t = [PClaimed COMPLETED])
     \<or> (r = Inr (Some (empty_response 429), Some k, Some ow) \<and> t = [PClaimed ACTIVE])
     \<or> (r = Inr (None, Some k, Some ow) \<and> t = [PClaimed FIRST])
     \<or> (\<exists>c. is_exception c \<and> t = [PRaised PClaim c] \<and> r = Inr (Some (empty_response 500), Some k, Some ow))
     \<or> (\<exists>x. \<not> is_exception (exn_cls x) \<and> t = [PRaised PClaim (exn_cls x)] \<and> r = Inl x)"

lemma emits_push_claim:
  "emits (push_claim (Some st) (Some m) sub ow) (claim_contract (push_key m sub) ow)"
proof -
  let ?call = "store_call PClaimed (PRaised PClaim) (st_claim st (push_key m sub) ow push_lease)"
  have some: "emits (bind_io ?call (\<lambda>c. ret (Some c)))
      (\<lambda>t r. (\<exists>c. r = Inr (Some c) \<and> t = [PClaimed c]) \<or> (\<exists>x. r = Inl x \<and> t = [PRaised PClaim (exn_cls x)]))"
    by (rule emits_weaken [OF emits_bind [OF emits_store [where P = "\<lambda>_. True"] emits_ret]]) auto
  have failed: "emits (if is_exception (exn_cls x) then ret None else throw x)
      (\<lambda>t r. t = [] \<and> (if is_exception (exn_cls x) then r = Inr None else r = Inl x))" for x
    by (auto intro: emits_weaken [OF emits_ret] emits_weaken [OF emits_throw])
  show ?thesis unfolding push_claim_def prod.case option.case Let_def
    by (rule emits_weaken [OF emits_bind [OF emits_catch [OF some failed] emits_ret]])
      (auto simp: claim_contract_def split: if_splits claim_result.split)
qed

lemma emits_claim_dispatch:
  assumes "given (Some ow)"
  shows "emits (claim_and_dispatch st d ow feed) (push_contract True)"
proof -
  obtain mid sub where m: "envelope_metadata d = (mid, sub)" by (cases "envelope_metadata d")
  show ?thesis
  proof (cases "st = None \<or> mid = None")
    case True
    then have "claim_and_dispatch st d ow feed = dispatch_claimed st None None feed"
      by (auto simp: claim_and_dispatch_def after_claim_def m push_claim_def bind_io_def ret_def fun_eq_iff split: option.split)
    moreover have "emits (dispatch_claimed st None None feed) (dispatch_contract False)"
      by (rule emits_dispatch) (simp add: given_def)
    ultimately show ?thesis
      by (auto elim!: emits_weaken simp: push_contract_def dispatch_contract_def split: sum.splits)
  next
    case False
    then obtain st' m' where s: "st = Some st'" "mid = Some m'" by auto
    let ?k = "push_key m' sub"
    have rest: "emits (after_claim st feed v)
        (\<lambda>t r. case fst v of
            Some w \<Rightarrow> t = [] \<and> r = Inr w
          | None \<Rightarrow> dispatch_contract (st \<noteq> None \<and> given (fst (snd v)) \<and> given (snd (snd v))) t r)" for v
      by (cases "fst v") (auto simp: after_claim_def intro: emits_weaken [OF emits_ret] emits_dispatch)
    show ?thesis unfolding claim_and_dispatch_def m prod.case
      unfolding s
      by (rule emits_weaken [OF emits_bind [OF emits_push_claim rest [unfolded s]]])
        (use assms in \<open>auto simp: claim_contract_def push_contract_def split: sum.splits\<close>)
  qed
qed

lemma emits_gate:
  assumes "emits m (push_contract True)"
  shows "emits (gate v rq m)
    (push_contract (case v of None \<Rightarrow> True | Some verify \<Rightarrow> \<exists>u. verify (rq\<lparr> rq_body := [] \<rparr>) = Inr u))"
proof (cases v)
  case None
  with assms show ?thesis by (simp add: gate_def)
next
  case (Some verify)
  show ?thesis
  proof (cases "verify (rq\<lparr> rq_body := [] \<rparr>)")
    case (Inl x)
    then show ?thesis
      by (auto simp: gate_def Some push_contract_def intro: emits_weaken [OF emits_ret] emits_weaken [OF emits_throw])
  next
    case (Inr u)
    with assms show ?thesis by (simp add: gate_def Some)
  qed
qed

lemma emits_bad_request: "emits (ret (empty_response 400)) (push_contract True)"
  by (rule emits_weaken [OF emits_ret]) (simp add: push_contract_def)

lemma emits_escape: "emits (throw x) (push_contract True)"
  by (rule emits_weaken [OF emits_throw]) (simp add: push_contract_def)

definition passes :: "verifier option \<Rightarrow> incoming_request \<Rightarrow> bool" where
  "passes v rq \<longleftrightarrow> (case v of None \<Rightarrow> True | Some verify \<Rightarrow> \<exists>u. verify (rq\<lparr> rq_body := [] \<rparr>) = Inr u)"

lemma emits_pubsub:
  assumes "given (Some ow)"
  shows "emits (pubsub_endpoint v st loads parse dp ow rq) (push_contract (passes v rq))"
  unfolding pubsub_endpoint_def passes_def
  by (rule emits_gate)
    (auto intro: emits_bad_request emits_escape emits_claim_dispatch [OF assms]
      split: option.split sum.split pyval.split)

lemma emits_workspace:
  assumes "given (Some ow)"
  shows "emits (workspace_endpoint v st loads fromiso h n r ow rq) (push_contract (passes v rq))"
  unfolding workspace_endpoint_def passes_def
  by (rule emits_gate)
    (auto intro: emits_bad_request emits_escape emits_claim_dispatch [OF assms]
      split: option.split sum.split pyval.split)

section \<open>Push requests over the in-process store\<close>

text \<open>A request that reaches the dispatcher, and what it does from there.\<close>

definition reaches ::
    "verifier option \<Rightarrow> (string \<Rightarrow> pyval option) \<Rightarrow> (pyval \<Rightarrow> (pyexn, event) result) \<Rightarrow> incoming_request
     \<Rightarrow> event \<Rightarrow> pydict \<Rightarrow> bool" where
  "reaches v loads parse rq e d \<longleftrightarrow>
     passes v rq \<and> loads (rq_body rq) = Some (PDict d) \<and> parse_envelope loads parse (PDict d) = Inr e"

definition feed_push :: "('u, 'r) dispatcher \<Rightarrow> event \<Rightarrow> 'u world \<Rightarrow> 'u world \<times> (pyexn, 'r option) result" where
  "feed_push dp e = feed_update dp e [(''capabilities'', CCapabilities {})]"

lemma gate_passes: "passes v rq \<Longrightarrow> gate v rq m = m"
  by (auto simp: passes_def gate_def split: option.splits)

lemma pubsub_reaches:
  "reaches v loads parse rq e d \<Longrightarrow>
   pubsub_endpoint v st loads parse dp ow rq = claim_and_dispatch st d ow (feed_push dp e)"
  by (simp add: reaches_def pubsub_endpoint_def gate_passes feed_push_def [abs_def])

text \<open>The claims after a request, by the answer of the store and the outcome of the dispatcher.\<close>

lemma push_memory:
  assumes "envelope_metadata d = (Some mid, sub)" and "rs_store s = (c, n)" and "given (Some ow)"
    and "claim (push_key mid sub) ow push_lease (clock n) (clock (Suc n)) c = (c1, a)"
  shows "claim_and_dispatch (Some (memory_store clock j)) d ow feed s =
    (let s1 = s\<lparr> rs_store := (c1, Suc (Suc n)), rs_trace := rs_trace s @ [PClaimed a] \<rparr>
     in case a of
          COMPLETED \<Rightarrow> (s1, Inr (empty_response 204))
        | ACTIVE \<Rightarrow> (s1, Inr (empty_response 429))
        | FIRST \<Rightarrow>
            (case feed (rs_world s) of
               (w, Inr r) \<Rightarrow>
                 (s1\<lparr> rs_store := (complete (push_key mid sub) ow c1, Suc (Suc n)), rs_world := w,
                      rs_trace := rs_trace s1 @ [PReturned PFeed, PReturned PComplete] \<rparr>, Inr (empty_response 204))
             | (w, Inl x) \<Rightarrow>
                 if is_exception (exn_cls x)
                 then (s1\<lparr> rs_store := (release (push_key mid sub) ow c1, Suc (Suc n)), rs_world := w,
                           rs_trace := rs_trace s1 @ [PRaised PFeed (exn_cls x), PReturned PRelease] \<rparr>,
                       Inr (empty_response 500))
                 else (s1\<lparr> rs_world := w, rs_trace := rs_trace s1 @ [PRaised PFeed (exn_cls x)] \<rparr>, Inl x)))"
  using assms
  by (simp add: claim_and_dispatch_def push_claim_def after_claim_def dispatch_claimed_def push_complete_def
      push_release_def best_effort_def io_defs memory_store_def Let_def
      split: claim_result.split prod.split sum.split)

lemma claim_completed: "claim k ow l t u c = (c1, COMPLETED) \<Longrightarrow> done_key k c1"
  by (auto simp: claim_def prune_expired_def done_key_def Let_def split: option.splits if_splits)

lemma claim_first: "claim k ow l t u c = (c1, FIRST) \<Longrightarrow> owned_key k ow c1"
  by (auto simp: claim_def owned_key_def Let_def split: option.splits if_splits)

lemma push_204_done:
  assumes "envelope_metadata d = (Some mid, sub)" and "given (Some ow)"
    and "claim_and_dispatch (Some (memory_store clock j)) d ow feed s = (s1, Inr (empty_response 204))"
  shows "done_key (push_key mid sub) (fst (rs_store s1))"
proof -
  obtain c n where s: "rs_store s = (c, n)" by (cases "rs_store s")
  obtain c1 a where cl: "claim (push_key mid sub) ow push_lease (clock n) (clock (Suc n)) c = (c1, a)"
    by (cases "claim (push_key mid sub) ow push_lease (clock n) (clock (Suc n)) c")
  have "a = COMPLETED \<Longrightarrow> done_key (push_key mid sub) c1" using cl claim_completed by blast
  moreover have "a = FIRST \<Longrightarrow> done_key (push_key mid sub) (complete (push_key mid sub) ow c1)"
    using cl claim_first owned_complete by blast
  ultimately show ?thesis
    using assms(3) unfolding push_memory [where clock = clock, OF assms(1) s assms(2) cl]
    by (auto simp: Let_def empty_response_def split: claim_result.splits prod.splits sum.splits if_splits)
qed

lemma push_500_released:
  assumes "envelope_metadata d = (Some mid, sub)" and "given (Some ow)"
    and "claim_and_dispatch (Some (memory_store clock j)) d ow feed s = (s1, Inr (empty_response 500))"
  shows "dict_get (fst (rs_store s1)) (push_key mid sub) = None"
proof -
  obtain c n where s: "rs_store s = (c, n)" by (cases "rs_store s")
  obtain c1 a where cl: "claim (push_key mid sub) ow push_lease (clock n) (clock (Suc n)) c = (c1, a)"
    by (cases "claim (push_key mid sub) ow push_lease (clock n) (clock (Suc n)) c")
  have "a = FIRST \<Longrightarrow> dict_get (release (push_key mid sub) ow c1) (push_key mid sub) = None"
    using cl claim_first [of "push_key mid sub" ow push_lease "clock n" "clock (Suc n)" c c1]
    by (auto simp: owned_key_def release_def del_claim_def)
  then show ?thesis
    using assms(3) unfolding push_memory [where clock = clock, OF assms(1) s assms(2) cl]
    by (auto simp: Let_def empty_response_def split: claim_result.splits prod.splits sum.splits if_splits)
qed

lemma claim_of_done: "done_key k c \<Longrightarrow> claim k ow l t u c = (c, COMPLETED)"
  by (auto simp: claim_def prune_expired_def done_key_def Let_def)

lemma claim_of_absent: "dict_get c k = None \<Longrightarrow> snd (claim k ow l t u c) = FIRST"
  by (simp add: claim_def prune_expired_def)

section \<open>A push request to compute with\<close>

definition push_env :: pydict where
  "push_env =
     [(PStr ''message'', PDict [(PStr ''data'', PStr []), (PStr ''messageId'', PStr ''1'')]),
      (PStr ''subscription'', PStr ''sub'')]"

definition push_loads :: "string \<Rightarrow> pyval option" where
  "push_loads s = Some (PDict (if s = [] then [] else push_env))"

definition push_request :: incoming_request where
  "push_request = \<lparr> rq_method = ''POST'', rq_path = ''/pubsub'', rq_body = ''{}'', rq_headers = [] \<rparr>"

definition push_state :: "(push_effect, claims \<times> nat, unit world, unit) run_state" where
  "push_state =
     \<lparr> rs_store = ([], 0), rs_world = \<lparr> current_bot = None, outside = () \<rparr>, rs_own = (), rs_trace = [] \<rparr>"

definition strict_dispatcher :: "(unit, answer) dispatcher" where
  "strict_dispatcher = idle_dispatcher\<lparr> dp_strict := True \<rparr>"

lemma push_metadata: "envelope_metadata push_env = (Some ''1'', Some ''sub'')"
  by (simp add: envelope_metadata_def push_env_def obj_get_def)

lemma push_reaches: "reaches None push_loads (\<lambda>_. Inr e) push_request (with_raw (PDict push_env) e) push_env"
  by (simp add: reaches_def passes_def push_loads_def push_request_def parse_envelope_def decode_message_data_def
      push_env_def obj_get_def)

lemma feed_strict_click:
  "feed_update strict_dispatcher (with_raw r bot_click) c w = (w, Inl (exn (Fw UnhandledInteractionError)))"
proof -
  have pass: "route_pass strict_dispatcher e d n w = (w, Inr NotHandled)" for e d n w
    by (simp add: route_pass_def strict_dispatcher_def idle_dispatcher_def observer_of_def new_observer_def
        middleware_of_def try_routers_def try_router_def)
  have "specific_passes strict_dispatcher e d ns w = (w, Inr NotHandled)" for e d ns w
    by (induction strict_dispatcher e d ns w rule: specific_passes.induct) (simp_all add: pass)
  then have "route_with_errors strict_dispatcher (with_raw r bot_click) d w =
      (w, Inl (exn (Fw UnhandledInteractionError)), Some (exn (Fw UnhandledInteractionError)))" for d w
    by (simp add: route_with_errors_def route_event_def pass log_unmatched_def with_raw_def bot_click_def)
      (simp add: strict_dispatcher_def)
  then show ?thesis
    by (simp add: feed_update_def maybe_hook_def Let_def) (simp add: strict_dispatcher_def idle_dispatcher_def)
qed

definition push_key_1 :: string where
  "push_key_1 = ''sub:1''"

lemma push_key_sample: "push_key ''1'' (Some ''sub'') = push_key_1"
  by (simp add: push_key_def push_key_1_def)

definition push_entry :: "string \<Rightarrow> claim_entry" where
  "push_entry ow = \<lparr> owner = ow, lease_until = 3600, completed = False \<rparr>"

lemma push_claim_sample: "claim push_key_1 ow push_lease 0 0 [] = ([(push_key_1, push_entry ow)], FIRST)"
  by (simp add: claim_def prune_expired_def push_lease_def push_entry_def)

lemma push_good:
  "pubsub_endpoint None (Some (memory_store (\<lambda>_. 0) 0)) push_loads (\<lambda>_. Inr e) idle_dispatcher ''A'' push_request push_state =
     (push_state\<lparr> rs_store := ([(push_key_1, (push_entry ''A'')\<lparr> completed := True \<rparr>)], Suc (Suc 0)),
        rs_trace := [PClaimed FIRST, PReturned PFeed, PReturned PComplete] \<rparr>, Inr (empty_response 204))"
proof -
  have s: "rs_store push_state = ([], 0)" by (simp add: push_state_def)
  have o: "given (Some ''A'')" by (simp add: given_def)
  note mem = push_memory [where clock = "\<lambda>_. 0" and j = 0, OF push_metadata s o push_claim_sample [folded push_key_sample]]
  show ?thesis unfolding pubsub_reaches [OF push_reaches] mem push_key_sample
    by (simp add: Let_def feed_push_def feed_idle complete_def) (simp add: push_entry_def push_state_def)
qed

lemma push_bad:
  "pubsub_endpoint None (Some (memory_store (\<lambda>_. 0) 0)) push_loads (\<lambda>_. Inr bot_click) strict_dispatcher ''A''
      push_request push_state =
     (push_state\<lparr> rs_store := ([], Suc (Suc 0)),
        rs_trace := [PClaimed FIRST, PRaised PFeed (Fw UnhandledInteractionError), PReturned PRelease] \<rparr>,
      Inr (empty_response 500))"
proof -
  have s: "rs_store push_state = ([], 0)" by (simp add: push_state_def)
  have o: "given (Some ''A'')" by (simp add: given_def)
  note mem = push_memory [where clock = "\<lambda>_. 0" and j = 0, OF push_metadata s o push_claim_sample [folded push_key_sample]]
  show ?thesis unfolding pubsub_reaches [OF push_reaches] mem push_key_sample
    by (simp add: Let_def feed_push_def feed_strict_click release_def del_claim_def)
      (simp add: push_entry_def push_state_def)
qed

section \<open>Properties of the endpoints\<close>





text \<open>A push request whose handler failed is not lost: after the answer 500 over the in-process store the
  claim is gone, and the same delivery pushed again, by whatever owner, is claimed FIRST and dispatched
  again.\<close>

theorem failed_push_redispatched:
  assumes "reaches v loads parse rq e d" and "envelope_metadata d = (Some mid, sub)" and "ow \<noteq> []" and "ow' \<noteq> []"
    and "pubsub_endpoint v (Some (memory_store clock j)) loads parse dp ow rq s = (s1, Inr (empty_response 500))"
    and "rs_store s2 = rs_store s1"
  shows "case pubsub_endpoint v (Some (memory_store clock j)) loads parse dp ow' rq s2 of (s3, res) \<Rightarrow>
      (\<exists>u. rs_trace s3 = rs_trace s2 @ PClaimed FIRST # u) \<and> rs_world s3 = fst (feed_push dp e (rs_world s2))"
proof -
  have ow: "given (Some ow)" "given (Some ow')" using assms(3,4) by (simp_all add: given_def)
  have "claim_and_dispatch (Some (memory_store clock j)) d ow (feed_push dp e) s = (s1, Inr (empty_response 500))"
    using assms(5) by (simp add: pubsub_reaches [OF assms(1)])
  then have gone: "dict_get (fst (rs_store s2)) (push_key mid sub) = None"
    unfolding assms(6) by (rule push_500_released [OF assms(2) ow(1)])
  obtain c n where s2: "rs_store s2 = (c, n)" by (cases "rs_store s2")
  then obtain c1 where "claim (push_key mid sub) ow' push_lease (clock n) (clock (Suc n)) c = (c1, FIRST)"
    using gone claim_of_absent by (metis fst_conv prod.collapse)
  note mem = push_memory [where clock = clock and j = j and feed = "feed_push dp e", OF assms(2) s2 ow(2) this]
  obtain w x where "feed_push dp e (rs_world s2) = (w, x)" by (cases "feed_push dp e (rs_world s2)")
  then show ?thesis unfolding pubsub_reaches [OF assms(1)] mem
    by (cases x) (simp_all add: Let_def)
qed

lemma failed_push_redispatched_witness:
  "\<exists>u. rs_trace (fst (pubsub_endpoint None (Some (memory_store (\<lambda>_. 0) 0)) push_loads (\<lambda>_. Inr bot_click)
      strict_dispatcher ''B'' push_request (push_state\<lparr> rs_store := ([], Suc (Suc 0)) \<rparr>))) = PClaimed FIRST # u"
  using failed_push_redispatched [OF push_reaches push_metadata _ _ push_bad, of "''B''" "push_state\<lparr> rs_store := ([], Suc (Suc 0)) \<rparr>"]
  by (auto simp: push_state_def split: prod.splits)

section \<open>Failures of the synchronous endpoint\<close>

lemma gate_cases:
  "gate (Some verify) rq m s =
     (case verify (rq\<lparr> rq_body := [] \<rparr>) of
        Inr u \<Rightarrow> m s
      | Inl x \<Rightarrow> (s, if issubclass (exn_cls x) (Wire VerificationError) then Inr (empty_response 401) else Inl x))"
  by (simp add: gate_def ret_def throw_def split: sum.split)

text \<open>The endpoint behind the verifier, once the event is parsed.\<close>

lemma chat_dispatched:
  assumes "verify (rq\<lparr> rq_body := [] \<rparr>) = Inr u" and "bind_res (request_json loads rq) (\<lambda>d. parse (PDict d)) = Inr e"
  shows "chat_endpoint verify loads parse render dp rq s =
    (case feed_chat dp e (rs_world s) of
       (w, Inr result) \<Rightarrow>
         (s\<lparr> rs_world := w, rs_trace := rs_trace s @ [PReturned PFeed] \<rparr>,
          answer_request render e (chosen_payload (snd (outside w)) result))
     | (w, Inl x) \<Rightarrow>
         (s\<lparr> rs_world := w, rs_trace := rs_trace s @ [PRaised PFeed (exn_cls x)] \<rparr>,
          if is_exception (exn_cls x) then Inr (empty_response 500) else Inl x))"
  by (simp add: chat_endpoint_def gate_cases assms io_defs split: prod.split sum.split)

lemma chat_unparsed:
  assumes "verify (rq\<lparr> rq_body := [] \<rparr>) = Inr u" and "bind_res (request_json loads rq) (\<lambda>d. parse (PDict d)) = Inl x"
  shows "chat_endpoint verify loads parse render dp rq s =
    (s, if issubclass (exn_cls x) (Wire GoogleInteractionError) then Inr invalid_payload_response else Inl x)"
  by (simp add: chat_endpoint_def gate_cases assms ret_def throw_def)

lemma request_unparsed:
  assumes "bind_res (request_json loads rq) (\<lambda>d. parse_interaction validate fromiso (PDict d)) = Inl x"
  shows "issubclass (exn_cls x) (Wire GoogleInteractionError) \<or> exn_cls x = Py ValueErr"
proof -
  have "x = exn (Wire InvalidInteractionPayload) \<or> (\<exists>d. parse_interaction validate fromiso (PDict d) = Inl x)"
    using assms by (auto simp: request_json_def invalid_def bind_res_Inl_iff split: option.splits pyval.splits)
  then show ?thesis
    using parse_failures_base [of validate fromiso] adapter_failure_exn(1)
    by (auto simp: raises_only_def form_failure_def adapter_failure_def)
qed

lemma answer_request_cases:
  "case answer_request render e p of
     Inr r \<Rightarrow> serialize render p e = Inr r \<and> hr_status r = 200 \<or> r = empty_response 500
   | Inl x \<Rightarrow> \<exists>v. render v = Inl x"
  using serialize_fails [of render p e] serialize_status [of render p e]
  by (auto simp: answer_request_def issubclass_refl split: sum.split)

text \<open>C27. The synchronous endpoint contains failures. Every request is answered 200, 400, 401 or 500: 401 only
  when the verifier, which never sees the body, refused it, and then nothing happened; 400 only for a payload
  the parser refused; 200 only with what the serializer makes, for the parsed event, of the payload set
  through the response object, or else of the handler's result; and every other failure with an Exception,
  of handlers and of the serializer, is an empty 500. What escapes instead is no Exception, or comes from
  the verifier or the JSON encoder, or is the plain ValueError the parser lets through.\<close>

theorem chat_endpoint_contained:
  "case chat_endpoint verify loads (parse_interaction validate fromiso) render dp rq s of (s', res) \<Rightarrow>
     (case res of
        Inr r \<Rightarrow>
          r = empty_response 401 \<and> s' = s \<and> (\<exists>x. verify (rq\<lparr> rq_body := [] \<rparr>) = Inl x)
          \<or> (\<exists>u. verify (rq\<lparr> rq_body := [] \<rparr>) = Inr u) \<and>
            (r = invalid_payload_response \<and> s' = s
             \<or> (\<exists>d e. request_json loads rq = Inr d \<and> parse_interaction validate fromiso (PDict d) = Inr e \<and>
                  (r = empty_response 500
                   \<or> hr_status r = 200 \<and>
                     (\<exists>result. snd (feed_chat dp e (rs_world s)) = Inr result \<and>
                        serialize render (chosen_payload (snd (outside (rs_world s'))) result) e = Inr r))))
      | Inl x \<Rightarrow>
          if is_exception (exn_cls x)
          then verify (rq\<lparr> rq_body := [] \<rparr>) = Inl x \<or> (\<exists>v. render v = Inl x) \<or> exn_cls x = Py ValueErr
          else True)"
proof (cases "verify (rq\<lparr> rq_body := [] \<rparr>)")
  case (Inl x)
  then show ?thesis by (simp add: chat_endpoint_def gate_cases)
next
  case v: (Inr u)
  let ?parse = "parse_interaction validate fromiso"
  show ?thesis
  proof (cases "bind_res (request_json loads rq) (\<lambda>d. ?parse (PDict d))")
    case (Inl x)
    then show ?thesis using request_unparsed [OF Inl] by (auto simp: chat_unparsed [where parse = ?parse and verify = verify, OF v Inl] v)
  next
    case (Inr e)
    note parsed = Inr
    from Inr obtain d where d: "request_json loads rq = Inr d" "?parse (PDict d) = Inr e"
      by (auto simp: bind_res_Inr_iff)
    obtain w x where feed: "feed_chat dp e (rs_world s) = (w, x)" by (cases "feed_chat dp e (rs_world s)")
    show ?thesis
    proof (cases x)
      case (Inl y)
      then show ?thesis using d by (auto simp: chat_dispatched [where parse = ?parse and verify = verify, OF v parsed] feed v)
    next
      case (Inr result)
      then show ?thesis
        using d answer_request_cases [where render = render and e = e and p = "chosen_payload (snd (outside w)) result"]
        by (auto simp: chat_dispatched [where parse = ?parse and verify = verify, OF v parsed] feed v split: sum.splits)
    qed
  qed
qed

end
