(* ===== verification/Actions.thy ===== *)
theory Actions
  imports Filters
begin

text \<open>
  Typed action data (\<open>actions.py\<close>): the codec between the fields of a dataclass and the flat string
  parameters of a card action, and the filter that decodes them. A model class is what \<open>dataclasses.fields\<close>
  and \<open>get_type_hints\<close> report of it. \<open>other\<close> is \<open>str\<close> of the enum values that are neither text nor number,
  \<open>frepr\<close> and \<open>fparse\<close> are \<open>repr\<close> and the constructor of \<open>float\<close>.
\<close>

section \<open>Models\<close>

text \<open>A type hint: the supported types, an enum class with its members, \<open>None\<close>, a union, anything else.
  A member of a plain enum is a \<open>PEnum\<close>, one of a \<open>StrEnum\<close> or \<open>IntEnum\<close> the text or number it equals.\<close>

datatype hint =
    HStr | HInt | HFloat | HBool | HNone | HEnum string "pyval list" | HUnion "hint list" | HOther nat

record field_spec =
  fs_name :: string
  fs_hint :: hint
  fs_default :: "pyval option"

type_synonym model = "field_spec list"

type_synonym instance_of_model = "(string, pyval) pdict"

definition decode_error :: "(pyexn, 'a) result" where
  "decode_error = Inl (exn (St ActionDataDecodeError))"

definition member_value :: "pyval \<Rightarrow> pyval" where
  "member_value v = (case v of PEnum c n w \<Rightarrow> w | _ \<Rightarrow> v)"

section \<open>The codec\<close>

definition encode_value :: "(pyval \<Rightarrow> string) \<Rightarrow> (rat \<Rightarrow> string) \<Rightarrow> pyval \<Rightarrow> (pyexn, string) result" where
  "encode_value other frepr v =
     (case v of
        PBool b \<Rightarrow> Inr (if b then ''true'' else ''false'')
      | PStr s \<Rightarrow> Inr s
      | PInt i \<Rightarrow> Inr (str_int i)
      | PFloat x \<Rightarrow> (case x of Fin r \<Rightarrow> Inr (frepr r) | _ \<Rightarrow> Inl (exn (Py TypeErr)))
      | PEnum c n w \<Rightarrow> Inr (py_str other w)
      | _ \<Rightarrow> Inl (exn (Py TypeErr)))"

definition decode_value ::
    "(pyval \<Rightarrow> string) \<Rightarrow> (string \<Rightarrow> pyfloat option) \<Rightarrow> string \<Rightarrow> hint \<Rightarrow> (pyexn, pyval) result" where
  "decode_value other fparse txt h =
     (case h of
        HStr \<Rightarrow> Inr (PStr txt)
      | HInt \<Rightarrow> (case py_int txt of Some i \<Rightarrow> Inr (PInt i) | None \<Rightarrow> decode_error)
      | HFloat \<Rightarrow> (case fparse txt of Some (Fin r) \<Rightarrow> Inr (PFloat (Fin r)) | _ \<Rightarrow> decode_error)
      | HBool \<Rightarrow>
          if txt = ''true'' then Inr (PBool True) else if txt = ''false'' then Inr (PBool False) else decode_error
      | HEnum c ms \<Rightarrow>
          (case find (\<lambda>m. py_str other (member_value m) = txt) ms of Some m \<Rightarrow> Inr m | None \<Rightarrow> decode_error)
      | _ \<Rightarrow> decode_error)"

definition unwrap_optional :: "hint \<Rightarrow> hint" where
  "unwrap_optional h =
     (case h of
        HUnion [a, b] \<Rightarrow> if b = HNone then a else if a = HNone then b else h
      | _ \<Rightarrow> h)"

definition is_required :: "field_spec \<Rightarrow> bool" where
  "is_required f \<longleftrightarrow> fs_default f = None"

fun to_parameters ::
    "(pyval \<Rightarrow> string) \<Rightarrow> (rat \<Rightarrow> string) \<Rightarrow> model \<Rightarrow> (string \<Rightarrow> pyval) \<Rightarrow> (pyexn, (string, string) pdict) result" where
  "to_parameters other frepr [] obj = Inr []"
| "to_parameters other frepr (f # fs) obj =
     (if obj (fs_name f) = PNone then to_parameters other frepr fs obj
      else bind_res (encode_value other frepr (obj (fs_name f))) (\<lambda>s.
             map_sum id (\<lambda>ps. (fs_name f, s) # ps) (to_parameters other frepr fs obj)))"

text \<open>\<open>from_parameters\<close>: the values decoded, in the order of the fields, then the defaults of the constructor.\<close>

fun decoded_fields ::
    "(pyval \<Rightarrow> string) \<Rightarrow> (string \<Rightarrow> pyfloat option) \<Rightarrow> model \<Rightarrow> (string, string) pdict
     \<Rightarrow> (pyexn, (string, pyval) pdict) result" where
  "decoded_fields other fparse [] ps = Inr []"
| "decoded_fields other fparse (f # fs) ps =
     (case dict_get ps (fs_name f) of
        None \<Rightarrow> if is_required f then decode_error else decoded_fields other fparse fs ps
      | Some txt \<Rightarrow>
          bind_res (decode_value other fparse txt (unwrap_optional (fs_hint f))) (\<lambda>v.
            map_sum id (\<lambda>vs. (fs_name f, v) # vs) (decoded_fields other fparse fs ps)))"

definition construct :: "model \<Rightarrow> (string, pyval) pdict \<Rightarrow> instance_of_model" where
  "construct m vs =
     map (\<lambda>f. (fs_name f, case dict_get vs (fs_name f) of Some v \<Rightarrow> v | None \<Rightarrow> the (fs_default f))) m"

definition from_parameters ::
    "(pyval \<Rightarrow> string) \<Rightarrow> (string \<Rightarrow> pyfloat option) \<Rightarrow> model \<Rightarrow> (string, string) pdict
     \<Rightarrow> (pyexn, instance_of_model) result" where
  "from_parameters other fparse m ps = map_sum id (construct m) (decoded_fields other fparse m ps)"

text \<open>\<open>ActionData.__init_subclass__\<close>: a function name of white space only is refused.\<close>

definition bind_function :: "string option \<Rightarrow> (pyexn, string option) result" where
  "bind_function n = (case n of Some s \<Rightarrow> if py_strip s = [] then Inl (exn (Py ValueErr)) else Inr n | None \<Rightarrow> Inr None)"

text \<open>\<open>ActionDataFilter.__call__\<close>; the decoded object is the value under \<open>data\<close>.\<close>

definition text_params :: "(string, pyval) pdict \<Rightarrow> (string, string) pdict" where
  "text_params ps = List.map_filter (\<lambda>(k, v). case v of PStr s \<Rightarrow> Some (k, s) | _ \<Rightarrow> None) ps"

definition action_data_filter ::
    "(pyval \<Rightarrow> string) \<Rightarrow> (string \<Rightarrow> pyfloat option) \<Rightarrow> model \<Rightarrow> (instance_of_model \<Rightarrow> 'v) \<Rightarrow> ('w, 'v) event_filter" where
  "action_data_filter other fparse m emb e d w =
     (case body e of
        ActionEvent a \<Rightarrow>
          (case from_parameters other fparse m (text_params (action_params a)) of
             Inr i \<Rightarrow> (w, Inr (FMapping [(StrKey ''data'', emb i)]))
           | Inl x \<Rightarrow>
               if issubclass (exn_cls x) (St ActionDataDecodeError) then (w, Inr (FBool False)) else (w, Inl x))
      | _ \<Rightarrow> (w, Inr (FBool False)))"

section \<open>Types\<close>

text \<open>The values of a hint; an enum member must be the first one whose value is written like its own.\<close>

definition fits :: "(pyval \<Rightarrow> string) \<Rightarrow> hint \<Rightarrow> pyval \<Rightarrow> bool" where
  "fits other h v \<longleftrightarrow>
     (case h of
        HStr \<Rightarrow> (\<exists>s. v = PStr s)
      | HInt \<Rightarrow> (\<exists>i. v = PInt i)
      | HFloat \<Rightarrow> (\<exists>r. v = PFloat (Fin r))
      | HBool \<Rightarrow> (\<exists>b. v = PBool b)
      | HEnum c ms \<Rightarrow> find (\<lambda>m. py_str other (member_value m) = py_str other (member_value v)) ms = Some v
      | _ \<Rightarrow> False)"

text \<open>What a member of an enum class can be.\<close>

definition enum_member :: "pyval \<Rightarrow> bool" where
  "enum_member v \<longleftrightarrow> (case v of PEnum c n w \<Rightarrow> True | PStr s \<Rightarrow> True | PInt i \<Rightarrow> True | _ \<Rightarrow> False)"

definition enums_ok :: "hint \<Rightarrow> bool" where
  "enums_ok h \<longleftrightarrow> (case h of HEnum c ms \<Rightarrow> list_all enum_member ms | _ \<Rightarrow> True)"

lemma decode_value_fits:
  "decode_value other fparse txt h = Inr v \<Longrightarrow> fits other h v"
  by (cases h) (auto simp: decode_value_def fits_def decode_error_def find_Some_iff
      split: option.splits pyfloat.splits if_splits)

lemma decode_value_fails: "decode_value other fparse txt h = Inl x \<Longrightarrow> x = exn (St ActionDataDecodeError)"
  by (cases h) (auto simp: decode_value_def decode_error_def split: option.splits pyfloat.splits if_splits)

lemma decode_encode:
  assumes fr: "\<And>r. v = PFloat (Fin r) \<Longrightarrow> fparse (frepr r) = Some (Fin r)" and "enums_ok h" and "fits other h v"
  shows "\<exists>s. encode_value other frepr v = Inr s \<and> decode_value other fparse s h = Inr v"
proof (cases h)
  case (HEnum c ms)
  then have f: "find (\<lambda>m. py_str other (member_value m) = py_str other (member_value v)) ms = Some v"
    using assms(3) by (simp add: fits_def)
  then have "v \<in> set ms" by (metis find_Some_iff nth_mem)
  then have "enum_member v" using assms(2) HEnum by (simp add: enums_ok_def list_all_iff)
  then have "encode_value other frepr v = Inr (py_str other (member_value v))"
    by (auto simp: enum_member_def encode_value_def member_value_def split: pyval.splits)
  then show ?thesis using HEnum f by (simp add: decode_value_def)
next
  case HFloat
  then obtain r where "v = PFloat (Fin r)" using assms(3) by (auto simp: fits_def)
  then show ?thesis using HFloat fr by (simp add: encode_value_def decode_value_def)
next
  case HBool
  then obtain b where "v = PBool b" using assms(3) by (auto simp: fits_def)
  then show ?thesis using HBool by (cases b) (simp_all add: encode_value_def decode_value_def)
qed (use assms(3) in \<open>auto simp: fits_def encode_value_def decode_value_def\<close>)

section \<open>Encoding and decoding a model\<close>

definition encoded :: "(pyval \<Rightarrow> string) \<Rightarrow> (rat \<Rightarrow> string) \<Rightarrow> pyval \<Rightarrow> string" where
  "encoded other frepr v = (case encode_value other frepr v of Inr s \<Rightarrow> s | Inl x \<Rightarrow> [])"

definition sent_fields :: "model \<Rightarrow> (string \<Rightarrow> pyval) \<Rightarrow> model" where
  "sent_fields m obj = filter (\<lambda>f. obj (fs_name f) \<noteq> PNone) m"

lemma sent_Cons [simp]:
  "sent_fields (f # fs) obj = (if obj (fs_name f) = PNone then sent_fields fs obj else f # sent_fields fs obj)"
  "sent_fields [] obj = []"
  by (simp_all add: sent_fields_def)

text \<open>\<open>float(repr(x))\<close> is \<open>x\<close> for the floats the object holds.\<close>

definition floats_survive ::
    "(rat \<Rightarrow> string) \<Rightarrow> (string \<Rightarrow> pyfloat option) \<Rightarrow> model \<Rightarrow> (string \<Rightarrow> pyval) \<Rightarrow> bool" where
  "floats_survive frepr fparse m obj \<longleftrightarrow>
     list_all (\<lambda>f. case obj (fs_name f) of PFloat (Fin r) \<Rightarrow> fparse (frepr r) = Some (Fin r) | _ \<Rightarrow> True) m"

text \<open>An object whose fields hold values of their types, and \<open>None\<close> only where that is the default.\<close>

definition holds_types :: "(pyval \<Rightarrow> string) \<Rightarrow> model \<Rightarrow> (string \<Rightarrow> pyval) \<Rightarrow> bool" where
  "holds_types other m obj \<longleftrightarrow>
     list_all (\<lambda>f. enums_ok (unwrap_optional (fs_hint f)) \<and>
       (if obj (fs_name f) = PNone then fs_default f = Some PNone
        else fits other (unwrap_optional (fs_hint f)) (obj (fs_name f)))) m"

lemma field_encodes:
  assumes "floats_survive frepr fparse (f # fs) obj" "holds_types other (f # fs) obj" "obj (fs_name f) \<noteq> PNone"
  shows "\<exists>s. encode_value other frepr (obj (fs_name f)) = Inr s \<and>
    decode_value other fparse s (unwrap_optional (fs_hint f)) = Inr (obj (fs_name f))"
proof (rule decode_encode)
  fix r assume "obj (fs_name f) = PFloat (Fin r)"
  then show "fparse (frepr r) = Some (Fin r)" using assms(1) by (simp add: floats_survive_def)
qed (use assms(2,3) in \<open>simp_all add: holds_types_def\<close>)

lemma to_parameters_sent:
  shows "floats_survive frepr fparse m obj \<Longrightarrow> holds_types other m obj \<Longrightarrow>
    to_parameters other frepr m obj =
      Inr (map (\<lambda>f. (fs_name f, encoded other frepr (obj (fs_name f)))) (sent_fields m obj))"
proof (induction m)
  case (Cons f fs)
  show ?case
  proof (cases "obj (fs_name f) = PNone")
    case True
    then show ?thesis using Cons by (simp add: holds_types_def floats_survive_def)
  next
    case False
    then obtain s where "encode_value other frepr (obj (fs_name f)) = Inr s"
      using field_encodes [OF Cons(2,3) False] by blast
    then show ?thesis using Cons False by (simp add: holds_types_def encoded_def floats_survive_def)
  qed
qed simp

lemma decoded_sent:
  shows "floats_survive frepr fparse m obj \<Longrightarrow> holds_types other m obj \<Longrightarrow>
    (\<And>f. f \<in> set m \<Longrightarrow> dict_get ps (fs_name f) =
       (if obj (fs_name f) = PNone then None else Some (encoded other frepr (obj (fs_name f))))) \<Longrightarrow>
    decoded_fields other fparse m ps = Inr (map (\<lambda>f. (fs_name f, obj (fs_name f))) (sent_fields m obj))"
proof (induction m)
  case (Cons f fs)
  have rest: "decoded_fields other fparse fs ps = Inr (map (\<lambda>f. (fs_name f, obj (fs_name f))) (sent_fields fs obj))"
    using Cons by (simp add: holds_types_def floats_survive_def)
  show ?case
  proof (cases "obj (fs_name f) = PNone")
    case True
    then show ?thesis using Cons(3) Cons(4) [of f] rest by (simp add: holds_types_def is_required_def)
  next
    case False
    then obtain s where "encode_value other frepr (obj (fs_name f)) = Inr s"
      "decode_value other fparse s (unwrap_optional (fs_hint f)) = Inr (obj (fs_name f))"
      using field_encodes [OF Cons(2,3) False] by blast
    then show ?thesis using Cons(4) [of f] False rest by (simp add: encoded_def)
  qed
qed simp

lemma get_sent:
  "distinct (map fs_name m) \<Longrightarrow> f \<in> set m \<Longrightarrow>
   dict_get (map (\<lambda>f. (fs_name f, g (fs_name f))) (sent_fields m obj)) (fs_name f) =
     (if obj (fs_name f) = PNone then None else Some (g (fs_name f)))"
proof (induction m)
  case (Cons x m)
  then show ?case
    by (cases "x = f") (auto simp: dict_get_None_iff sent_fields_def dest: imageI [where f = fs_name])
qed simp

lemma construct_sent:
  assumes "holds_types other m obj" "distinct (map fs_name m)"
  shows "construct m (map (\<lambda>f. (fs_name f, obj (fs_name f))) (sent_fields m obj)) =
    map (\<lambda>f. (fs_name f, obj (fs_name f))) m"
  using assms(1) get_sent [OF assms(2), of _ obj obj]
  by (auto simp: construct_def holds_types_def list_all_iff split: option.split if_splits)

text \<open>C29. Action data survives the trip through a card: the parameters of an object whose fields hold values of
  their types decode to an equal object, in a class with any defaults, also when the action comes back with
  parameters the class does not know; optional fields that are \<open>None\<close> are left out and come back as \<open>None\<close>
  when that is their default. What is assumed of floats is that \<open>float(repr(x))\<close> is \<open>x\<close>.\<close>

theorem action_data_round_trip:
  assumes "floats_survive frepr fparse m obj" and "distinct (map fs_name m)" and "holds_types other m obj"
  shows "\<exists>ps. to_parameters other frepr m obj = Inr ps \<and>
    (\<forall>ps'. (\<forall>f \<in> set m. dict_get ps' (fs_name f) = dict_get ps (fs_name f)) \<longrightarrow>
       from_parameters other fparse m ps' = Inr (map (\<lambda>f. (fs_name f, obj (fs_name f))) m))"
proof (intro exI conjI allI impI)
  let ?ps = "map (\<lambda>f. (fs_name f, encoded other frepr (obj (fs_name f)))) (sent_fields m obj)"
  show "to_parameters other frepr m obj = Inr ?ps" by (rule to_parameters_sent [OF assms(1,3)])
  fix ps' assume "\<forall>f \<in> set m. dict_get ps' (fs_name f) = dict_get ?ps (fs_name f)"
  then have "decoded_fields other fparse m ps' = Inr (map (\<lambda>f. (fs_name f, obj (fs_name f))) (sent_fields m obj))"
    using get_sent [OF assms(2), of _ "\<lambda>n. encoded other frepr (obj n)" obj]
    by (intro decoded_sent [where frepr = frepr, OF assms(1,3)]) auto
  then show "from_parameters other fparse m ps' = Inr (map (\<lambda>f. (fs_name f, obj (fs_name f))) m)"
    by (simp add: from_parameters_def construct_sent [OF assms(3,2)])
qed

text \<open>A class with a text, an optional number, a float and a plain enum.\<close>

definition deploy_model :: model where
  "deploy_model =
     [\<lparr> fs_name = ''env'', fs_hint = HStr, fs_default = None \<rparr>,
      \<lparr> fs_name = ''build'', fs_hint = HUnion [HInt, HNone], fs_default = Some PNone \<rparr>,
      \<lparr> fs_name = ''share'', fs_hint = HFloat, fs_default = None \<rparr>,
      \<lparr> fs_name = ''mode'', fs_hint = HEnum ''Mode'' [PEnum ''Mode'' ''FAST'' (PInt 1), PEnum ''Mode'' ''SAFE'' (PInt 2)],
        fs_default = Some (PEnum ''Mode'' ''FAST'' (PInt 1)) \<rparr>]"

definition deploy_object :: "string \<Rightarrow> pyval" where
  "deploy_object n =
     (if n = ''env'' then PStr ''prod'' else if n = ''mode'' then PEnum ''Mode'' ''SAFE'' (PInt 2)
      else if n = ''share'' then PFloat (Fin (1 / 2)) else PNone)"

definition half_parse :: "string \<Rightarrow> pyfloat option" where
  "half_parse s = (if s = ''0.5'' then Some (Fin (1 / 2)) else None)"

lemma str_int_1_2: "str_int 1 \<noteq> str_int 2"
  by code_simp

lemma action_data_round_trip_witness:
  "\<exists>ps. to_parameters (\<lambda>_. []) (\<lambda>r. ''0.5'') deploy_model deploy_object = Inr ps \<and>
     from_parameters (\<lambda>_. []) half_parse deploy_model ps = Inr (map (\<lambda>f. (fs_name f, deploy_object (fs_name f))) deploy_model)"
proof -
  have "floats_survive (\<lambda>r. ''0.5'') half_parse deploy_model deploy_object"
    by (simp add: floats_survive_def deploy_model_def deploy_object_def half_parse_def)
  moreover have "distinct (map fs_name deploy_model)" by (simp add: deploy_model_def)
  moreover have "holds_types (\<lambda>_. []) deploy_model deploy_object"
    by (simp add: holds_types_def deploy_model_def deploy_object_def unwrap_optional_def fits_def enums_ok_def
        enum_member_def member_value_def str_int_1_2 exI [of _ "1 / 2"])
  ultimately show ?thesis using action_data_round_trip by blast
qed

text \<open>What an instance holds: a parameter that is present decoded to its type, the default of the class otherwise.\<close>

definition typed_instance ::
    "(pyval \<Rightarrow> string) \<Rightarrow> model \<Rightarrow> (string, string) pdict \<Rightarrow> instance_of_model \<Rightarrow> bool" where
  "typed_instance other m ps i \<longleftrightarrow>
     map fst i = map fs_name m \<and>
     list_all2 (\<lambda>f v. if dict_has ps (fs_name f) then fits other (unwrap_optional (fs_hint f)) v
       else fs_default f = Some v) m (map snd i)"

lemma decoded_fields_fails:
  "decoded_fields other fparse m ps = Inl x \<Longrightarrow> x = exn (St ActionDataDecodeError)"
  by (induction m) (auto simp: bind_res_Inl_iff map_sum_Inl_iff decode_error_def
      dest: decode_value_fails split: option.splits if_splits)

lemma decoded_fields_names: "decoded_fields other fparse m ps = Inr vs \<Longrightarrow> fst ` set vs \<subseteq> fs_name ` set m"
proof (induction m arbitrary: vs)
  case (Cons f m)
  show ?case
  proof (cases "dict_get ps (fs_name f)")
    case None
    then show ?thesis using Cons by (auto simp: decode_error_def split: if_splits)
  next
    case (Some tx)
    then obtain v ws where "vs = (fs_name f, v) # ws" "decoded_fields other fparse m ps = Inr ws"
      using Cons(2) by (auto simp: bind_res_Inr_iff map_sum_Inr_iff)
    then show ?thesis using Cons(1) by auto
  qed
qed simp

lemma decoded_fields_typed:
  "decoded_fields other fparse m ps = Inr vs \<Longrightarrow> distinct (map fs_name m) \<Longrightarrow>
   list_all (\<lambda>f. case dict_get vs (fs_name f) of
     Some v \<Rightarrow> dict_has ps (fs_name f) \<and> fits other (unwrap_optional (fs_hint f)) v
   | None \<Rightarrow> \<not> dict_has ps (fs_name f) \<and> fs_default f \<noteq> None) m"
proof (induction m arbitrary: vs)
  case (Cons f m)
  show ?case
  proof (cases "dict_get ps (fs_name f)")
    case None
    then have req: "fs_default f \<noteq> None" and ok: "decoded_fields other fparse m ps = Inr vs"
      using Cons(2) by (auto simp: is_required_def decode_error_def split: if_splits)
    have "dict_get vs (fs_name f) = None"
      using decoded_fields_names [OF ok] Cons(3) by (auto simp: dict_get_None_iff)
    then show ?thesis using Cons(1) [OF ok] Cons(3) req None by (simp add: dict_has_def)
  next
    case (Some tx)
    then obtain v ws where v: "decode_value other fparse tx (unwrap_optional (fs_hint f)) = Inr v"
      and ok: "decoded_fields other fparse m ps = Inr ws" and vs: "vs = (fs_name f, v) # ws"
      using Cons(2) by (auto simp: bind_res_Inr_iff map_sum_Inr_iff)
    have "fs_name f \<notin> fs_name ` set m" using Cons(3) by simp
    then have "list_all (\<lambda>g. fs_name f \<noteq> fs_name g) m" unfolding list_all_iff by (metis imageI)
    then show ?thesis using Cons(1) [OF ok] Cons(3) v Some vs decode_value_fits [OF v]
      by (auto simp: dict_has_def list_all_iff)
  qed
qed simp

lemma from_parameters_typed:
  assumes "distinct (map fs_name m)" "from_parameters other fparse m ps = Inr i"
  shows "typed_instance other m ps i"
proof -
  obtain vs where vs: "decoded_fields other fparse m ps = Inr vs" and i: "i = construct m vs"
    using assms(2) by (auto simp: from_parameters_def map_sum_Inr_iff)
  show ?thesis using decoded_fields_typed [OF vs assms(1)]
    by (auto simp: i typed_instance_def construct_def list_all_iff list.rel_map comp_def
        intro!: list.rel_refl_strong split: option.splits)
qed

text \<open>The action data filter never raises and changes nothing: it answers false, or it was given an action
  and hands the handler an instance of the class under \<open>data\<close>, in which every parameter that is present is
  decoded to a value of its declared type and every other field has its default.\<close>

theorem action_filter_typed:
  assumes "distinct (map fs_name m)"
  shows "\<exists>r. action_data_filter other fparse m emb e d w = (w, Inr r) \<and>
    (r = FBool False \<or>
     (\<exists>a i. body e = ActionEvent a \<and> r = FMapping [(StrKey ''data'', emb i)] \<and>
        typed_instance other m (text_params (action_params a)) i))"
proof (cases "body e")
  case (ActionEvent a)
  show ?thesis
  proof (cases "from_parameters other fparse m (text_params (action_params a))")
    case (Inl x)
    then have "x = exn (St ActionDataDecodeError)"
      by (auto simp: from_parameters_def map_sum_Inl_iff dest: decoded_fields_fails)
    then show ?thesis using ActionEvent Inl by (simp add: action_data_filter_def issubclass_refl)
  next
    case (Inr i)
    then have "action_data_filter other fparse m emb e d w = (w, Inr (FMapping [(StrKey ''data'', emb i)]))"
      using ActionEvent by (simp add: action_data_filter_def)
    then show ?thesis using ActionEvent from_parameters_typed [OF assms Inr] by blast
  qed
qed (simp_all add: action_data_filter_def)

lemma action_filter_typed_witness:
  "\<exists>r. action_data_filter (\<lambda>_. []) half_parse deploy_model (\<lambda>i. i) e d w = (w, Inr r)"
  using action_filter_typed [of deploy_model "\<lambda>_. []" half_parse "\<lambda>i. i" e d w] by (auto simp: deploy_model_def)

end
