(* ===== verification/Forms.thy ===== *)
theory Forms
  imports Filters
begin

text \<open>
  Typed form decoding (\<open>forms.py\<close>): a dataclass schema over the form inputs the adapter has typed. A
  model class is what \<open>dataclasses.fields\<close> and \<open>get_type_hints\<close> report of it; a default is any object \<open>'o\<close>.
\<close>

section \<open>Models\<close>

datatype input_class = StringIn | DateIn | DateTimeIn | TimeIn | UnknownIn

fun input_class_of :: "form_value \<Rightarrow> input_class" where
  "input_class_of (StringInput vs) = StringIn"
| "input_class_of (DateInput ms) = DateIn"
| "input_class_of (DateTimeInput ms d t) = DateTimeIn"
| "input_class_of (TimeInput h mn) = TimeIn"
| "input_class_of (UnknownFormInput k r) = UnknownIn"

text \<open>A type hint: one of the supported input classes, \<open>None\<close>, a union, anything else.\<close>

datatype form_hint = InputHint input_class | NoneHint | UnionHint "form_hint list" | OtherHint nat

record 'o form_field =
  ff_name :: string
  ff_hint :: form_hint
  ff_default :: "'o option"

datatype 'o held = Submitted form_value | Default 'o

definition unwrap_form_hint :: "form_hint \<Rightarrow> form_hint" where
  "unwrap_form_hint h =
     (case h of
        UnionHint [a, b] \<Rightarrow> if b = NoneHint then a else if a = NoneHint then b else h
      | _ \<Rightarrow> h)"

definition form_required :: "'o form_field \<Rightarrow> bool" where
  "form_required f \<longleftrightarrow> ff_default f = None"

definition form_error :: "(pyexn, 'a) result" where
  "form_error = Inl (exn (St FormDecodeError))"

section \<open>Decoding\<close>

text \<open>The loop of \<open>from_form_inputs\<close>: the declared type of a field is checked before its presence.\<close>

fun form_values :: "form_inputs \<Rightarrow> 'o form_field list \<Rightarrow> (pyexn, form_inputs) result" where
  "form_values ins [] = Inr []"
| "form_values ins (f # fs) =
     (case unwrap_form_hint (ff_hint f) of
        InputHint c \<Rightarrow>
          (case dict_get ins (ff_name f) of
             None \<Rightarrow> if form_required f then form_error else form_values ins fs
           | Some v \<Rightarrow>
               if input_class_of v \<noteq> c then form_error
               else map_sum id (\<lambda>vs. (ff_name f, v) # vs) (form_values ins fs))
      | _ \<Rightarrow> Inl (exn (Py TypeErr)))"

definition form_construct :: "'o form_field list \<Rightarrow> form_inputs \<Rightarrow> (string, 'o held) pdict" where
  "form_construct m vs =
     map (\<lambda>f. (ff_name f,
       case dict_get vs (ff_name f) of Some v \<Rightarrow> Submitted v | None \<Rightarrow> Default (the (ff_default f)))) m"

definition from_form_inputs :: "'o form_field list \<Rightarrow> form_inputs \<Rightarrow> (pyexn, (string, 'o held) pdict) result" where
  "from_form_inputs m ins = map_sum id (form_construct m) (form_values ins m)"

text \<open>\<open>FormFilter.__call__\<close>: dialog actions and App Home submits own form inputs.\<close>

definition event_form_inputs :: "event \<Rightarrow> form_inputs option" where
  "event_form_inputs e =
     (case body e of
        ActionEvent a \<Rightarrow> Some (action_inputs a)
      | FormSubmitEvent f \<Rightarrow> Some (fn_inputs f)
      | _ \<Rightarrow> None)"

definition form_filter ::
    "'o form_field list \<Rightarrow> ((string, 'o held) pdict \<Rightarrow> 'v) \<Rightarrow> ('w, 'v) event_filter" where
  "form_filter m emb e d w =
     (case event_form_inputs e of
        None \<Rightarrow> (w, Inr (FBool False))
      | Some ins \<Rightarrow>
          (case from_form_inputs m ins of
             Inr i \<Rightarrow> (w, Inr (FMapping [(StrKey ''form'', emb i)]))
           | Inl x \<Rightarrow> if issubclass (exn_cls x) (St FormDecodeError) then (w, Inr (FBool False)) else (w, Inl x)))"

section \<open>What decoding means\<close>

text \<open>What is wrong with one field, and what an instance holds for it otherwise.\<close>

definition field_fault :: "form_inputs \<Rightarrow> 'o form_field \<Rightarrow> pyexn option" where
  "field_fault ins f =
     (case unwrap_form_hint (ff_hint f) of
        InputHint c \<Rightarrow>
          (case dict_get ins (ff_name f) of
             None \<Rightarrow> if ff_default f = None then Some (exn (St FormDecodeError)) else None
           | Some v \<Rightarrow> if input_class_of v = c then None else Some (exn (St FormDecodeError)))
      | _ \<Rightarrow> Some (exn (Py TypeErr)))"

definition field_holds :: "form_inputs \<Rightarrow> 'o form_field \<Rightarrow> 'o held" where
  "field_holds ins f =
     (case dict_get ins (ff_name f) of Some v \<Rightarrow> Submitted v | None \<Rightarrow> Default (the (ff_default f)))"

definition present :: "form_inputs \<Rightarrow> 'o form_field list \<Rightarrow> form_inputs" where
  "present ins m = List.map_filter (\<lambda>f. map_option (Pair (ff_name f)) (dict_get ins (ff_name f))) m"

lemma form_values_exact:
  "form_values ins m =
     (case List.map_filter (field_fault ins) m of [] \<Rightarrow> Inr (present ins m) | x # _ \<Rightarrow> Inl x)"
proof (induction m)
  case (Cons f m)
  show ?case
  proof (cases "unwrap_form_hint (ff_hint f)")
    case (InputHint c)
    consider (absent) "dict_get ins (ff_name f) = None" "ff_default f = None"
      | (default) y where "dict_get ins (ff_name f) = None" "ff_default f = Some y"
      | (kept) v where "dict_get ins (ff_name f) = Some v" "input_class_of v = c"
      | (wrong) v where "dict_get ins (ff_name f) = Some v" "input_class_of v \<noteq> c"
      by (cases "dict_get ins (ff_name f)"; cases "ff_default f") blast+
    then show ?thesis
    proof cases
      case absent
      then have "field_fault ins f = Some (exn (St FormDecodeError))" using InputHint by (simp add: field_fault_def)
      then show ?thesis using absent InputHint
        by (simp add: List.map_filter_simps form_error_def form_required_def)
    next
      case default
      then have "field_fault ins f = None" using InputHint by (simp add: field_fault_def)
      then show ?thesis using default InputHint Cons
        by (simp add: List.map_filter_simps form_required_def present_def split: list.split)
    next
      case kept
      then have "field_fault ins f = None" using InputHint by (simp add: field_fault_def)
      then show ?thesis using kept InputHint Cons
        by (simp add: List.map_filter_simps present_def split: list.split)
    next
      case wrong
      then have "field_fault ins f = Some (exn (St FormDecodeError))" using InputHint by (simp add: field_fault_def)
      then show ?thesis using wrong InputHint by (simp add: List.map_filter_simps form_error_def)
    qed
  qed (simp_all add: field_fault_def List.map_filter_simps)
qed (simp add: present_def List.map_filter_simps)

lemma present_get: "f \<in> set m \<Longrightarrow> dict_get (present ins m) (ff_name f) = dict_get ins (ff_name f)"
proof (induction m)
  case (Cons g m)
  show ?case
  proof (cases "ff_name g = ff_name f")
    case True
    show ?thesis
    proof (cases "dict_get ins (ff_name f)")
      case None
      then have "dict_get (present ins n) (ff_name f) = None" for n
        by (induction n) (auto simp: present_def List.map_filter_simps split: option.split)
      then show ?thesis using None by simp
    qed (simp add: True present_def List.map_filter_simps)
  next
    case False
    then show ?thesis using Cons by (auto simp: present_def List.map_filter_simps split: option.split)
  qed
qed simp

lemma from_form_inputs_exact:
  "from_form_inputs m ins =
     (case List.map_filter (field_fault ins) m of
        [] \<Rightarrow> Inr (map (\<lambda>f. (ff_name f, field_holds ins f)) m)
      | x # _ \<Rightarrow> Inl x)"
  by (auto simp: from_form_inputs_def form_values_exact form_construct_def field_holds_def present_get
      split: list.split)

lemma fault_kinds: "field_fault ins f = Some x \<Longrightarrow> x = exn (St FormDecodeError) \<or> x = exn (Py TypeErr)"
  by (auto simp: field_fault_def split: form_hint.splits option.splits if_splits)

lemma type_fault: "field_fault ins f = Some (exn (Py TypeErr)) \<longleftrightarrow> (\<forall>c. unwrap_form_hint (ff_hint f) \<noteq> InputHint c)"
  by (auto simp: field_fault_def exn_def split: form_hint.splits option.splits)

text \<open>The form filter, for any schema and event: it changes nothing and matches exactly when the event owns
  form inputs and no field of the schema is at fault, handing over the submitted values themselves, unchanged,
  and the defaults of the fields that were not submitted. Otherwise the first field at fault decides: a field
  that is missing or of the wrong input class is a mismatch, a declared type that is not an input class is the
  developer's error and is raised.\<close>

theorem form_filter_exact:
  "form_filter m emb e d w =
     (w, case event_form_inputs e of
           None \<Rightarrow> Inr (FBool False)
         | Some ins \<Rightarrow>
             (case find (\<lambda>f. field_fault ins f \<noteq> None) m of
                None \<Rightarrow> Inr (FMapping [(StrKey ''form'', emb (map (\<lambda>f. (ff_name f, field_holds ins f)) m))])
              | Some f \<Rightarrow>
                  if \<exists>c. unwrap_form_hint (ff_hint f) = InputHint c then Inr (FBool False)
                  else Inl (exn (Py TypeErr))))"
proof (cases "event_form_inputs e")
  case (Some ins)
  have hd: "(case List.map_filter (field_fault ins) m of [] \<Rightarrow> None | x # _ \<Rightarrow> Some x) =
      Option.bind (find (\<lambda>f. field_fault ins f \<noteq> None) m) (field_fault ins)"
    by (induction m) (auto simp: List.map_filter_simps)
  show ?thesis
  proof (cases "find (\<lambda>f. field_fault ins f \<noteq> None) m")
    case None
    then have "List.map_filter (field_fault ins) m = []" using hd by (auto split: list.splits)
    then show ?thesis using Some None by (simp add: form_filter_def from_form_inputs_exact)
  next
    fix f assume f: "find (\<lambda>f. field_fault ins f \<noteq> None) m = Some f"
    then obtain x where x: "field_fault ins f = Some x" by (auto simp: find_Some_iff)
    then obtain xs where xs: "List.map_filter (field_fault ins) m = x # xs"
      using hd f by (auto split: list.splits)
    have not: "\<not> issubclass (exn_cls (exn (Py TypeErr))) (St FormDecodeError)" by code_simp
    show ?thesis using Some f xs fault_kinds [OF x] type_fault [of ins f] x not
      by (auto simp: form_filter_def from_form_inputs_exact issubclass_refl exn_def)
  qed
qed (simp add: form_filter_def)

end
