(* ===== verification/Media.thy ===== *)
theory Media
  imports Json Events
begin

text \<open>
  Resource names (\<open>client/_names.py\<close>) and attachments (\<open>media/__init__.py\<close>). The file system is an
  argument: \<open>fs\<close> is what \<open>os.stat\<close> finds at a path, \<open>open_file\<close> the descriptor \<open>os.open\<close> gives, with the
  status of the open file and the blocks its reads return; \<open>guess\<close> is \<open>mimetypes.guess_type\<close>. Bytes are
  strings. One call sees one state of the file system, except that an open file is what its descriptor says.
\<close>

section \<open>Resource names\<close>

definition api_error :: "(pyexn, 'a) result" where
  "api_error = Inl (exn (Api ChatAPIError))"

definition name_of_space :: "space_like \<Rightarrow> string option" where
  "name_of_space s = (case s of SpaceName n \<Rightarrow> Some n | SpaceObj r \<Rightarrow> space_name r)"

definition canonical_space :: "space_like \<Rightarrow> (pyexn, string) result" where
  "canonical_space s =
     (case name_of_space s of
        None \<Rightarrow> api_error
      | Some n \<Rightarrow>
          (let parent = py_strip n
           in if parent = [] then api_error
              else if CHR ''/'' \<in> set parent
                then (if \<not> py_startswith parent ''spaces/'' \<or> count_list parent (CHR ''/'') \<noteq> 1 then api_error
                      else Inr parent)
              else Inr (''spaces/'' @ parent)))"

datatype user_like = UserObj user_ref | UserText string

definition canonical_user :: "user_like \<Rightarrow> (pyexn, string) result" where
  "canonical_user u =
     (case (case u of UserText n \<Rightarrow> Some n | UserObj r \<Rightarrow> user_name r) of
        None \<Rightarrow> api_error
      | Some n \<Rightarrow>
          (let viewer = py_strip n
           in if viewer = [] then api_error
              else if CHR ''/'' \<in> set viewer
                then (if \<not> py_startswith viewer ''users/'' \<or> count_list viewer (CHR ''/'') \<noteq> 1 then api_error
                      else Inr viewer)
              else Inr (''users/'' @ viewer)))"

definition membership_name :: "space_like \<Rightarrow> user_like \<Rightarrow> (pyexn, string) result" where
  "membership_name s u =
     bind_res (canonical_space s) (\<lambda>parent.
       bind_res (canonical_user u) (\<lambda>m. Inr (parent @ ''/members/'' @ py_removeprefix m ''users/'')))"

text \<open>A name the canonicalization answers with: the prefix, one slash, no white space around it.\<close>

definition canonical_form :: "string \<Rightarrow> string \<Rightarrow> bool" where
  "canonical_form p n \<longleftrightarrow> prefix p n \<and> count_list n (CHR ''/'') = 1 \<and> py_strip n = n"

lemma py_strip_self:
  "py_strip s = s \<longleftrightarrow> s = [] \<or> (\<not> is_space_char (hd s) \<and> \<not> is_space_char (last s))"
  using py_strip_ends [of s] py_strip_fixed [of s] by (metis py_strip_Nil)

lemma strip_prefixed:
  assumes "py_strip n = n" "n \<noteq> []" "p \<noteq> []" "\<not> is_space_char (hd p)"
  shows "py_strip (p @ n) = p @ n"
  using assms py_strip_self [of n] py_strip_self [of "p @ n"] by simp

lemma no_slash_count: "CHR ''/'' \<notin> set n \<Longrightarrow> count_list n (CHR ''/'') = 0"
  by (simp add: count_list_0_iff)

text \<open>Both canonicalizations are the same function of the prefix and the name.\<close>

definition canonicalize :: "string \<Rightarrow> string option \<Rightarrow> (pyexn, string) result" where
  "canonicalize p on =
     (case on of
        None \<Rightarrow> api_error
      | Some n \<Rightarrow>
          (let v = py_strip n
           in if v = [] then api_error
              else if CHR ''/'' \<in> set v
                then (if \<not> py_startswith v p \<or> count_list v (CHR ''/'') \<noteq> 1 then api_error else Inr v)
              else Inr (p @ v)))"

definition name_of_user :: "user_like \<Rightarrow> string option" where
  "name_of_user u = (case u of UserText n \<Rightarrow> Some n | UserObj r \<Rightarrow> user_name r)"

lemma canonical_space_eq: "canonical_space s = canonicalize ''spaces/'' (name_of_space s)"
  by (simp add: canonical_space_def canonicalize_def)

lemma canonical_user_eq: "canonical_user u = canonicalize ''users/'' (name_of_user u)"
  by (simp add: canonical_user_def canonicalize_def name_of_user_def)

lemma canonicalize_form:
  assumes "canonicalize p on = Inr v" and "p \<noteq> []" "\<not> is_space_char (hd p)" "count_list p (CHR ''/'') = 1"
  shows "canonical_form p v"
proof -
  obtain n where n: "on = Some n" using assms(1) by (auto simp: canonicalize_def api_error_def split: option.splits)
  have ne: "py_strip n \<noteq> []" using assms(1) n
    by (auto simp: canonicalize_def api_error_def Let_def split: if_splits)
  show ?thesis
  proof (cases "CHR ''/'' \<in> set (py_strip n)")
    case True
    then show ?thesis using assms(1) n ne
      by (auto simp: canonicalize_def api_error_def Let_def canonical_form_def py_startswith_def split: if_splits)
  next
    case False
    have "py_strip (p @ py_strip n) = p @ py_strip n" using ne assms by (intro strip_prefixed) simp_all
    then show ?thesis using assms n ne False no_slash_count [OF False]
      by (auto simp: canonicalize_def Let_def canonical_form_def)
  qed
qed

lemma canonicalize_fixed: "canonical_form p v \<Longrightarrow> canonicalize p (Some v) = Inr v"
proof -
  assume v: "canonical_form p v"
  then have "CHR ''/'' \<in> set v" by (metis canonical_form_def count_notin zero_neq_one)
  then show ?thesis using v by (auto simp: canonicalize_def canonical_form_def Let_def py_startswith_def)
qed

lemma canonicalize_fails: "canonicalize p on = Inl x \<Longrightarrow> x = exn (Api ChatAPIError)"
  by (auto simp: canonicalize_def api_error_def Let_def split: option.splits if_splits)

lemma not_space_s: "\<not> is_space_char (CHR ''s'')" "\<not> is_space_char (CHR ''u'')"
  by (code_simp, code_simp)

lemma canonical_space_form: "canonical_space s = Inr p \<Longrightarrow> canonical_form ''spaces/'' p"
  using canonicalize_form [of "''spaces/''" "name_of_space s" p] not_space_s by (simp add: canonical_space_eq)

lemma canonical_user_form: "canonical_user u = Inr p \<Longrightarrow> canonical_form ''users/'' p"
  using canonicalize_form [of "''users/''" "name_of_user u" p] not_space_s by (simp add: canonical_user_eq)

text \<open>Resource names: the target of every request is a canonical name or the request is refused with
  \<open>ChatAPIError\<close> before anything is sent; canonicalizing a canonical name changes nothing, a bare id and its
  canonical name are the same target, and no target without a name, in particular no private viewer, is
  accepted.\<close>

theorem canonical_names:
  "(case canonical_space s of
      Inl x \<Rightarrow> x = exn (Api ChatAPIError)
    | Inr p \<Rightarrow> canonical_form ''spaces/'' p \<and> canonical_space (SpaceName p) = Inr p) \<and>
   (case canonical_user u of
      Inl x \<Rightarrow> x = exn (Api ChatAPIError)
    | Inr v \<Rightarrow> canonical_form ''users/'' v \<and> canonical_user (UserText v) = Inr v) \<and>
   (if canonical_form ''spaces/'' (''spaces/'' @ n) \<and> py_strip n = n \<and> n \<noteq> []
    then canonical_space (SpaceName n) = canonical_space (SpaceName (''spaces/'' @ n)) else True) \<and>
   canonical_space (SpaceObj \<lparr> space_name = None, space_display_name = a, space_kind = b, space_type = c,
     single_user_bot_dm = d \<rparr>) = api_error \<and>
   canonical_user (UserObj \<lparr> user_name = None, user_display_name = a, user_type = b \<rparr>) = api_error \<and>
   (if py_strip m = [] then canonical_user (UserText m) = api_error else True)"
proof (intro conjI)
  show "case canonical_space s of
      Inl x \<Rightarrow> x = exn (Api ChatAPIError)
    | Inr p \<Rightarrow> canonical_form ''spaces/'' p \<and> canonical_space (SpaceName p) = Inr p"
    using canonical_space_form canonicalize_fixed
    by (auto simp: canonical_space_eq name_of_space_def dest: canonicalize_fails split: sum.split)
  show "case canonical_user u of
      Inl x \<Rightarrow> x = exn (Api ChatAPIError)
    | Inr v \<Rightarrow> canonical_form ''users/'' v \<and> canonical_user (UserText v) = Inr v"
    using canonical_user_form canonicalize_fixed
    by (auto simp: canonical_user_eq name_of_user_def dest: canonicalize_fails split: sum.split)
  have "canonical_space (SpaceName n) = Inr (''spaces/'' @ n)"
    if "canonical_form ''spaces/'' (''spaces/'' @ n)" "py_strip n = n" "n \<noteq> []"
  proof -
    have "CHR ''/'' \<notin> set n" using that(1) by (simp add: canonical_form_def count_list_0_iff)
    then show ?thesis using that by (simp add: canonical_space_eq canonicalize_def name_of_space_def Let_def)
  qed
  then show "if canonical_form ''spaces/'' (''spaces/'' @ n) \<and> py_strip n = n \<and> n \<noteq> []
    then canonical_space (SpaceName n) = canonical_space (SpaceName (''spaces/'' @ n)) else True"
    using canonicalize_fixed [of "''spaces/''" "''spaces/'' @ n"]
    by (simp add: canonical_space_eq name_of_space_def)
qed (simp_all add: canonical_space_eq canonical_user_eq canonicalize_def name_of_space_def name_of_user_def Let_def)

section \<open>Files to upload\<close>

definition max_attachment :: nat where
  "max_attachment = 200 * 1024 * 1024"

record file_stat =
  is_regular :: bool
  byte_size :: nat

record open_file =
  fd_stat :: file_stat
  fd_blocks :: "string list"

record input_file =
  if_filename :: string
  if_content_type :: "string option"
  if_path :: "string option"
  if_data :: "string option"

text \<open>\<open>os.path.splitext(name)[1]\<close> is not empty: a dot after some character that is not a dot.\<close>

definition has_extension :: "string \<Rightarrow> bool" where
  "has_extension n \<longleftrightarrow>
     CHR ''.'' \<in> set n \<and> list_ex (\<lambda>c. c \<noteq> CHR ''.'') (drop (Suc (length (takeWhile (\<lambda>c. c \<noteq> CHR ''.'') (rev n)))) (rev n))"

definition validate_filename :: "string \<Rightarrow> (pyexn, string) result" where
  "validate_filename f =
     (let n = py_strip f
      in if n = [] then Inl (exn (Py ValueErr))
         else if CHR ''/'' \<in> set n \<or> CHR 0x5C \<in> set n then Inl (exn (Py ValueErr))
         else if \<not> has_extension n then Inl (exn (Py ValueErr))
         else Inr n)"

definition guess_content_type :: "(string \<Rightarrow> string option) \<Rightarrow> string \<Rightarrow> string" where
  "guess_content_type guess n =
     (case guess n of Some t \<Rightarrow> if t \<noteq> [] then t else ''application/octet-stream'' | None \<Rightarrow> ''application/octet-stream'')"

text \<open>\<open>a or b\<close> on text that may be \<open>None\<close>.\<close>

definition or_text :: "string option \<Rightarrow> string \<Rightarrow> string" where
  "or_text a b = (case a of Some s \<Rightarrow> if s \<noteq> [] then s else b | None \<Rightarrow> b)"

definition input_file_init :: "input_file \<Rightarrow> (pyexn, input_file) result" where
  "input_file_init f = (if if_path f = None \<and> if_data f = None then Inl (exn (Py ValueErr)) else Inr f)"

definition file_basename :: "string \<Rightarrow> string" where
  "file_basename p = rev (takeWhile (\<lambda>c. c \<noteq> CHR ''/'') (rev p))"

definition input_from_path ::
    "(string \<Rightarrow> file_stat option) \<Rightarrow> (string \<Rightarrow> string option) \<Rightarrow> string \<Rightarrow> string option \<Rightarrow> string option
     \<Rightarrow> (pyexn, input_file) result" where
  "input_from_path fs guess p fname ctype =
     (case fs p of
        None \<Rightarrow> Inl (exn (Py FileNotFoundErr))
      | Some st \<Rightarrow>
          if \<not> is_regular st then Inl (exn (Py ValueErr))
          else if byte_size st > max_attachment then Inl (exn (Py ValueErr))
          else bind_res (validate_filename (or_text fname (file_basename p))) (\<lambda>n.
            input_file_init
              \<lparr> if_filename = n, if_content_type = Some (or_text ctype (guess_content_type guess n)),
                if_path = Some p, if_data = None \<rparr>))"

definition input_from_bytes ::
    "(string \<Rightarrow> string option) \<Rightarrow> string \<Rightarrow> string \<Rightarrow> string option \<Rightarrow> (pyexn, input_file) result" where
  "input_from_bytes guess bytes fname ctype =
     bind_res (validate_filename fname) (\<lambda>n.
       if length bytes > max_attachment then Inl (exn (Py ValueErr))
       else input_file_init
         \<lparr> if_filename = n, if_content_type = Some (or_text ctype (guess_content_type guess n)),
           if_path = None, if_data = Some bytes \<rparr>)"

definition validate_file :: "(string \<Rightarrow> file_stat option) \<Rightarrow> input_file \<Rightarrow> (pyexn, unit) result" where
  "validate_file fs f =
     (case if_data f of
        Some b \<Rightarrow> Inr ()
      | None \<Rightarrow>
          (case fs (the (if_path f)) of
             None \<Rightarrow> Inl (exn (Py FileNotFoundErr))
           | Some st \<Rightarrow>
               if \<not> is_regular st then Inl (exn (Py ValueErr))
               else if byte_size st > max_attachment then Inl (exn (Py ValueErr))
               else Inr ()))"

text \<open>The loop of \<open>read\<close>: it ends with the first empty block.\<close>

fun read_blocks :: "string list \<Rightarrow> string" where
  "read_blocks [] = []"
| "read_blocks (b # bs) = (if b = [] then [] else b @ read_blocks bs)"

definition read_file :: "(string \<Rightarrow> (pyexn, open_file) result) \<Rightarrow> input_file \<Rightarrow> (pyexn, string) result" where
  "read_file open_path f =
     (case if_data f of
        Some b \<Rightarrow> Inr b
      | None \<Rightarrow>
          bind_res (open_path (the (if_path f))) (\<lambda>fd.
            if \<not> is_regular (fd_stat fd) then Inl (exn (Py ValueErr))
            else if byte_size (fd_stat fd) > max_attachment then Inl (exn (Py ValueErr))
            else Inr (read_blocks (fd_blocks fd))))"

text \<open>An open file that nobody extends while it is read.\<close>

definition stable_file :: "open_file \<Rightarrow> bool" where
  "stable_file fd \<longleftrightarrow> length (read_blocks (fd_blocks fd)) \<le> byte_size (fd_stat fd)"

definition good_filename :: "string \<Rightarrow> bool" where
  "good_filename n \<longleftrightarrow> n \<noteq> [] \<and> py_strip n = n \<and> CHR ''/'' \<notin> set n \<and> CHR 0x5C \<notin> set n \<and> has_extension n"

lemma validate_filename_good: "validate_filename f = Inr n \<Longrightarrow> good_filename n"
  by (auto simp: validate_filename_def good_filename_def Let_def split: if_splits)

definition constructed ::
    "(string \<Rightarrow> file_stat option) \<Rightarrow> (string \<Rightarrow> string option) \<Rightarrow> input_file \<Rightarrow> bool" where
  "constructed fs guess f \<longleftrightarrow>
     (\<exists>p n c. input_from_path fs guess p n c = Inr f) \<or> (\<exists>b n c. input_from_bytes guess b n c = Inr f)"

lemma input_file_init_Inr: "input_file_init f = Inr g \<Longrightarrow> g = f"
  by (auto simp: input_file_init_def split: if_splits)

lemma built_from_path:
  assumes "input_from_path fs guess p n c = Inr f"
  shows "good_filename (if_filename f) \<and> if_content_type f \<noteq> None \<and> if_path f = Some p \<and> if_data f = None"
proof -
  obtain m where "validate_filename (or_text n (file_basename p)) = Inr m"
    and "f = \<lparr> if_filename = m, if_content_type = Some (or_text c (guess_content_type guess m)),
      if_path = Some p, if_data = None \<rparr>"
    using assms by (auto simp: input_from_path_def bind_res_Inr_iff dest!: input_file_init_Inr split: option.splits if_splits)
  then show ?thesis using validate_filename_good by auto
qed

lemma built_from_bytes:
  assumes "input_from_bytes guess b n c = Inr f"
  shows "good_filename (if_filename f) \<and> if_content_type f \<noteq> None \<and> if_data f = Some b \<and> length b \<le> max_attachment"
proof -
  obtain m where "validate_filename n = Inr m" "length b \<le> max_attachment"
    and "f = \<lparr> if_filename = m, if_content_type = Some (or_text c (guess_content_type guess m)),
      if_path = None, if_data = Some b \<rparr>"
    using assms by (auto simp: input_from_bytes_def bind_res_Inr_iff dest!: input_file_init_Inr split: if_splits)
  then show ?thesis using validate_filename_good by auto
qed


definition report_file :: input_file where
  "report_file =
     \<lparr> if_filename = ''report.txt'', if_content_type = Some ''text/plain'', if_path = None, if_data = Some ''ok'' \<rparr>"

lemma report_file_built: "input_from_bytes (\<lambda>n. Some ''text/plain'') ''ok'' ''report.txt'' None = Inr report_file"
  by (simp add: input_from_bytes_def validate_filename_def has_extension_def or_text_def guess_content_type_def
      input_file_init_def report_file_def max_attachment_def py_strip_def is_space_char_def Let_def)


section \<open>Attachments\<close>

type_synonym wire_dict = "(pyval \<times> pyval) list"

definition snapshot_dict :: "(pyval \<Rightarrow> string) \<Rightarrow> wire_dict \<Rightarrow> (pyexn, wire_dict) result" where
  "snapshot_dict other d = map_sum id (\<lambda>v. case v of PDict e \<Rightarrow> e | _ \<Rightarrow> []) (deep_snapshot other (PDict d))"

definition snapshot_opt :: "(pyval \<Rightarrow> string) \<Rightarrow> wire_dict option \<Rightarrow> (pyexn, wire_dict option) result" where
  "snapshot_opt other od = (case od of None \<Rightarrow> Inr None | Some d \<Rightarrow> map_sum id Some (snapshot_dict other d))"

record uploaded_attachment =
  ua_space :: string
  ua_filename :: string
  ua_data_ref :: wire_dict
  ua_raw :: "wire_dict option"

definition uploaded_init :: "(pyval \<Rightarrow> string) \<Rightarrow> uploaded_attachment \<Rightarrow> (pyexn, uploaded_attachment) result" where
  "uploaded_init other u =
     bind_res (snapshot_dict other (ua_data_ref u)) (\<lambda>d.
       bind_res (snapshot_opt other (ua_raw u)) (\<lambda>r. Inr (u\<lparr> ua_data_ref := d, ua_raw := r \<rparr>)))"

datatype attachment_source = UPLOADED_CONTENT | DRIVE_FILE

record attachment_ref =
  ar_name :: "string option"
  ar_content_name :: "string option"
  ar_content_type :: "string option"
  ar_source :: "attachment_source option"
  ar_data_ref :: "wire_dict option"
  ar_drive_file :: "string option"
  ar_thumbnail :: "string option"
  ar_download :: "string option"
  ar_raw :: wire_dict

definition attachment_ref_init :: "(pyval \<Rightarrow> string) \<Rightarrow> attachment_ref \<Rightarrow> (pyexn, attachment_ref) result" where
  "attachment_ref_init other a =
     bind_res (snapshot_opt other (ar_data_ref a)) (\<lambda>d.
       bind_res (snapshot_dict other (ar_raw a)) (\<lambda>r. Inr (a\<lparr> ar_data_ref := d, ar_raw := r \<rparr>)))"

definition ref_text :: "wire_dict \<Rightarrow> string \<Rightarrow> string option" where
  "ref_text d k = (case obj_get d k of PStr s \<Rightarrow> Some s | _ \<Rightarrow> None)"

definition is_drive :: "attachment_ref \<Rightarrow> bool" where
  "is_drive a \<longleftrightarrow> ar_source a = Some DRIVE_FILE"

definition is_uploaded :: "attachment_ref \<Rightarrow> bool" where
  "is_uploaded a \<longleftrightarrow> ar_source a = Some UPLOADED_CONTENT"

definition resource_name :: "attachment_ref \<Rightarrow> string option" where
  "resource_name a =
     (case ar_data_ref a of
        None \<Rightarrow> None
      | Some d \<Rightarrow>
          (case ref_text d ''resourceName'' of
             Some s \<Rightarrow> if s \<noteq> [] then Some s else ref_text d ''resource_name''
           | None \<Rightarrow> ref_text d ''resource_name''))"

definition attachment_of_mapping :: "(pyval \<Rightarrow> string) \<Rightarrow> wire_dict \<Rightarrow> (pyexn, attachment_ref) result" where
  "attachment_of_mapping other d =
     (let data = (case obj_get d ''attachmentDataRef'' of PDict e \<Rightarrow> Some e | _ \<Rightarrow> None);
          drive = (case obj_get d ''driveDataRef'' of PDict e \<Rightarrow> Some e | _ \<Rightarrow> None);
          (src, file) =
            (case data of
               Some e \<Rightarrow> (Some UPLOADED_CONTENT, None)
             | None \<Rightarrow> (case drive of Some e \<Rightarrow> (Some DRIVE_FILE, ref_text e ''driveFileId'') | None \<Rightarrow> (None, None)))
      in attachment_ref_init other
           \<lparr> ar_name = ref_text d ''name'', ar_content_name = ref_text d ''contentName'',
             ar_content_type = ref_text d ''contentType'', ar_source = src, ar_data_ref = data,
             ar_drive_file = file, ar_thumbnail = ref_text d ''thumbnailUri'',
             ar_download = ref_text d ''downloadUri'', ar_raw = d \<rparr>)"

text \<open>\<open>AttachmentRef.from_proto\<close>: what the code reads of the SDK message; text fields are empty when unset.\<close>

record attachment_proto =
  ap_name :: string
  ap_content_name :: string
  ap_content_type :: string
  ap_data_ref :: "(string \<times> string) option"
  ap_drive_ref :: "string option"
  ap_thumbnail :: string
  ap_download :: string

definition nonempty :: "string \<Rightarrow> string option" where
  "nonempty s = (if s \<noteq> [] then Some s else None)"

definition attachment_of_proto :: "(pyval \<Rightarrow> string) \<Rightarrow> attachment_proto \<Rightarrow> (pyexn, attachment_ref) result" where
  "attachment_of_proto other p =
     attachment_ref_init other
       \<lparr> ar_name = nonempty (ap_name p), ar_content_name = nonempty (ap_content_name p),
         ar_content_type = nonempty (ap_content_type p),
         ar_source = (if ap_drive_ref p \<noteq> None then Some DRIVE_FILE
                      else if ap_data_ref p \<noteq> None then Some UPLOADED_CONTENT else None),
         ar_data_ref = map_option (\<lambda>(r, tok).
           [(PStr ''resourceName'', PStr r), (PStr ''attachmentUploadToken'', PStr tok)]) (ap_data_ref p),
         ar_drive_file = ap_drive_ref p, ar_thumbnail = nonempty (ap_thumbnail p),
         ar_download = nonempty (ap_download p), ar_raw = [] \<rparr>"

text \<open>The wire mapping of an SDK message: unset text fields are left out.\<close>

definition text_item :: "string \<Rightarrow> string \<Rightarrow> wire_dict" where
  "text_item k s = (if s = [] then [] else [(PStr k, PStr s)])"

definition wire_of_proto :: "attachment_proto \<Rightarrow> wire_dict" where
  "wire_of_proto p =
     text_item ''name'' (ap_name p) @ text_item ''contentName'' (ap_content_name p) @
     text_item ''contentType'' (ap_content_type p) @
     (case ap_data_ref p of None \<Rightarrow> [] | Some (r, tok) \<Rightarrow>
        [(PStr ''attachmentDataRef'', PDict [(PStr ''resourceName'', PStr r), (PStr ''attachmentUploadToken'', PStr tok)])]) @
     (case ap_drive_ref p of None \<Rightarrow> [] | Some f \<Rightarrow> [(PStr ''driveDataRef'', PDict [(PStr ''driveFileId'', PStr f)])]) @
     text_item ''thumbnailUri'' (ap_thumbnail p) @ text_item ''downloadUri'' (ap_download p)"

lemma obj_get_item [simp]: "obj_get (text_item j s @ d) k = (if j = k \<and> s \<noteq> [] then PStr s else obj_get d k)"
  by (auto simp: text_item_def obj_get_def)

lemma obj_get_step [simp]:
  "obj_get ((PStr j, v) # d) k = (if j = k then v else obj_get d k)" "obj_get [] k = PNone"
  by (simp_all add: obj_get_def)

lemma obj_get_last [simp]: "obj_get (text_item j s) k = (if j = k \<and> s \<noteq> [] then PStr s else PNone)"
  using obj_get_item [of j s "[]" k] by simp

lemma snapshot_dict_json: "is_json (PDict d) \<Longrightarrow> snapshot_dict other d = Inr d"
  using deep_snapshot_fixed [of "PDict d" other] by (simp add: snapshot_dict_def)

lemma text_item_keys:
  "fst ` set (text_item j s) \<inter> A = {} \<longleftrightarrow> s = [] \<or> PStr j \<notin> A"
  "k \<in> fst ` set (text_item j s) \<longleftrightarrow> s \<noteq> [] \<and> k = PStr j"
  "distinct (map fst (text_item j s))"
  "list_all (\<lambda>(k, v). (\<exists>s. k = PStr s) \<and> is_json v) (text_item j s)"
  by (auto simp: text_item_def)

lemma wire_of_proto_json: "is_json (PDict (wire_of_proto p))"
  by (cases "ap_data_ref p"; cases "ap_drive_ref p")
    (simp_all add: wire_of_proto_def dict_ok_def text_item_keys image_Un case_prod_beta del: split_paired_All split: prod.split)

text \<open>The two views of an inbound attachment agree: for an SDK message that references uploaded content or a
  Drive file but not both, reading the message and reading its wire mapping give the same reference, apart from
  the mapping kept beside it; it is never both uploaded and on Drive, and only uploaded content has a handle to
  download.\<close>

theorem attachment_views_agree:
  assumes "ap_data_ref p = None \<or> ap_drive_ref p = None"
  shows "\<exists>a b. attachment_of_proto other p = Inr a \<and> attachment_of_mapping other (wire_of_proto p) = Inr b \<and>
    b = a\<lparr> ar_raw := wire_of_proto p \<rparr> \<and> \<not> (is_drive a \<and> is_uploaded a) \<and>
    (resource_name a = None \<or> is_uploaded a)"
proof -
  let ?d = "map_option (\<lambda>(r, tok). [(PStr ''resourceName'', PStr r), (PStr ''attachmentUploadToken'', PStr tok)]) (ap_data_ref p)"
  have snap: "snapshot_opt other ?d = Inr ?d"
    by (auto simp: snapshot_opt_def snapshot_dict_json dict_ok_def split: option.split)
  have whole: "snapshot_dict other (wire_of_proto p) = Inr (wire_of_proto p)"
    by (rule snapshot_dict_json [OF wire_of_proto_json])
  have none: "snapshot_dict other [] = Inr []" by (rule snapshot_dict_json) (simp add: dict_ok_def)
  let ?a = "\<lparr> ar_name = nonempty (ap_name p), ar_content_name = nonempty (ap_content_name p),
    ar_content_type = nonempty (ap_content_type p),
    ar_source = (if ap_drive_ref p \<noteq> None then Some DRIVE_FILE
                 else if ap_data_ref p \<noteq> None then Some UPLOADED_CONTENT else None),
    ar_data_ref = ?d, ar_drive_file = ap_drive_ref p, ar_thumbnail = nonempty (ap_thumbnail p),
    ar_download = nonempty (ap_download p), ar_raw = [] \<rparr>"
  have a: "attachment_of_proto other p = Inr ?a"
    by (simp add: attachment_of_proto_def attachment_ref_init_def snap none)
  have get: "obj_get (wire_of_proto p) ''attachmentDataRef'' = (case ?d of None \<Rightarrow> PNone | Some d \<Rightarrow> PDict d)"
    "obj_get (wire_of_proto p) ''driveDataRef'' =
      (case ap_drive_ref p of None \<Rightarrow> PNone | Some f \<Rightarrow> PDict [(PStr ''driveFileId'', PStr f)])"
    by (auto simp: wire_of_proto_def split: option.split prod.split)
  have texts: "ref_text (wire_of_proto p) ''name'' = nonempty (ap_name p)"
    "ref_text (wire_of_proto p) ''contentName'' = nonempty (ap_content_name p)"
    "ref_text (wire_of_proto p) ''contentType'' = nonempty (ap_content_type p)"
    "ref_text (wire_of_proto p) ''thumbnailUri'' = nonempty (ap_thumbnail p)"
    "ref_text (wire_of_proto p) ''downloadUri'' = nonempty (ap_download p)"
    by (auto simp: ref_text_def wire_of_proto_def nonempty_def split: option.split prod.split)
  have drv: "ref_text [(PStr ''driveFileId'', PStr f)] ''driveFileId'' = Some f" for f by (simp add: ref_text_def)
  have b: "attachment_of_mapping other (wire_of_proto p) = Inr (?a\<lparr> ar_raw := wire_of_proto p \<rparr>)"
  proof (cases "ap_data_ref p")
    case None
    then show ?thesis
      by (cases "ap_drive_ref p")
        (simp_all add: attachment_of_mapping_def attachment_ref_init_def get texts whole snapshot_opt_def drv)
  next
    case (Some d)
    then show ?thesis using assms snap
      by (cases d) (simp add: attachment_of_mapping_def attachment_ref_init_def get texts whole)
  qed
  show ?thesis using a b assms
    by (cases "ap_data_ref p") (auto simp: is_drive_def is_uploaded_def resource_name_def ref_text_def split: if_splits)
qed

definition text_upload :: attachment_proto where
  "text_upload =
     \<lparr> ap_name = ''a'', ap_content_name = [], ap_content_type = ''text/plain'', ap_data_ref = Some (''r'', ''t''),
       ap_drive_ref = None, ap_thumbnail = [], ap_download = [] \<rparr>"

lemma attachment_views_agree_witness:
  "\<exists>a. attachment_of_proto other text_upload = Inr a \<and> (resource_name a = None \<or> is_uploaded a)"
  using attachment_views_agree [of text_upload other] by (auto simp: text_upload_def)

end
