(* ===== verification/MediaRest.thy ===== *)
theory MediaRest
  imports Effects Values
begin

text \<open>
  The media calls over REST (\<open>media/_rest.py\<close>): the lazy import of the optional extra, the service, the upload and the
  download with its loop over the chunks. The client library is a parameter; the loop has fuel, and a download whose
  last chunk is the k-th needs k of it.
\<close>

section \<open>The extra and the service\<close>

text \<open>What importing a module gives: the module, or an \<open>ImportError\<close> with the name it says is missing.\<close>

datatype import_outcome = Imported | Missing "string option"

record ('w, 'c) media_library =
  ml_import :: "string \<Rightarrow> import_outcome"
  ml_build :: "'c \<Rightarrow> rat option \<Rightarrow> 'w \<Rightarrow> 'w \<times> (pyexn, nat) result"
  ml_upload :: "nat \<Rightarrow> string \<Rightarrow> string \<Rightarrow> string \<Rightarrow> string \<Rightarrow> 'w \<Rightarrow> 'w \<times> (pyexn, pyval) result"
  ml_request :: "nat \<Rightarrow> string \<Rightarrow> 'w \<Rightarrow> 'w \<times> (pyexn, unit) result"
  ml_chunk :: "'w \<Rightarrow> 'w \<times> (pyexn, string \<times> bool) result"

datatype media_event =
    Built | Build_failed exn_class | Uploaded | Upload_failed exn_class | Opened | Open_failed exn_class
  | Chunk string bool | Chunk_failed exn_class

type_synonym ('w, 'a) media_io = "(media_event, unit, 'w, unit, 'a) io"

definition first_component :: "string \<Rightarrow> string" where
  "first_component m = takeWhile (\<lambda>c. c \<noteq> CHR ''.'') m"

definition import_extra :: "('w, 'c) media_library \<Rightarrow> string \<Rightarrow> ('w, unit) media_io" where
  "import_extra ml m =
     (case ml_import ml m of
        Imported \<Rightarrow> ret ()
      | Missing (Some n) \<Rightarrow>
          if n \<noteq> m \<and> n \<noteq> first_component m then throw (exn (Py (AppException ''ImportError'')))
          else throw (exn (Api ChatAPIError))
      | Missing None \<Rightarrow> throw (exn (Api ChatAPIError)))"

definition media_service :: "('w, 'c) media_library \<Rightarrow> 'c \<Rightarrow> rat option \<Rightarrow> ('w, nat) media_io" where
  "media_service ml c timeout =
     then_io (import_extra ml ''googleapiclient.discovery'')
       (then_io
          (case timeout of
             None \<Rightarrow> ret ()
           | Some t \<Rightarrow> then_io (import_extra ml ''httplib2'') (import_extra ml ''google_auth_httplib2''))
          (world_call (\<lambda>n. Built) Build_failed (ml_build ml c timeout)))"

text \<open>\<open>_wrap_media_error\<close>: every \<open>Exception\<close> of the request becomes a \<open>ChatAPIError\<close>.\<close>

definition wrapped :: "('w, 'a) media_io \<Rightarrow> ('w, 'a) media_io" where
  "wrapped m = catch_io m (\<lambda>x. if is_exception (exn_cls x) then throw (exn (Api ChatAPIError)) else throw x)"

definition import_request_modules :: "('w, 'c) media_library \<Rightarrow> ('w, unit) media_io" where
  "import_request_modules ml =
     then_io (import_extra ml ''googleapiclient.errors'') (import_extra ml ''googleapiclient.http'')"

section \<open>Upload and download\<close>

definition upload_media ::
    "('w, 'c) media_library \<Rightarrow> 'c \<Rightarrow> string \<Rightarrow> string \<Rightarrow> string option \<Rightarrow> string \<Rightarrow> rat option \<Rightarrow> ('w, pyval) media_io" where
  "upload_media ml c parent name content_type bytes timeout =
     bind_io (media_service ml c timeout) (\<lambda>n.
       then_io (import_request_modules ml)
         (wrapped (world_call (\<lambda>v. Uploaded) Upload_failed
            (ml_upload ml n parent name
               (case content_type of Some t \<Rightarrow> if t = [] then ''application/octet-stream'' else t
                | None \<Rightarrow> ''application/octet-stream'') bytes))))"

text \<open>\<open>while not done\<close>; \<open>None\<close> when the fuel ran out.\<close>

fun read_chunks :: "('w, 'c) media_library \<Rightarrow> nat \<Rightarrow> string \<Rightarrow> ('w, string option) media_io" where
  "read_chunks ml 0 buffer = ret None"
| "read_chunks ml (Suc fuel) buffer =
     bind_io (world_call (\<lambda>(b, fin). Chunk b fin) Chunk_failed (ml_chunk ml)) (\<lambda>(b, fin).
       if fin then ret (Some (buffer @ b)) else read_chunks ml fuel (buffer @ b))"

definition download_media ::
    "('w, 'c) media_library \<Rightarrow> 'c \<Rightarrow> string \<Rightarrow> rat option \<Rightarrow> nat \<Rightarrow> ('w, string option) media_io" where
  "download_media ml c name timeout fuel =
     bind_io (media_service ml c timeout) (\<lambda>n.
       then_io (import_request_modules ml)
         (wrapped
            (then_io (world_call (\<lambda>u. Opened) Open_failed (ml_request ml n name)) (read_chunks ml fuel []))))"

section \<open>What a download returns\<close>

fun chunks_of :: "media_event list \<Rightarrow> string" where
  "chunks_of [] = []"
| "chunks_of (Chunk b fin # es) = b @ chunks_of es"
| "chunks_of (e # es) = chunks_of es"

text \<open>The trace of the loop: chunks, of which only the last says it is, or a failure after some.\<close>

definition chunk_run :: "nat \<Rightarrow> string \<Rightarrow> media_event list \<Rightarrow> (pyexn, string option) result \<Rightarrow> bool" where
  "chunk_run fuel buffer t r \<longleftrightarrow>
     (case r of
        Inr (Some b) \<Rightarrow> \<exists>cs c. t = map (\<lambda>x. Chunk x False) cs @ [Chunk c True] \<and> b = buffer @ concat cs @ c
      | Inr None \<Rightarrow> \<exists>cs. t = map (\<lambda>x. Chunk x False) cs \<and> length cs = fuel
      | Inl x \<Rightarrow> \<exists>cs. t = map (\<lambda>x. Chunk x False) cs @ [Chunk_failed (exn_cls x)])"

lemma chunk_run_more:
  assumes "chunk_run fuel (buffer @ b) t r"
  shows "chunk_run (Suc fuel) buffer (Chunk b False # t) r"
proof (cases r)
  case (Inl x)
  then obtain cs where "t = map (\<lambda>x. Chunk x False) cs @ [Chunk_failed (exn_cls x)]" using assms by (auto simp: chunk_run_def)
  then show ?thesis using Inl by (auto simp: chunk_run_def intro!: exI [of _ "b # cs"])
next
  case (Inr o1)
  show ?thesis
  proof (cases o1)
    case None
    then obtain cs where "t = map (\<lambda>x. Chunk x False) cs" "length cs = fuel" using assms Inr by (auto simp: chunk_run_def)
    then show ?thesis using Inr None by (auto simp: chunk_run_def intro!: exI [of _ "b # cs"])
  next
    case (Some v)
    then obtain cs c where "t = map (\<lambda>x. Chunk x False) cs @ [Chunk c True]" "v = buffer @ b @ concat cs @ c"
      using assms Inr by (auto simp: chunk_run_def)
    then show ?thesis using Inr Some by (auto simp: chunk_run_def intro!: exI [of _ "b # cs"])
  qed
qed

lemma read_chunks_run: "read_chunks ml fuel buffer s = (s', r) \<Longrightarrow> \<exists>t. rs_trace s' = rs_trace s @ t \<and> chunk_run fuel buffer t r"
proof (induction fuel arbitrary: buffer s)
  case 0
  then show ?case by (auto simp: ret_def chunk_run_def)
next
  case (Suc fuel)
  obtain w q where c: "ml_chunk ml (rs_world s) = (w, q)" by (cases "ml_chunk ml (rs_world s)")
  show ?case
  proof (cases q)
    case (Inl x)
    then have "s' = s\<lparr> rs_world := w, rs_trace := rs_trace s @ [Chunk_failed (exn_cls x)] \<rparr>" "r = Inl x"
      using Suc.prems c by (auto simp: bind_io_def world_call_def)
    then show ?thesis by (simp add: chunk_run_def)
  next
    case (Inr v)
    obtain b fin where v: "v = (b, fin)" by (cases v)
    let ?s = "s\<lparr> rs_world := w, rs_trace := rs_trace s @ [Chunk b fin] \<rparr>"
    show ?thesis
    proof (cases fin)
      case True
      then have "s' = ?s" "r = Inr (Some (buffer @ b))"
        using Suc.prems c Inr v by (auto simp: bind_io_def world_call_def ret_def)
      then show ?thesis using True by (auto simp: chunk_run_def intro!: exI [of _ "[]"])
    next
      case False
      then have "read_chunks ml fuel (buffer @ b) ?s = (s', r)"
        using Suc.prems c Inr v by (simp add: bind_io_def world_call_def)
      from Suc.IH [OF this] obtain t where "rs_trace s' = rs_trace ?s @ t" "chunk_run fuel (buffer @ b) t r" by blast
      then show ?thesis using chunk_run_more False by auto
    qed
  qed
qed

lemma chunks_of_run: "chunks_of (map (\<lambda>x. Chunk x False) cs @ es) = concat cs @ chunks_of es"
  by (induction cs) simp_all

lemma wrapped_run:
  assumes "wrapped m s = (s', r)" and "m s = (s1, q)"
  shows "s' = s1 \<and> (case q of
      Inr v \<Rightarrow> r = Inr v
    | Inl x \<Rightarrow> if is_exception (exn_cls x) then r = Inl (exn (Api ChatAPIError)) else r = Inl x)"
  using assms by (cases q) (auto simp: wrapped_def catch_io_def throw_def)

text \<open>What comes before the request: nothing but the service, or a failure of it.\<close>

definition prepared :: "media_event list \<Rightarrow> bool" where
  "prepared t \<longleftrightarrow> t = [] \<or> t = [Built] \<or> (\<exists>c. t = [Build_failed c])"

lemma import_silent: "fst (import_extra ml m s) = s"
  by (simp add: import_extra_def ret_def throw_def split: import_outcome.split option.split)

lemma service_prepared: "\<exists>t. rs_trace (fst (media_service ml c timeout s)) = rs_trace s @ t \<and> prepared t"
proof -
  have p: "then_io (import_extra ml a) n s = (case snd (import_extra ml a s) of Inl x \<Rightarrow> (s, Inl x) | Inr u \<Rightarrow> n s)"
    for a and n :: "('a, 'd) media_io"
    using import_silent [of ml a s] by (cases "import_extra ml a s") (simp add: then_io_def bind_io_def)
  have b: "\<exists>t. rs_trace (fst (world_call (\<lambda>n. Built) Build_failed (ml_build ml c timeout) s)) = rs_trace s @ t \<and> prepared t"
    by (auto simp: world_call_def prepared_def split: prod.split sum.split)
  have n: "\<exists>t. rs_trace (fst (then_io m k s)) = rs_trace s @ t \<and> prepared t"
    if "fst (m s) = s" "\<exists>t. rs_trace (fst (k s)) = rs_trace s @ t \<and> prepared t" for m :: "('a, unit) media_io" and k :: "('a, nat) media_io"
    using that by (cases "m s"; cases "snd (m s)") (auto simp: then_io_def bind_io_def prepared_def)
  show ?thesis unfolding media_service_def
  proof (intro n import_silent b)
    show "fst ((case timeout of None \<Rightarrow> ret ()
        | Some t \<Rightarrow> then_io (import_extra ml ''httplib2'') (import_extra ml ''google_auth_httplib2'')) s) = s"
      using p [of "''httplib2''" "import_extra ml ''google_auth_httplib2''"] import_silent
      by (auto simp: ret_def split: option.split sum.split)
  qed
qed

text \<open>The download: what it returns, and how it fails.\<close>

definition downloaded :: "nat \<Rightarrow> media_event list \<Rightarrow> (pyexn, string option) result \<Rightarrow> bool" where
  "downloaded fuel t r \<longleftrightarrow>
     (case r of
        Inr (Some b) \<Rightarrow> \<exists>cs c. t = Built # Opened # map (\<lambda>x. Chunk x False) cs @ [Chunk c True] \<and> b = concat cs @ c
      | Inr None \<Rightarrow> \<exists>cs. t = Built # Opened # map (\<lambda>x. Chunk x False) cs \<and> length cs = fuel
      | Inl x \<Rightarrow> prepared t \<or> exn_cls x = Api ChatAPIError \<or> \<not> is_exception (exn_cls x))"

lemma opened_run:
  assumes "then_io (world_call (\<lambda>u. Opened) Open_failed (ml_request ml n name)) (read_chunks ml fuel []) s = (s', r)"
  shows "\<exists>t. rs_trace s' = rs_trace s @ t \<and>
    (case r of Inl x \<Rightarrow> True | Inr v \<Rightarrow> \<exists>t2. t = Opened # t2 \<and> chunk_run fuel [] t2 r)"
proof -
  obtain w q where c: "ml_request ml n name (rs_world s) = (w, q)" by (cases "ml_request ml n name (rs_world s)")
  show ?thesis
  proof (cases q)
    case (Inl x)
    then show ?thesis using assms c by (auto simp: then_io_def bind_io_def world_call_def)
  next
    case (Inr u)
    let ?s = "s\<lparr> rs_world := w, rs_trace := rs_trace s @ [Opened] \<rparr>"
    have "read_chunks ml fuel [] ?s = (s', r)" using assms c Inr by (simp add: then_io_def bind_io_def world_call_def)
    from read_chunks_run [OF this] obtain t where "rs_trace s' = rs_trace s @ Opened # t" "chunk_run fuel [] t r" by auto
    then show ?thesis by (cases r) auto
  qed
qed

lemma then_import:
  "then_io (import_request_modules ml) m s =
     (case snd (import_request_modules ml s) of Inl x \<Rightarrow> (s, Inl x) | Inr u \<Rightarrow> m s)"
proof -
  have "fst (import_request_modules ml s) = s"
    using import_silent [of ml "''googleapiclient.errors''" s] import_silent [of ml "''googleapiclient.http''" s]
    by (cases "import_extra ml ''googleapiclient.errors'' s"; cases "snd (import_extra ml ''googleapiclient.errors'' s)")
      (auto simp: import_request_modules_def then_io_def bind_io_def)
  then show ?thesis by (cases "import_request_modules ml s") (simp add: then_io_def bind_io_def)
qed

lemma service_built:
  assumes "media_service ml c timeout s = (s1, Inr n)"
  shows "rs_trace s1 = rs_trace s @ [Built]"
proof -
  have "(case media_service ml c timeout s of (s1, Inr n) \<Rightarrow> rs_trace s1 = rs_trace s @ [Built] | _ \<Rightarrow> True)"
    using import_silent [of ml "''googleapiclient.discovery''" s] import_silent [of ml "''httplib2''" s]
      import_silent [of ml "''google_auth_httplib2''" s]
    by (auto simp: media_service_def then_io_def bind_io_def ret_def world_call_def split: prod.splits sum.splits option.splits)
  then show ?thesis using assms by simp
qed

text \<open>
  A download that returns gives the chunks of the service in order, up to the first that says it is the last, and
  asked for no more; it runs out of fuel only when that many chunks were not the last, so fuel for one more chunk
  than that is enough. Every \<open>Exception\<close> of the request or of a chunk is a \<open>ChatAPIError\<close>, after the service was
  built; what fails before is raised as it is.\<close>

theorem download_complete:
  "case download_media ml c name timeout fuel s of (s', r) \<Rightarrow>
     \<exists>t. rs_trace s' = rs_trace s @ t \<and> downloaded fuel t r"
proof -
  obtain s1 q where sv: "media_service ml c timeout s = (s1, q)" by (cases "media_service ml c timeout s")
  then obtain t1 where t1: "rs_trace s1 = rs_trace s @ t1" "prepared t1"
    using service_prepared [of ml c timeout s] by auto
  show ?thesis
  proof (cases q)
    case (Inl x)
    then show ?thesis using sv t1 by (auto simp: download_media_def bind_io_def downloaded_def)
  next
    case (Inr n)
    let ?m = "then_io (world_call (\<lambda>u. Opened) Open_failed (ml_request ml n name)) (read_chunks ml fuel [])"
    have b: "rs_trace s1 = rs_trace s @ [Built]" using service_built sv unfolding Inr by metis
    have run: "download_media ml c name timeout fuel s =
        (case snd (import_request_modules ml s1) of Inl x \<Rightarrow> (s1, Inl x) | Inr u \<Rightarrow> wrapped ?m s1)"
      using sv Inr by (simp add: download_media_def bind_io_def then_import)
    show ?thesis
    proof (cases "snd (import_request_modules ml s1)")
      case (Inl x)
      then show ?thesis using run t1 by (auto simp: downloaded_def)
    next
      case (Inr u)
      obtain s2 r2 where m: "?m s1 = (s2, r2)" by (cases "?m s1")
      obtain s3 r3 where w: "wrapped ?m s1 = (s3, r3)" by (cases "wrapped ?m s1")
      note res = wrapped_run [OF w m]
      obtain t where t: "rs_trace s2 = rs_trace s1 @ t"
          "case r2 of Inl x \<Rightarrow> True | Inr v \<Rightarrow> \<exists>t2. t = Opened # t2 \<and> chunk_run fuel [] t2 r2"
        using opened_run [OF m] by blast
      have "downloaded fuel (Built # t) r3"
      proof (cases r2)
        case (Inl x)
        then show ?thesis using res by (cases "is_exception (exn_cls x)") (auto simp: downloaded_def)
      next
        case (Inr v)
        then show ?thesis using res t(2) by (cases v) (auto simp: downloaded_def chunk_run_def)
      qed
      then show ?thesis using run Inr w res t(1) b by auto
    qed
  qed
qed

end
