(* ===== verification/Cards.thy ===== *)
theory Cards
  imports Actions Media
begin

text \<open>
  Cards (\<open>cards/\<close>): the facade objects with what their constructors refuse, the arguments they hand to the SDK
  classes, and the way back from SDK messages and from Cards v2 JSON. The SDK is not part of the program:
  \<open>urlp\<close> is \<open>urlparse\<close>, \<open>guess\<close> is \<open>mimetypes.guess_type\<close>, \<open>parse_widget\<close> and \<open>parse_card\<close> are its JSON
  parsers, and an SDK message is what the code reads of it.
\<close>

section \<open>Actions and links\<close>

record card_action =
  ca_function :: "string option"
  ca_params :: "(string, string) pdict"
  ca_interaction :: "string option"

record open_link =
  ol_url :: string
  ol_open_as :: pyval

datatype click = ActionClick card_action | LinkClick open_link

definition kwargs :: "(string \<times> pyval) list \<Rightarrow> pyval" where
  "kwargs ps = PDict (map (\<lambda>(k, v). (PStr k, v)) ps)"

definition opt_kw :: "string \<Rightarrow> pyval option \<Rightarrow> (string \<times> pyval) list" where
  "opt_kw k ov = (case ov of None \<Rightarrow> [] | Some v \<Rightarrow> [(k, v)])"

definition opt_str :: "string \<Rightarrow> string option \<Rightarrow> (string \<times> pyval) list" where
  "opt_str k os = opt_kw k (map_option PStr os)"

definition opt_int :: "string \<Rightarrow> int option \<Rightarrow> (string \<times> pyval) list" where
  "opt_int k oi = opt_kw k (map_option PInt oi)"

definition param_items :: "(string, string) pdict \<Rightarrow> pyval" where
  "param_items ps = PList (map (\<lambda>(k, v). kwargs [(''key'', PStr k), (''value'', PStr v)]) ps)"

definition action_kwargs :: "card_action \<Rightarrow> pyval" where
  "action_kwargs a =
     kwargs (opt_str ''function'' (ca_function a) @ [(''parameters'', param_items (ca_params a))] @
       opt_str ''interaction'' (ca_interaction a))"

definition link_kwargs :: "open_link \<Rightarrow> pyval" where
  "link_kwargs l =
     kwargs ([(''url'', PStr (ol_url l))] @ (if ol_open_as l = PNone then [] else [(''open_as'', ol_open_as l)]))"

section \<open>Local pictures\<close>

fun split_on :: "char \<Rightarrow> string \<Rightarrow> string list" where
  "split_on c [] = [[]]"
| "split_on c (x # xs) =
     (if x = c then [] # split_on c xs
      else (case split_on c xs of p # ps \<Rightarrow> (x # p) # ps | [] \<Rightarrow> [[x]]))"

text \<open>\<open>PurePosixPath(value).name\<close>.\<close>

definition path_name :: "string \<Rightarrow> string" where
  "path_name v =
     (let parts = filter (\<lambda>p. p \<noteq> [] \<and> p \<noteq> ''.'') (split_on (CHR ''/'') v)
      in if parts = [] then [] else last parts)"

definition image_filename :: "string \<Rightarrow> (pyexn, string) result" where
  "image_filename v =
     (if v = [] \<or> v = ''.'' \<or> v = ''..'' \<or> path_name v \<noteq> v \<or> CHR 0x5C \<in> set v then Inl (exn (Py ValueErr))
      else Inr v)"

definition supported_types :: "string list" where
  "supported_types = [''image/jpeg'', ''image/png'']"

definition image_content_type ::
    "(string \<Rightarrow> string option) \<Rightarrow> string \<Rightarrow> string option \<Rightarrow> (pyexn, string) result" where
  "image_content_type guess fname explicit =
     (case (case explicit of Some (c # cs) \<Rightarrow> Some (c # cs) | _ \<Rightarrow> guess fname) of
        None \<Rightarrow> Inl (exn (Py ValueErr))
      | Some t \<Rightarrow>
          (let ct = py_strip (py_lower t)
           in if ct \<in> set supported_types then Inr ct else Inl (exn (Py ValueErr))))"

definition image_namespace :: "string option \<Rightarrow> (pyexn, string option) result" where
  "image_namespace ns =
     (case ns of
        None \<Rightarrow> Inr None
      | Some v \<Rightarrow>
          if v = [] \<or> py_strip v \<noteq> v \<or> CHR ''/'' \<in> set v \<or> CHR 0x5C \<in> set v then Inl (exn (Py ValueErr))
          else Inr (Some v))"

record source_info =
  si_filename :: string
  si_content_type :: string
  si_namespace :: "string option"

datatype local_source = PathSource string source_info | BytesSource string source_info

fun info_of :: "local_source \<Rightarrow> source_info" where
  "info_of (PathSource p i) = i"
| "info_of (BytesSource b i) = i"

record image =
  im_url :: "string option"
  im_alt :: "string option"
  im_click :: "click option"
  im_local :: "local_source option"

definition validate_url :: "(string \<Rightarrow> (pyexn, string \<times> string) result) \<Rightarrow> string \<Rightarrow> (pyexn, unit) result" where
  "validate_url urlp u =
     bind_res (urlp u) (\<lambda>(scheme, netloc).
       if scheme \<noteq> ''https'' \<or> netloc = [] then Inl (exn (Py ValueErr)) else Inr ())"

text \<open>\<open>_snapshot_action\<close>: a fresh dictionary of parameters.\<close>

definition snapshot_click :: "click \<Rightarrow> click" where
  "snapshot_click c = (case c of ActionClick a \<Rightarrow> ActionClick (a\<lparr> ca_params := dict_of (ca_params a) \<rparr>) | _ \<Rightarrow> c)"

definition image_from_url ::
    "(string \<Rightarrow> (pyexn, string \<times> string) result) \<Rightarrow> string option \<Rightarrow> string option \<Rightarrow> click option
     \<Rightarrow> (pyexn, image) result" where
  "image_from_url urlp url alt clk =
     (case url of
        None \<Rightarrow> Inl (exn (Py ValueErr))
      | Some u \<Rightarrow>
          bind_res (validate_url urlp u) (\<lambda>_.
            Inr \<lparr> im_url = Some u, im_alt = alt, im_click = map_option snapshot_click clk, im_local = None \<rparr>))"

definition image_from_source :: "local_source \<Rightarrow> string option \<Rightarrow> click option \<Rightarrow> image" where
  "image_from_source src alt clk =
     \<lparr> im_url = None, im_alt = alt, im_click = map_option snapshot_click clk, im_local = Some src \<rparr>"

definition source_info_of ::
    "(string \<Rightarrow> string option) \<Rightarrow> string \<Rightarrow> string option \<Rightarrow> string option \<Rightarrow> (pyexn, source_info) result" where
  "source_info_of guess fname ctype ns =
     bind_res (image_filename fname) (\<lambda>f.
       bind_res (image_content_type guess f ctype) (\<lambda>ct.
         bind_res (image_namespace ns) (\<lambda>n.
           Inr \<lparr> si_filename = f, si_content_type = ct, si_namespace = n \<rparr>)))"

text \<open>\<open>abs_path\<close> is \<open>Path(path).expanduser().absolute()\<close>.\<close>

definition image_from_path ::
    "(string \<Rightarrow> string option) \<Rightarrow> (string \<Rightarrow> (pyexn, string) result) \<Rightarrow> string \<Rightarrow> string option \<Rightarrow> string option
     \<Rightarrow> string option \<Rightarrow> string option \<Rightarrow> click option \<Rightarrow> (pyexn, image) result" where
  "image_from_path guess abs_path p fname ctype ns alt clk =
     bind_res (abs_path p) (\<lambda>q.
       bind_res (source_info_of guess (or_text fname (path_name q)) ctype ns) (\<lambda>i.
         Inr (image_from_source (PathSource q i) alt clk)))"

definition image_from_bytes ::
    "(string \<Rightarrow> string option) \<Rightarrow> string \<Rightarrow> string \<Rightarrow> string option \<Rightarrow> string option \<Rightarrow> string option \<Rightarrow> click option
     \<Rightarrow> (pyexn, image) result" where
  "image_from_bytes guess bytes fname ctype ns alt clk =
     (if bytes = [] then Inl (exn (Py ValueErr))
      else bind_res (source_info_of guess fname ctype ns) (\<lambda>i.
        Inr (image_from_source (BytesSource bytes i) alt clk)))"

definition image_kwargs :: "image \<Rightarrow> (pyexn, pyval) result" where
  "image_kwargs im =
     (case im_url im of
        None \<Rightarrow> Inl (exn (Fw AssetPublishError))
      | Some u \<Rightarrow>
          Inr (kwargs ([(''image_url'', PStr u)] @ opt_str ''alt_text'' (im_alt im) @
            (case im_click im of
               None \<Rightarrow> []
             | Some (ActionClick a) \<Rightarrow> [(''on_click'', kwargs [(''action'', action_kwargs a)])]
             | Some (LinkClick l) \<Rightarrow> [(''on_click'', kwargs [(''open_link'', link_kwargs l)])]))))"

section \<open>Buttons\<close>

record button =
  bt_text :: string
  bt_action :: "string option"
  bt_interaction :: "string option"
  bt_params :: "(string, string) pdict"
  bt_link :: "string option"
  bt_color :: pyval
  bt_type :: "string option"
  bt_disabled :: bool
  bt_alt :: "string option"
  bt_required :: "string list"
  bt_persist :: bool
  bt_spinner :: bool

text \<open>\<open>Button.__post_init__\<close>; the \<open>action\<close> argument is a name or action data, given by the function its class
  is bound to and what \<open>to_parameters\<close> returns.\<close>

datatype action_arg = NoAction | NamedAction string | DataAction "string option" "(pyexn, (string, string) pdict) result"

definition button_init :: "action_arg \<Rightarrow> button \<Rightarrow> (pyexn, button) result" where
  "button_init arg b =
     bind_res
       (case arg of
          NoAction \<Rightarrow> Inr (b\<lparr> bt_action := None \<rparr>)
        | NamedAction n \<Rightarrow> Inr (b\<lparr> bt_action := Some n \<rparr>)
        | DataAction f ps \<Rightarrow>
            (if f = None \<or> bt_params b \<noteq> [] then Inl (exn (Py ValueErr))
             else bind_res ps (\<lambda>p. Inr (b\<lparr> bt_params := p, bt_action := f \<rparr>))))
       (\<lambda>c. if bt_action c \<noteq> None \<and> bt_link c \<noteq> None then Inl (exn (Py ValueErr))
            else Inr (c\<lparr> bt_params := dict_of (bt_params c) \<rparr>))"

definition button_kwargs :: "button \<Rightarrow> (pyexn, pyval) result" where
  "button_kwargs b =
     bind_res
       (case (bt_action b, bt_link b) of
          (Some f, _) \<Rightarrow>
            Inr (kwargs [(''action'', kwargs
              ([(''function'', PStr f), (''parameters'', param_items (bt_params b))] @
               opt_str ''interaction'' (bt_interaction b) @
               (if bt_required b \<noteq> [] then [(''required_widgets'', PList (map PStr (bt_required b)))] else []) @
               (if bt_persist b then [(''persist_values'', PBool True)] else []) @
               [(''load_indicator'', PStr (if bt_spinner b then ''SPINNER'' else ''NONE''))]))])
        | (None, Some u) \<Rightarrow> Inr (kwargs [(''open_link'', kwargs [(''url'', PStr u)])])
        | (None, None) \<Rightarrow> Inl (exn (Py ValueErr)))
       (\<lambda>c. Inr (kwargs
          ([(''text'', PStr (bt_text b)), (''on_click'', c), (''disabled'', PBool (bt_disabled b))] @
           (if bt_color b = PNone then [] else [(''color'', bt_color b)]) @
           opt_str ''type'' (bt_type b) @ opt_str ''alt_text'' (bt_alt b))))"

section \<open>Widgets\<close>

datatype input_type = TextT | IntegerT | FloatT | EmailT | EmojiT

fun input_type_name :: "input_type \<Rightarrow> string" where
  "input_type_name TextT = ''TEXT''"
| "input_type_name IntegerT = ''INTEGER''"
| "input_type_name FloatT = ''FLOAT''"
| "input_type_name EmailT = ''EMAIL''"
| "input_type_name EmojiT = ''EMOJI_PICKER''"

definition input_type_of :: "string \<Rightarrow> (pyexn, input_type) result" where
  "input_type_of n =
     (case find (\<lambda>t. input_type_name t = n) [TextT, IntegerT, FloatT, EmailT, EmojiT] of
        Some t \<Rightarrow> Inr t | None \<Rightarrow> Inl (exn (Py ValueErr)))"

record validation =
  va_limit :: "int option"
  va_type :: "input_type option"

record text_input =
  ti_name :: string
  ti_label :: string
  ti_hint :: "string option"
  ti_value :: "string option"
  ti_validation :: "validation option"

record selection_input =
  se_name :: string
  se_label :: string
  se_items :: "(string, string) pdict list"
  se_source :: "card_action option"
  se_max :: "int option"
  se_min_query :: "int option"

record picker =
  pk_name :: string
  pk_label :: string
  pk_value :: "int option"
  pk_offset :: "int option"

datatype widget =
    TextParagraph string "int option"
  | Divider
  | ButtonList "button list"
  | TextInput text_input
  | SelectionInput selection_input
  | DateTimePicker picker
  | ImageW image
  | RawW wire_dict

record card_section =
  sc_header :: "string option"
  sc_widgets :: "widget list"

record card_header =
  hd_title :: string
  hd_subtitle :: "string option"
  hd_image :: "string option"

record card =
  cd_header :: "card_header option"
  cd_sections :: "card_section list"
  cd_name :: "string option"
  cd_raw :: "wire_dict option"

definition validation_kwargs :: "validation \<Rightarrow> pyval" where
  "validation_kwargs v =
     kwargs (opt_int ''character_limit'' (va_limit v) @ opt_str ''input_type'' (map_option input_type_name (va_type v)))"

definition text_input_kwargs :: "text_input \<Rightarrow> pyval" where
  "text_input_kwargs t =
     kwargs ([(''name'', PStr (ti_name t)), (''label'', PStr (ti_label t))] @ opt_str ''hint_text'' (ti_hint t) @
       opt_str ''value'' (ti_value t) @ opt_kw ''validation'' (map_option validation_kwargs (ti_validation t)))"

definition selection_kwargs :: "selection_input \<Rightarrow> pyval" where
  "selection_kwargs s =
     kwargs ([(''name'', PStr (se_name s)), (''label'', PStr (se_label s)),
         (''items'', PList (map (\<lambda>i. kwargs (map (\<lambda>(k, v). (k, PStr v)) i)) (se_items s)))] @
       opt_kw ''external_data_source'' (map_option action_kwargs (se_source s)) @
       opt_int ''multi_select_max_selected_items'' (se_max s) @
       opt_int ''multi_select_min_query_length'' (se_min_query s))"

definition picker_kwargs :: "picker \<Rightarrow> pyval" where
  "picker_kwargs p =
     kwargs ([(''name'', PStr (pk_name p)), (''label'', PStr (pk_label p))] @ opt_int ''value_ms_epoch'' (pk_value p) @
       opt_int ''timezone_offset_date'' (pk_offset p))"

definition paragraph_kwargs :: "string \<Rightarrow> int option \<Rightarrow> pyval" where
  "paragraph_kwargs t n = kwargs ([(''text'', PStr t)] @ opt_int ''max_lines'' n)"

text \<open>\<open>Section._widget_dict\<close>. \<open>sdk cls kw\<close> builds the SDK object of a class and reads it back as a dictionary;
  \<open>read_widget\<close> parses the JSON of a raw widget and does the same.\<close>

definition widget_dict ::
    "(string \<Rightarrow> pyval \<Rightarrow> (pyexn, pyval) result) \<Rightarrow> (wire_dict \<Rightarrow> (pyexn, pyval) result) \<Rightarrow> widget
     \<Rightarrow> (pyexn, pyval) result" where
  "widget_dict sdk read_widget w =
     (case w of
        TextParagraph t n \<Rightarrow>
          map_sum id (\<lambda>d. kwargs [(''text_paragraph'', d)]) (sdk ''TextParagraph'' (paragraph_kwargs t n))
      | Divider \<Rightarrow> map_sum id (\<lambda>d. kwargs [(''divider'', d)]) (sdk ''Divider'' (kwargs []))
      | ButtonList bs \<Rightarrow>
          bind_res (traverse button_kwargs bs) (\<lambda>ks.
            map_sum id (\<lambda>d. kwargs [(''button_list'', d)]) (sdk ''ButtonList'' (kwargs [(''buttons'', PList ks)])))
      | TextInput t \<Rightarrow> map_sum id (\<lambda>d. kwargs [(''text_input'', d)]) (sdk ''TextInput'' (text_input_kwargs t))
      | SelectionInput s \<Rightarrow>
          map_sum id (\<lambda>d. kwargs [(''selection_input'', d)]) (sdk ''SelectionInput'' (selection_kwargs s))
      | DateTimePicker p \<Rightarrow>
          map_sum id (\<lambda>d. kwargs [(''date_time_picker'', d)]) (sdk ''DateTimePicker'' (picker_kwargs p))
      | ImageW im \<Rightarrow>
          bind_res (image_kwargs im) (\<lambda>k. map_sum id (\<lambda>d. kwargs [(''image'', d)]) (sdk ''Image'' k))
      | RawW d \<Rightarrow> read_widget d)"

definition section_kwargs ::
    "(string \<Rightarrow> pyval \<Rightarrow> (pyexn, pyval) result) \<Rightarrow> (wire_dict \<Rightarrow> (pyexn, pyval) result) \<Rightarrow> card_section
     \<Rightarrow> (pyexn, pyval) result" where
  "section_kwargs sdk read_widget s =
     bind_res (traverse (widget_dict sdk read_widget) (sc_widgets s)) (\<lambda>ws.
       Inr (kwargs (opt_str ''header'' (sc_header s) @ [(''widgets'', PList ws)])))"

definition header_kwargs :: "card_header \<Rightarrow> pyval" where
  "header_kwargs h =
     kwargs ([(''title'', PStr (hd_title h))] @ opt_str ''subtitle'' (hd_subtitle h) @ opt_str ''image_url'' (hd_image h))"

definition card_kwargs ::
    "(string \<Rightarrow> pyval \<Rightarrow> (pyexn, pyval) result) \<Rightarrow> (wire_dict \<Rightarrow> (pyexn, pyval) result) \<Rightarrow> card
     \<Rightarrow> (pyexn, pyval) result" where
  "card_kwargs sdk read_widget c =
     bind_res (traverse (section_kwargs sdk read_widget) (cd_sections c)) (\<lambda>ss.
       Inr (kwargs (opt_kw ''header'' (map_option header_kwargs (cd_header c)) @ opt_str ''name'' (cd_name c) @
         [(''sections'', PList ss)])))"

text \<open>\<open>Card.to_dict\<close>; \<open>render\<close> writes the SDK card built from the arguments as JSON.\<close>

definition card_to_dict ::
    "(pyval \<Rightarrow> string) \<Rightarrow> (string \<Rightarrow> pyval \<Rightarrow> (pyexn, pyval) result) \<Rightarrow> (wire_dict \<Rightarrow> (pyexn, pyval) result)
     \<Rightarrow> (pyval \<Rightarrow> (pyexn, wire_dict) result) \<Rightarrow> card \<Rightarrow> (pyexn, wire_dict) result" where
  "card_to_dict other sdk read_widget render c =
     (case cd_raw c of
        Some d \<Rightarrow> snapshot_dict other d
      | None \<Rightarrow> bind_res (card_kwargs sdk read_widget c) render)"

text \<open>\<open>RawWidget.__post_init__\<close>: the schema check may fail in any way.\<close>

definition raw_widget_init ::
    "(pyval \<Rightarrow> string) \<Rightarrow> (wire_dict \<Rightarrow> (pyexn, unit) result) \<Rightarrow> wire_dict \<Rightarrow> (pyexn, widget) result" where
  "raw_widget_init other check d =
     bind_res (snapshot_dict other d) (\<lambda>e.
       case check e of
         Inr _ \<Rightarrow> Inr (RawW e)
       | Inl x \<Rightarrow> if is_exception (exn_cls x) then Inl (exn (Py ValueErr)) else Inl x)"

text \<open>\<open>Dialog.__post_init__\<close>.\<close>

definition rejected_in_dialog :: "widget \<Rightarrow> bool" where
  "rejected_in_dialog w \<longleftrightarrow>
     (case w of DateTimePicker p \<Rightarrow> True | RawW d \<Rightarrow> dict_has d (PStr ''dateTimePicker'') | _ \<Rightarrow> False)"

definition dialog_init :: "card \<Rightarrow> (pyexn, card) result" where
  "dialog_init c =
     (if list_ex (\<lambda>s. list_ex rejected_in_dialog (sc_widgets s)) (cd_sections c) then Inl (exn (Py ValueErr))
      else Inr c)"

section \<open>From SDK messages\<close>

text \<open>What the code reads of the messages; a text field that is unset is empty, a number zero.\<close>

record action_msg =
  am_function :: string
  am_params :: "(string \<times> string) list"
  am_interaction :: "string option"
  am_required :: "string list"
  am_persist :: bool
  am_load :: string

datatype click_msg = ActionMsg action_msg | LinkMsg string pyval | OtherClick string

record button_msg =
  bm_text :: string
  bm_click :: click_msg
  bm_disabled :: bool
  bm_alt :: string
  bm_type :: string
  bm_color :: "(pyfloat \<times> pyfloat \<times> pyfloat \<times> pyval) option"

record image_msg =
  mi_url :: string
  mi_alt :: string
  mi_click :: click_msg

record text_input_msg =
  mt_name :: string
  mt_label :: string
  mt_hint :: string
  mt_value :: string
  mt_limit :: int
  mt_type :: "string option"

record selection_msg =
  ms_name :: string
  ms_label :: string
  ms_items :: "(string \<times> string) list"
  ms_source :: "action_msg option"
  ms_max :: int
  ms_min_query :: int

record picker_msg =
  mp_name :: string
  mp_label :: string
  mp_value :: int
  mp_offset :: int

datatype widget_msg =
    TextM string int | DividerM | ButtonsM "button_msg list" | TextInputM text_input_msg
  | SelectionM selection_msg | PickerM picker_msg | ImageM image_msg | OtherM wire_dict

record section_msg =
  sm_header :: string
  sm_widgets :: "widget_msg list"

record card_msg =
  cm_title :: string
  cm_subtitle :: string
  cm_image :: string
  cm_sections :: "section_msg list"
  cm_name :: string

definition nonzero :: "int \<Rightarrow> int option" where
  "nonzero i = (if i \<noteq> 0 then Some i else None)"

definition button_type_name :: "string \<Rightarrow> string option" where
  "button_type_name n = (if n = [] \<or> n \<in> {''TYPE_UNSPECIFIED'', ''BUTTON_TYPE_UNSPECIFIED''} then None else Some n)"

definition color_mapping :: "pyfloat \<times> pyfloat \<times> pyfloat \<times> pyval \<Rightarrow> pyval" where
  "color_mapping c = (case c of (r, g, b, a) \<Rightarrow>
     kwargs [(''red'', PFloat r), (''green'', PFloat g), (''blue'', PFloat b), (''alpha'', a)])"

definition action_from_msg :: "action_msg \<Rightarrow> card_action" where
  "action_from_msg a =
     \<lparr> ca_function = nonempty (am_function a), ca_params = dict_of (am_params a), ca_interaction = am_interaction a \<rparr>"

definition button_from_msg :: "button_msg \<Rightarrow> (pyexn, button) result" where
  "button_from_msg b =
     (case bm_click b of
        ActionMsg a \<Rightarrow>
          button_init (case nonempty (am_function a) of None \<Rightarrow> NoAction | Some f \<Rightarrow> NamedAction f)
            \<lparr> bt_text = bm_text b, bt_action = None, bt_interaction = am_interaction a,
              bt_params = dict_of (am_params a), bt_link = None,
              bt_color = (case bm_color b of None \<Rightarrow> PNone | Some c \<Rightarrow> color_mapping c),
              bt_type = button_type_name (bm_type b), bt_disabled = bm_disabled b, bt_alt = nonempty (bm_alt b),
              bt_required = am_required a, bt_persist = am_persist a, bt_spinner = (am_load a = ''SPINNER'') \<rparr>
      | LinkMsg u opn \<Rightarrow>
          button_init NoAction
            \<lparr> bt_text = bm_text b, bt_action = None, bt_interaction = None, bt_params = [], bt_link = Some u,
              bt_color = PNone, bt_type = button_type_name (bm_type b), bt_disabled = bm_disabled b,
              bt_alt = nonempty (bm_alt b), bt_required = [], bt_persist = False, bt_spinner = False \<rparr>
      | OtherClick k \<Rightarrow> Inl (exn (Py NotImplementedErr)))"

definition text_input_from_msg :: "text_input_msg \<Rightarrow> (pyexn, text_input) result" where
  "text_input_from_msg t =
     bind_res
       (if mt_limit t = 0 \<and> mt_type t = None then Inr None
        else (case mt_type t of
                None \<Rightarrow> Inr (Some \<lparr> va_limit = nonzero (mt_limit t), va_type = None \<rparr>)
              | Some n \<Rightarrow> map_sum id (\<lambda>ty. Some \<lparr> va_limit = nonzero (mt_limit t), va_type = Some ty \<rparr>) (input_type_of n)))
       (\<lambda>v. Inr \<lparr> ti_name = mt_name t, ti_label = mt_label t, ti_hint = nonempty (mt_hint t),
                  ti_value = nonempty (mt_value t), ti_validation = v \<rparr>)"

definition selection_from_msg :: "selection_msg \<Rightarrow> selection_input" where
  "selection_from_msg s =
     \<lparr> se_name = ms_name s, se_label = ms_label s,
       se_items = map (\<lambda>(t, v). [(''text'', t), (''value'', v)]) (ms_items s),
       se_source = map_option (\<lambda>a. \<lparr> ca_function = nonempty (am_function a), ca_params = dict_of (am_params a),
         ca_interaction = None \<rparr>) (ms_source s),
       se_max = nonzero (ms_max s), se_min_query = nonzero (ms_min_query s) \<rparr>"

definition picker_from_msg :: "picker_msg \<Rightarrow> picker" where
  "picker_from_msg p =
     \<lparr> pk_name = mp_name p, pk_label = mp_label p, pk_value = nonzero (mp_value p), pk_offset = nonzero (mp_offset p) \<rparr>"

definition image_from_msg ::
    "(string \<Rightarrow> (pyexn, string \<times> string) result) \<Rightarrow> image_msg \<Rightarrow> (pyexn, image) result" where
  "image_from_msg urlp i =
     image_from_url urlp (Some (mi_url i)) (nonempty (mi_alt i))
       (case mi_click i of
          ActionMsg a \<Rightarrow> Some (ActionClick (action_from_msg a))
        | LinkMsg u opn \<Rightarrow> Some (LinkClick \<lparr> ol_url = u, ol_open_as = (if truthy opn then opn else PNone) \<rparr>)
        | OtherClick k \<Rightarrow> None)"

text \<open>\<open>Section.from_proto\<close> for one widget; \<open>raw_ok\<close> is the schema check of a raw widget.\<close>

definition widget_from_msg ::
    "(pyval \<Rightarrow> string) \<Rightarrow> (string \<Rightarrow> (pyexn, string \<times> string) result) \<Rightarrow> (wire_dict \<Rightarrow> (pyexn, unit) result)
     \<Rightarrow> widget_msg \<Rightarrow> (pyexn, widget) result" where
  "widget_from_msg other urlp raw_ok m =
     (case m of
        TextM t n \<Rightarrow> Inr (TextParagraph t (nonzero n))
      | DividerM \<Rightarrow> Inr Divider
      | ButtonsM bs \<Rightarrow> map_sum id ButtonList (traverse button_from_msg bs)
      | TextInputM t \<Rightarrow> map_sum id TextInput (text_input_from_msg t)
      | SelectionM s \<Rightarrow> Inr (SelectionInput (selection_from_msg s))
      | PickerM p \<Rightarrow> Inr (DateTimePicker (picker_from_msg p))
      | ImageM i \<Rightarrow> map_sum id ImageW (image_from_msg urlp i)
      | OtherM d \<Rightarrow> raw_widget_init other raw_ok d)"

definition section_from_msg ::
    "(pyval \<Rightarrow> string) \<Rightarrow> (string \<Rightarrow> (pyexn, string \<times> string) result) \<Rightarrow> (wire_dict \<Rightarrow> (pyexn, unit) result)
     \<Rightarrow> section_msg \<Rightarrow> (pyexn, card_section) result" where
  "section_from_msg other urlp raw_ok s =
     bind_res (traverse (widget_from_msg other urlp raw_ok) (sm_widgets s)) (\<lambda>ws.
       Inr \<lparr> sc_header = nonempty (sm_header s), sc_widgets = ws \<rparr>)"

definition card_from_msg ::
    "(pyval \<Rightarrow> string) \<Rightarrow> (string \<Rightarrow> (pyexn, string \<times> string) result) \<Rightarrow> (wire_dict \<Rightarrow> (pyexn, unit) result)
     \<Rightarrow> card_msg \<Rightarrow> (pyexn, card) result" where
  "card_from_msg other urlp raw_ok m =
     bind_res (traverse (section_from_msg other urlp raw_ok) (cm_sections m)) (\<lambda>ss.
       Inr \<lparr> cd_header =
               (if cm_title m \<noteq> [] \<or> cm_subtitle m \<noteq> [] \<or> cm_image m \<noteq> []
                then Some \<lparr> hd_title = cm_title m, hd_subtitle = nonempty (cm_subtitle m), hd_image = nonempty (cm_image m) \<rparr>
                else None),
             cd_sections = ss, cd_name = nonempty (cm_name m), cd_raw = None \<rparr>)"

section \<open>From Cards v2 JSON\<close>

definition supported_keys :: "string list" where
  "supported_keys =
     [''textParagraph'', ''divider'', ''buttonList'', ''textInput'', ''selectionInput'', ''dateTimePicker'', ''image'']"

definition is_supported :: "wire_dict \<Rightarrow> bool" where
  "is_supported d \<longleftrightarrow> list_ex (\<lambda>k. dict_has d (PStr k)) supported_keys"

text \<open>The loop over the raw widgets of a section.\<close>

fun keep_raw ::
    "(pyval \<Rightarrow> string) \<Rightarrow> (wire_dict \<Rightarrow> (pyexn, unit) result) \<Rightarrow> nat \<Rightarrow> pyval list \<Rightarrow> widget list
     \<Rightarrow> (pyexn, widget list) result" where
  "keep_raw other raw_ok i [] ws = Inr ws"
| "keep_raw other raw_ok i (v # vs) ws =
     (case v of
        PDict d \<Rightarrow>
          if is_supported d then keep_raw other raw_ok (Suc i) vs ws
          else bind_res (raw_widget_init other raw_ok d) (\<lambda>r.
            keep_raw other raw_ok (Suc i) vs (if i < length ws then ws[i := r] else ws @ [r]))
      | _ \<Rightarrow> keep_raw other raw_ok (Suc i) vs ws)"

definition raw_widgets_of :: "pyval list \<Rightarrow> nat \<Rightarrow> pyval list" where
  "raw_widgets_of raws i =
     (if i < length raws
      then (case raws ! i of PDict d \<Rightarrow> (case obj_get d ''widgets'' of PList ws \<Rightarrow> ws | _ \<Rightarrow> []) | _ \<Rightarrow> [])
      else [])"

definition keep_raw_sections ::
    "(pyval \<Rightarrow> string) \<Rightarrow> (wire_dict \<Rightarrow> (pyexn, unit) result) \<Rightarrow> pyval list \<Rightarrow> card_section list
     \<Rightarrow> (pyexn, card_section list) result" where
  "keep_raw_sections other raw_ok raws ss =
     traverse (\<lambda>(i, s). map_sum id (\<lambda>ws. s\<lparr> sc_widgets := ws \<rparr>)
       (keep_raw other raw_ok 0 (raw_widgets_of raws i) (sc_widgets s))) (enumerate 0 ss)"

definition card_from_dict ::
    "(pyval \<Rightarrow> string) \<Rightarrow> (string \<Rightarrow> (pyexn, string \<times> string) result) \<Rightarrow> (wire_dict \<Rightarrow> (pyexn, unit) result)
     \<Rightarrow> (wire_dict \<Rightarrow> (pyexn, card_msg) result) \<Rightarrow> wire_dict \<Rightarrow> (pyexn, card) result" where
  "card_from_dict other urlp raw_ok parse_card d =
     bind_res (snapshot_dict other d) (\<lambda>snap.
       bind_res (parse_card snap) (\<lambda>m.
         bind_res (card_from_msg other urlp raw_ok m) (\<lambda>c.
           bind_res
             (case obj_get snap ''sections'' of
                PList raws \<Rightarrow> keep_raw_sections other raw_ok raws (cd_sections c)
              | _ \<Rightarrow> Inr (cd_sections c))
             (\<lambda>ss. Inr (c\<lparr> cd_sections := ss, cd_raw := Some snap \<rparr>)))))"

section \<open>Cards v2 JSON is kept\<close>

lemma raw_widget_json:
  assumes "is_json (PDict d)" and "raw_widget_init other raw_ok d = Inr w"
  shows "w = RawW d"
  using assms by (auto simp: raw_widget_init_def snapshot_dict_json split: sum.splits if_splits)

text \<open>One step of the loop: the widget at the index is replaced, or nothing happens.\<close>

lemma keep_raw_step:
  assumes "keep_raw other raw_ok i (v # vs) ws = Inr us" and "i < length ws"
  obtains "keep_raw other raw_ok (Suc i) vs ws = Inr us" "\<And>d. v = PDict d \<Longrightarrow> is_supported d"
  | d r where "v = PDict d" "\<not> is_supported d" "raw_widget_init other raw_ok d = Inr r"
      "keep_raw other raw_ok (Suc i) vs (ws[i := r]) = Inr us"
proof (cases "\<exists>d. v = PDict d \<and> \<not> is_supported d")
  case True
  then obtain d where d: "v = PDict d" "\<not> is_supported d" by blast
  then obtain r where "raw_widget_init other raw_ok d = Inr r"
    "keep_raw other raw_ok (Suc i) vs (ws[i := r]) = Inr us"
    using assms by (auto simp: bind_res_Inr_iff)
  then show ?thesis using d that(2) by blast
next
  case False
  then have "keep_raw other raw_ok (Suc i) vs ws = Inr us" using assms by (cases v) auto
  then show ?thesis using False that(1) by blast
qed

lemma keep_raw_keeps:
  "keep_raw other raw_ok i vs ws = Inr us \<Longrightarrow> i + length vs \<le> length ws \<Longrightarrow>
   length us = length ws \<and> (\<forall>j < i. us ! j = ws ! j)"
proof (induction vs arbitrary: i ws)
  case (Cons v vs)
  have "i < length ws" using Cons.prems(2) by simp
  with Cons.prems(1) show ?case
  proof (cases rule: keep_raw_step)
    case 1
    then show ?thesis using Cons.IH [of "Suc i" ws] Cons.prems(2) by simp
  next
    case (2 d r)
    then show ?thesis using Cons.IH [of "Suc i" "ws[i := r]"] Cons.prems(2) by simp
  qed
qed simp

lemma keep_raw_at:
  "keep_raw other raw_ok i vs ws = Inr us \<Longrightarrow> i + length vs \<le> length ws \<Longrightarrow> list_all is_json vs \<Longrightarrow>
   j < length vs \<Longrightarrow> vs ! j = PDict d \<Longrightarrow> \<not> is_supported d \<Longrightarrow> us ! (i + j) = RawW d"
proof (induction vs arbitrary: i j ws)
  case (Cons v vs)
  have "i < length ws" using Cons.prems(2) by simp
  with Cons.prems(1) show ?case
  proof (cases rule: keep_raw_step)
    case 1
    then have "j \<noteq> 0" using Cons.prems(5,6) by (cases j) auto
    then show ?thesis using Cons.IH [of "Suc i" ws "j - 1"] Cons.prems 1 by (cases j) auto
  next
    case (2 e r)
    show ?thesis
    proof (cases j)
      case 0
      then have "r = RawW d" using raw_widget_json [OF _ 2(3)] 2(1) Cons.prems(3,5) by simp
      then show ?thesis using keep_raw_keeps [OF 2(4)] Cons.prems(2) 0 by simp
    next
      case (Suc n)
      then show ?thesis using Cons.IH [of "Suc i" "ws[i := r]" n] Cons.prems 2 by simp
    qed
  qed
qed simp

lemma traverse_nth: "traverse f xs = Inr ys \<Longrightarrow> length ys = length xs \<and> (\<forall>i < length xs. f (xs ! i) = Inr (ys ! i))"
  by (simp add: traverse_Inr_iff list_all2_conv_all_nth)

lemma json_member: "is_json (PDict d) \<Longrightarrow> is_json (obj_get d k)"
  by (auto simp: obj_get_def list_all_iff dest!: dict_get_in_set split: option.split)

lemma raw_widgets_json:
  "is_json (PList raws) \<Longrightarrow> list_all is_json (raw_widgets_of raws i)"
proof -
  assume j: "is_json (PList raws)"
  have "is_json (PList ws)" if "i < length raws" "raws ! i = PDict d" "obj_get d ''widgets'' = PList ws" for d ws
    using that j json_member [of d "''widgets''"] by (metis is_json.simps(1) list_all_length)
  then show ?thesis by (auto simp: raw_widgets_of_def split: pyval.splits)
qed

text \<open>The parser of the SDK gives one widget for each entry of the JSON list.\<close>

definition widget_for_widget :: "(wire_dict \<Rightarrow> (pyexn, card_msg) result) \<Rightarrow> bool" where
  "widget_for_widget parse_card \<longleftrightarrow>
     (\<forall>d m raws i. parse_card d = Inr m \<longrightarrow> obj_get d ''sections'' = PList raws \<longrightarrow> i < length (cm_sections m) \<longrightarrow>
        length (sm_widgets (cm_sections m ! i)) = length (raw_widgets_of raws i))"

text \<open>C30. Cards v2 JSON survives: a card read from JSON is written back as exactly the JSON it was read from,
  fields the SDK does not know included, and a widget of a kind the facade has no class for is kept, at its
  place, with its payload.\<close>

theorem card_json_lossless:
  assumes "is_json (PDict d)" and "widget_for_widget parse_card"
    and "card_from_dict other urlp raw_ok parse_card d = Inr c"
  shows "card_to_dict other sdk read_widget render c = Inr d \<and>
    (\<forall>raws i j w. obj_get d ''sections'' = PList raws \<longrightarrow> i < length (cd_sections c) \<longrightarrow>
       j < length (raw_widgets_of raws i) \<longrightarrow> raw_widgets_of raws i ! j = PDict w \<longrightarrow> \<not> is_supported w \<longrightarrow>
       sc_widgets (cd_sections c ! i) ! j = RawW w)"
proof -
  have snap: "snapshot_dict other d = Inr d" by (rule snapshot_dict_json [OF assms(1)])
  obtain m b ss where m: "parse_card d = Inr m" and b: "card_from_msg other urlp raw_ok m = Inr b"
    and ss: "(case obj_get d ''sections'' of PList raws \<Rightarrow> keep_raw_sections other raw_ok raws (cd_sections b)
      | _ \<Rightarrow> Inr (cd_sections b)) = Inr ss" and c: "c = b\<lparr> cd_sections := ss, cd_raw := Some d \<rparr>"
    using assms(3) snap by (auto simp: card_from_dict_def bind_res_Inr_iff)
  have "sc_widgets (ss ! i) ! j = RawW w"
    if raws: "obj_get d ''sections'' = PList raws" and i: "i < length ss" and j: "j < length (raw_widgets_of raws i)"
      and w: "raw_widgets_of raws i ! j = PDict w" "\<not> is_supported w" for raws i j w
  proof -
    let ?bs = "cd_sections b"
    have k: "keep_raw_sections other raw_ok raws ?bs = Inr ss" using ss raws by simp
    then have len: "length ss = length ?bs" by (auto simp: keep_raw_sections_def dest: traverse_nth)
    have "\<forall>i < length ?bs. \<exists>us. keep_raw other raw_ok 0 (raw_widgets_of raws i) (sc_widgets (?bs ! i)) = Inr us \<and>
        ss ! i = (?bs ! i)\<lparr> sc_widgets := us \<rparr>"
      using k by (auto simp: keep_raw_sections_def map_sum_Inr_iff nth_enumerate_eq dest!: traverse_nth)
    then obtain us where us: "keep_raw other raw_ok 0 (raw_widgets_of raws i) (sc_widgets (?bs ! i)) = Inr us"
      and ssi: "ss ! i = (?bs ! i)\<lparr> sc_widgets := us \<rparr>"
      using i len by auto
    have "traverse (section_from_msg other urlp raw_ok) (cm_sections m) = Inr ?bs"
      using b by (auto simp: card_from_msg_def bind_res_Inr_iff)
    then have ci: "i < length (cm_sections m)" and "section_from_msg other urlp raw_ok (cm_sections m ! i) = Inr (?bs ! i)"
      using i len by (auto dest: traverse_nth)
    then obtain ws where "traverse (widget_from_msg other urlp raw_ok) (sm_widgets (cm_sections m ! i)) = Inr ws"
      and "?bs ! i = \<lparr> sc_header = nonempty (sm_header (cm_sections m ! i)), sc_widgets = ws \<rparr>"
      unfolding section_from_msg_def bind_res_Inr_iff by auto
    then have "length (sc_widgets (?bs ! i)) = length (sm_widgets (cm_sections m ! i))"
      by (auto dest: traverse_nth)
    also have "\<dots> = length (raw_widgets_of raws i)"
      using assms(2) m raws ci by (auto simp: widget_for_widget_def)
    finally have long: "0 + length (raw_widgets_of raws i) \<le> length (sc_widgets (?bs ! i))" by simp
    have "list_all is_json (raw_widgets_of raws i)"
      using raw_widgets_json json_member [OF assms(1), of "''sections''"] raws by simp
    then show ?thesis using keep_raw_at [OF us long _ j w] ssi by simp
  qed
  then show ?thesis using c snap by (simp add: card_to_dict_def)
qed

definition carousel_card :: wire_dict where
  "carousel_card =
     [(PStr ''sections'', PList [PDict [(PStr ''widgets'',
        PList [PDict [(PStr ''carousel'', PDict [])], PDict [(PStr ''divider'', PDict [])]])]])]"

definition carousel_parse :: "wire_dict \<Rightarrow> (pyexn, card_msg) result" where
  "carousel_parse d =
     (if d = carousel_card
      then Inr \<lparr> cm_title = [], cm_subtitle = [], cm_image = [],
        cm_sections = [\<lparr> sm_header = [], sm_widgets = [OtherM [], DividerM] \<rparr>], cm_name = [] \<rparr>
      else Inl (exn (Py ValueErr)))"

lemma card_json_lossless_witness:
  "\<exists>c. card_from_dict (\<lambda>_. []) (\<lambda>_. Inl (exn (Py ValueErr))) (\<lambda>_. Inr ()) carousel_parse carousel_card = Inr c \<and>
    card_to_dict (\<lambda>_. []) (\<lambda>_ _. Inl (exn (Py ValueErr))) (\<lambda>_. Inl (exn (Py ValueErr))) (\<lambda>_. Inl (exn (Py ValueErr))) c =
      Inr carousel_card"
proof -
  have j: "is_json (PDict carousel_card)" by (simp add: carousel_card_def dict_ok_def)
  have p: "widget_for_widget carousel_parse"
    by (simp add: widget_for_widget_def carousel_parse_def raw_widgets_of_def carousel_card_def)
  have snap: "snapshot_dict (\<lambda>_. []) carousel_card = Inr carousel_card" by (rule snapshot_dict_json [OF j])
  have inner: "snapshot_dict (\<lambda>_. []) [] = Inr []"
    "snapshot_dict (\<lambda>_. []) [(PStr ''carousel'', PDict [])] = Inr [(PStr ''carousel'', PDict [])]"
    by (simp_all add: snapshot_dict_json dict_ok_def)
  have "\<exists>c. card_from_dict (\<lambda>_. []) (\<lambda>_. Inl (exn (Py ValueErr))) (\<lambda>_. Inr ()) carousel_parse carousel_card = Inr c"
    using snap inner
    by (simp add: card_from_dict_def carousel_parse_def card_from_msg_def section_from_msg_def widget_from_msg_def
        raw_widget_init_def keep_raw_sections_def raw_widgets_of_def carousel_card_def is_supported_def
        supported_keys_def dict_has_def)
  then show ?thesis using card_json_lossless [OF j p] by blast
qed

section \<open>Buttons through the SDK\<close>

text \<open>Documented behaviour of a message class: a field that is given reads back, one that is not is empty.\<close>

definition text_of :: "wire_dict \<Rightarrow> string \<Rightarrow> string" where
  "text_of d k = (case obj_get d k of PStr s \<Rightarrow> s | _ \<Rightarrow> [])"

definition items_of :: "wire_dict \<Rightarrow> string \<Rightarrow> pyval list" where
  "items_of d k = (case obj_get d k of PList xs \<Rightarrow> xs | _ \<Rightarrow> [])"

definition dict_at :: "wire_dict \<Rightarrow> string \<Rightarrow> wire_dict" where
  "dict_at d k = (case obj_get d k of PDict e \<Rightarrow> e | _ \<Rightarrow> [])"

definition pair_of :: "pyval \<Rightarrow> string \<times> string" where
  "pair_of v = (case v of PDict d \<Rightarrow> (text_of d ''key'', text_of d ''value'') | _ \<Rightarrow> ([], []))"

definition str_of :: "pyval \<Rightarrow> string" where
  "str_of v = (case v of PStr s \<Rightarrow> s | _ \<Rightarrow> [])"

definition float_of :: "pyval \<Rightarrow> pyfloat" where
  "float_of v = (case v of PFloat x \<Rightarrow> x | _ \<Rightarrow> Fin 0)"

definition action_msg_of :: "wire_dict \<Rightarrow> action_msg" where
  "action_msg_of d =
     \<lparr> am_function = text_of d ''function'', am_params = map pair_of (items_of d ''parameters''),
       am_interaction = nonempty (text_of d ''interaction''), am_required = map str_of (items_of d ''required_widgets''),
       am_persist = truthy (obj_get d ''persist_values''),
       am_load = (if text_of d ''load_indicator'' = ''NONE'' then ''NONE'' else ''SPINNER'') \<rparr>"

definition click_msg_of :: "wire_dict \<Rightarrow> click_msg" where
  "click_msg_of d =
     (if dict_has d (PStr ''action'') then ActionMsg (action_msg_of (dict_at d ''action''))
      else if dict_has d (PStr ''open_link'') then
        LinkMsg (text_of (dict_at d ''open_link'') ''url'') (obj_get (dict_at d ''open_link'') ''open_as'')
      else OtherClick [])"

definition button_msg_of :: "wire_dict \<Rightarrow> button_msg" where
  "button_msg_of d =
     \<lparr> bm_text = text_of d ''text'', bm_click = click_msg_of (dict_at d ''on_click''),
       bm_disabled = truthy (obj_get d ''disabled''), bm_alt = text_of d ''alt_text'', bm_type = text_of d ''type'',
       bm_color = (if dict_has d (PStr ''color'')
         then (let c = dict_at d ''color'' in
           Some (float_of (obj_get c ''red''), float_of (obj_get c ''green''), float_of (obj_get c ''blue''), obj_get c ''alpha''))
         else None) \<rparr>"

definition reads_back :: "(wire_dict \<Rightarrow> button_msg) \<Rightarrow> bool" where
  "reads_back mk \<longleftrightarrow> (\<forall>d. mk d = button_msg_of d)"

text \<open>A button the constructor returned whose optional texts are not empty and whose colour, if it has one, is a
  mapping of the four components.\<close>

definition plain_button :: "button \<Rightarrow> bool" where
  "plain_button b \<longleftrightarrow>
     (bt_action b = None) = (bt_link b \<noteq> None) \<and> bt_action b \<noteq> Some [] \<and> bt_interaction b \<noteq> Some [] \<and>
     bt_alt b \<noteq> Some [] \<and> bt_type b \<notin> {Some [], Some ''TYPE_UNSPECIFIED'', Some ''BUTTON_TYPE_UNSPECIFIED''} \<and>
     dict_ok (bt_params b) \<and> (bt_color b = PNone \<or> (\<exists>c. bt_color b = color_mapping c))"

text \<open>What of a link button survives.\<close>

definition without_action_fields :: "button \<Rightarrow> button" where
  "without_action_fields b =
     b\<lparr> bt_color := PNone, bt_interaction := None, bt_params := [], bt_required := [], bt_persist := False,
        bt_spinner := False \<rparr>"

lemma kwargs_get [simp]:
  "kwargs ps = PDict (map (\<lambda>(k, v). (PStr k, v)) ps)"
  by (simp add: kwargs_def)

lemma obj_get_kw [simp]:
  "obj_get (map (\<lambda>(k, v). (PStr k, v)) (opt_kw j ov) @ d) k =
     (if j = k \<and> ov \<noteq> None then the ov else obj_get d k)"
  "obj_get (map (\<lambda>(k, v). (PStr k, v)) (opt_kw j ov)) k = (if j = k \<and> ov \<noteq> None then the ov else PNone)"
  by (auto simp: opt_kw_def split: option.split)

lemma dict_has_kw [simp]:
  "dict_has (map (\<lambda>(k, v). (PStr k, v)) (opt_kw j ov) @ d) k = ((PStr j = k \<and> ov \<noteq> None) \<or> dict_has d k)"
  "dict_has (map (\<lambda>(k, v). (PStr k, v)) (opt_kw j ov)) k = (PStr j = k \<and> ov \<noteq> None)"
  by (auto simp: opt_kw_def dict_has_def split: option.split)

lemma dict_has_step [simp]: "dict_has ((j, v) # d) k = (j = k \<or> dict_has d k)" "\<not> dict_has [] k"
  by (auto simp: dict_has_def)

lemma pair_of_items [simp]:
  "map (pair_of \<circ> (\<lambda>(k, v). PDict [(PStr ''key'', PStr k), (PStr ''value'', PStr v)])) ps = ps"
  by (induction ps) (auto simp: pair_of_def text_of_def)

lemma str_of_items [simp]: "map (str_of \<circ> PStr) xs = xs"
  by (induction xs) (auto simp: str_of_def)

lemma opt_kw_if:
  "(if c then [(k, v)] else []) = opt_kw k (if c then Some v else None)"
  "(if c then [] else [(k, v)]) = opt_kw k (if c then None else Some v)"
  by (simp_all add: opt_kw_def)

lemma nonempty_opt: "o1 \<noteq> Some [] \<Longrightarrow> nonempty (case o1 of None \<Rightarrow> [] | Some s \<Rightarrow> s) = o1"
  by (auto simp: nonempty_def split: option.split)

lemma color_reads_back:
  "color_mapping c = PDict d \<Longrightarrow>
   (float_of (obj_get d ''red''), float_of (obj_get d ''green''), float_of (obj_get d ''blue''), obj_get d ''alpha'') = c"
  by (cases c) (auto simp: color_mapping_def float_of_def)

definition button_tail :: "button \<Rightarrow> (string \<times> pyval) list" where
  "button_tail b =
     opt_kw ''color'' (if bt_color b = PNone then None else Some (bt_color b)) @
     opt_kw ''type'' (map_option PStr (bt_type b)) @ opt_kw ''alt_text'' (map_option PStr (bt_alt b))"

definition button_dict :: "button \<Rightarrow> wire_dict \<Rightarrow> wire_dict" where
  "button_dict b c =
     (PStr ''text'', PStr (bt_text b)) # (PStr ''on_click'', PDict c) # (PStr ''disabled'', PBool (bt_disabled b)) #
     map (\<lambda>(k, v). (PStr k, v)) (button_tail b)"

text \<open>The parts of the message that do not depend on the click.\<close>

lemma button_dict_msg:
  assumes "plain_button b"
  shows "bm_text (button_msg_of (button_dict b c)) = bt_text b"
    "bm_click (button_msg_of (button_dict b c)) = click_msg_of c"
    "bm_disabled (button_msg_of (button_dict b c)) = bt_disabled b"
    "nonempty (bm_alt (button_msg_of (button_dict b c))) = bt_alt b"
    "button_type_name (bm_type (button_msg_of (button_dict b c))) = bt_type b"
    "(case bm_color (button_msg_of (button_dict b c)) of None \<Rightarrow> PNone | Some x \<Rightarrow> color_mapping x) = bt_color b"
proof -
  show "bm_text (button_msg_of (button_dict b c)) = bt_text b"
    "bm_click (button_msg_of (button_dict b c)) = click_msg_of c"
    "bm_disabled (button_msg_of (button_dict b c)) = bt_disabled b"
    by (simp_all add: button_msg_of_def button_dict_def text_of_def dict_at_def)
  have "text_of (button_dict b c) ''alt_text'' = (case bt_alt b of None \<Rightarrow> [] | Some s \<Rightarrow> s)"
    by (auto simp: button_dict_def button_tail_def text_of_def split: option.split)
  then show "nonempty (bm_alt (button_msg_of (button_dict b c))) = bt_alt b"
    using assms by (simp add: button_msg_of_def nonempty_opt plain_button_def)
  have "text_of (button_dict b c) ''type'' = (case bt_type b of None \<Rightarrow> [] | Some s \<Rightarrow> s)"
    by (auto simp: button_dict_def button_tail_def text_of_def split: option.split)
  then show "button_type_name (bm_type (button_msg_of (button_dict b c))) = bt_type b"
    using assms by (auto simp: button_msg_of_def button_type_name_def plain_button_def split: option.split)
  show "(case bm_color (button_msg_of (button_dict b c)) of None \<Rightarrow> PNone | Some x \<Rightarrow> color_mapping x) = bt_color b"
  proof (cases "bt_color b = PNone")
    case True
    then show ?thesis by (simp add: button_msg_of_def button_dict_def button_tail_def)
  next
    case False
    then obtain x where x: "bt_color b = color_mapping x" using assms by (auto simp: plain_button_def)
    obtain e where e: "color_mapping x = PDict e" by (cases x) (simp add: color_mapping_def)
    have "bm_color (button_msg_of (button_dict b c)) = Some x"
      using False x e color_reads_back [OF e]
      by (simp add: button_msg_of_def button_dict_def button_tail_def dict_at_def Let_def)
    then show ?thesis using x by simp
  qed
qed

definition action_dict :: "button \<Rightarrow> string \<Rightarrow> wire_dict" where
  "action_dict b f =
     [(PStr ''function'', PStr f), (PStr ''parameters'', param_items (bt_params b))] @
     map (\<lambda>(k, v). (PStr k, v)) (opt_kw ''interaction'' (map_option PStr (bt_interaction b)) @
       opt_kw ''required_widgets'' (if bt_required b \<noteq> [] then Some (PList (map PStr (bt_required b))) else None) @
       opt_kw ''persist_values'' (if bt_persist b then Some (PBool True) else None) @
       [(''load_indicator'', PStr (if bt_spinner b then ''SPINNER'' else ''NONE''))])"

lemma action_dict_msg:
  assumes "bt_interaction b \<noteq> Some []"
  shows "action_msg_of (action_dict b f) =
    \<lparr> am_function = f, am_params = bt_params b, am_interaction = bt_interaction b, am_required = bt_required b,
      am_persist = bt_persist b, am_load = (if bt_spinner b then ''SPINNER'' else ''NONE'') \<rparr>"
proof -
  have "text_of (action_dict b f) ''interaction'' = (case bt_interaction b of None \<Rightarrow> [] | Some s \<Rightarrow> s)"
    by (auto simp: action_dict_def text_of_def split: option.split)
  then have i: "nonempty (text_of (action_dict b f) ''interaction'') = bt_interaction b"
    using assms by (simp add: nonempty_opt)
  have p: "map pair_of (items_of (action_dict b f) ''parameters'') = bt_params b"
    by (simp add: action_dict_def items_of_def param_items_def)
  have r: "map str_of (items_of (action_dict b f) ''required_widgets'') = bt_required b"
    by (simp add: action_dict_def items_of_def)
  show ?thesis using i p r
    by (simp add: action_msg_of_def) (simp add: action_dict_def text_of_def)
qed

lemma plain_button_interaction: "plain_button b \<Longrightarrow> bt_interaction b \<noteq> Some []"
  and plain_button_params: "plain_button b \<Longrightarrow> dict_of (bt_params b) = bt_params b"
  by (simp_all add: plain_button_def)

lemma button_rebuilt:
  "bt_action b = Some f \<Longrightarrow> bt_link b = None \<Longrightarrow>
   \<lparr> bt_text = bt_text b, bt_action = Some f, bt_interaction = bt_interaction b, bt_params = bt_params b,
     bt_link = None, bt_color = bt_color b, bt_type = bt_type b, bt_disabled = bt_disabled b, bt_alt = bt_alt b,
     bt_required = bt_required b, bt_persist = bt_persist b, bt_spinner = bt_spinner b \<rparr> = b"
  "bt_action b = None \<Longrightarrow> bt_link b = Some u \<Longrightarrow>
   \<lparr> bt_text = bt_text b, bt_action = None, bt_interaction = None, bt_params = [],
     bt_link = Some u, bt_color = PNone, bt_type = bt_type b, bt_disabled = bt_disabled b, bt_alt = bt_alt b,
     bt_required = [], bt_persist = False, bt_spinner = False \<rparr> = without_action_fields b"
  by (cases b, simp) (cases b, simp add: without_action_fields_def)

lemma without_action_fields_init:
  "bt_action b = None \<Longrightarrow>
   (without_action_fields b)\<lparr> bt_action := None, bt_params := dict_update [] (bt_params (without_action_fields b)) \<rparr> =
     without_action_fields b"
  by (cases b) (simp add: without_action_fields_def)

lemma spinner_reads_back: "((if s then ''SPINNER'' else ''NONE'') = ''SPINNER'') = s"
  by simp

lemma nonempty_Some: "f \<noteq> [] \<Longrightarrow> nonempty f = Some f"
  by (simp add: nonempty_def)

text \<open>Buttons survive the SDK: a button with an action comes back from the message built of it with every
  field; of a button with a link the text, the link, its type, its alternative text and its state come back, and its
  colour is lost.\<close>

theorem button_round_trip:
  assumes "reads_back mk" and "plain_button b"
  shows "\<exists>d. button_kwargs b = Inr (PDict d) \<and>
    button_from_msg (mk d) = Inr (if bt_link b = None then b else without_action_fields b)"
proof (cases "bt_link b")
  case None
  then obtain f where f: "bt_action b = Some f" "f \<noteq> []" using assms(2) by (auto simp: plain_button_def)
  let ?d = "button_dict b [(PStr ''action'', PDict (action_dict b f))]"
  have d: "button_kwargs b = Inr (PDict ?d)"
    using f by (simp add: button_kwargs_def button_dict_def button_tail_def action_dict_def opt_kw_if opt_str_def)
  have "bm_click (mk ?d) = ActionMsg (action_msg_of (action_dict b f))"
    using assms by (simp add: reads_back_def button_dict_msg click_msg_of_def dict_at_def)
  then have "button_from_msg (mk ?d) = Inr b"
    using assms f None
    by (simp add: reads_back_def button_from_msg_def button_dict_msg action_dict_msg button_init_def nonempty_Some
        plain_button_interaction plain_button_params spinner_reads_back button_rebuilt cong: if_cong)
  then show ?thesis using d None by simp
next
  case (Some u)
  then have a: "bt_action b = None" using assms(2) by (auto simp: plain_button_def)
  let ?d = "button_dict b [(PStr ''open_link'', PDict [(PStr ''url'', PStr u)])]"
  have d: "button_kwargs b = Inr (PDict ?d)"
    using a Some by (simp add: button_kwargs_def button_dict_def button_tail_def opt_kw_if opt_str_def)
  have "bm_click (mk ?d) = LinkMsg u PNone"
    using assms by (simp add: reads_back_def button_dict_msg click_msg_of_def dict_at_def text_of_def)
  then have "button_from_msg (mk ?d) = Inr (without_action_fields b)"
    using assms a Some
    by (simp add: reads_back_def button_from_msg_def button_dict_msg button_init_def dict_of_def button_rebuilt
        without_action_fields_init)
  then show ?thesis using d Some by auto
qed

definition red_link :: button where
  "red_link =
     \<lparr> bt_text = ''Docs'', bt_action = None, bt_interaction = None, bt_params = [], bt_link = Some ''https://x'',
       bt_color = color_mapping (Fin 1, Fin 0, Fin 0, PNone), bt_type = None, bt_disabled = False, bt_alt = None,
       bt_required = [], bt_persist = False, bt_spinner = False \<rparr>"

lemma button_round_trip_witness:
  "\<exists>d. button_kwargs red_link = Inr (PDict d) \<and>
     button_from_msg (button_msg_of d) = Inr (red_link\<lparr> bt_color := PNone \<rparr>) \<and> bt_color red_link \<noteq> PNone"
proof -
  have "plain_button red_link" by (auto simp: plain_button_def red_link_def dict_ok_def)
  moreover have "reads_back button_msg_of" by (simp add: reads_back_def)
  moreover have "without_action_fields red_link = red_link\<lparr> bt_color := PNone \<rparr>" "bt_link red_link \<noteq> None"
    "bt_color red_link \<noteq> PNone"
    by (simp_all add: without_action_fields_def red_link_def color_mapping_def)
  ultimately show ?thesis using button_round_trip [of button_msg_of red_link] by auto
qed

end
