(* ===== verification/CardAssets.thy ===== *)
theory CardAssets
  imports Cards Effects
begin

text \<open>
  Publishing the local pictures of a card before it is sent (\<open>cards/_assets.py\<close>). Opening a file and the
  application's publisher are the outside world; every read and every publication is noted in the trace.
\<close>

section \<open>Reading and publishing\<close>

datatype asset_effect =
    FileRead string | FileFailed string exn_class | Published string | PublishFailed string exn_class

type_synonym ('w, 'a) asset_io = "(asset_effect, unit, 'w, unit, 'a) io"

type_synonym 'w opener = "string \<Rightarrow> 'w \<Rightarrow> 'w \<times> (pyexn, open_file) result"

type_synonym 'w publisher = "string \<Rightarrow> source_info \<Rightarrow> 'w \<Rightarrow> 'w \<times> (pyexn, pyval) result"

definition publish_error :: "(pyexn, 'a) result" where
  "publish_error = Inl (exn (Fw AssetPublishError))"

text \<open>\<open>_local_images\<close>: the positions of the local pictures, in order.\<close>

definition local_image :: "widget \<Rightarrow> image option" where
  "local_image w = (case w of ImageW im \<Rightarrow> if im_local im \<noteq> None then Some im else None | _ \<Rightarrow> None)"

definition section_images :: "nat \<Rightarrow> widget list \<Rightarrow> ((nat \<times> nat) \<times> image) list" where
  "section_images i ws = List.map_filter (\<lambda>(j, w). map_option (Pair (i, j)) (local_image w)) (enumerate 0 ws)"

definition local_images :: "card \<Rightarrow> ((nat \<times> nat) \<times> image) list" where
  "local_images c = concat (map (\<lambda>(i, s). section_images i (sc_widgets s)) (enumerate 0 (cd_sections c)))"

definition validate_card_assets :: "card option \<Rightarrow> 'p option \<Rightarrow> (pyexn, unit) result" where
  "validate_card_assets oc publisher =
     (case oc of
        None \<Rightarrow> Inr ()
      | Some c \<Rightarrow>
          if publisher = None \<and> local_images c \<noteq> [] then Inl (exn (Fw AssetPublisherNotConfigured)) else Inr ())"

text \<open>\<open>_read_regular_file\<close>.\<close>

definition regular_bytes :: "open_file \<Rightarrow> (pyexn, string) result" where
  "regular_bytes fd =
     (if \<not> is_regular (fd_stat fd) then publish_error
      else (let d = read_blocks (fd_blocks fd) in if d = [] then publish_error else Inr d))"

definition read_regular ::
    "'w opener \<Rightarrow> string \<Rightarrow> 'w \<Rightarrow> 'w \<times> (pyexn, string) result" where
  "read_regular opn p w =
     (case opn p w of
        (w', Inl x) \<Rightarrow> (w', Inl x)
      | (w', Inr fd) \<Rightarrow> (w', regular_bytes fd))"

text \<open>\<open>_source_bytes\<close>: a cancellation and an \<open>AssetPublishError\<close> pass, an \<open>OSError\<close> is translated.\<close>

definition translate_read :: "pyexn \<Rightarrow> ('w, 'a) asset_io" where
  "translate_read x =
     (if exn_cls x = Py CancelledError \<or> issubclass (exn_cls x) (Fw AssetPublishError) then throw x
      else if issubclass (exn_cls x) (Py OSErr) then throw (exn (Fw AssetPublishError))
      else throw x)"

definition source_bytes :: "'w opener \<Rightarrow> image \<Rightarrow> ('w, string) asset_io" where
  "source_bytes opn im =
     (case im_local im of
        Some (BytesSource d i) \<Rightarrow> ret d
      | Some (PathSource p i) \<Rightarrow>
          catch_io (world_call (\<lambda>_. FileRead p) (FileFailed p) (read_regular opn p)) translate_read
      | None \<Rightarrow> throw (exn (Fw AssetPublishError)))"

fun prepare_images ::
    "'w opener \<Rightarrow> ((nat \<times> nat) \<times> image) list \<Rightarrow> ('w, ((nat \<times> nat) \<times> image \<times> string) list) asset_io" where
  "prepare_images opn [] = ret []"
| "prepare_images opn ((k, im) # ims) =
     bind_io (source_bytes opn im) (\<lambda>d.
       bind_io (prepare_images opn ims) (\<lambda>ps. ret ((k, im, d) # ps)))"

text \<open>\<open>publisher.publish\<close> and what may be wrong with its answer.\<close>

definition translate_publish :: "pyexn \<Rightarrow> ('w, 'a) asset_io" where
  "translate_publish x =
     (if exn_cls x = Py CancelledError then throw x
      else if is_exception (exn_cls x) then throw (exn (Fw AssetPublishError))
      else throw x)"

definition checked_url ::
    "(string \<Rightarrow> (pyexn, string \<times> string) result) \<Rightarrow> image \<Rightarrow> pyval \<Rightarrow> (pyexn, image) result" where
  "checked_url urlp im v =
     (case v of
        PStr u \<Rightarrow>
          (case image_from_url urlp (Some u) (im_alt im) (im_click im) of
             Inr r \<Rightarrow> Inr r
           | Inl x \<Rightarrow> if issubclass (exn_cls x) (Py ValueErr) then publish_error else Inl x)
      | _ \<Rightarrow> publish_error)"

definition lift_res :: "(pyexn, 'a) result \<Rightarrow> ('w, 'a) asset_io" where
  "lift_res r = (case r of Inl x \<Rightarrow> throw x | Inr v \<Rightarrow> ret v)"

definition publish_image ::
    "(string \<Rightarrow> (pyexn, string \<times> string) result) \<Rightarrow> 'w publisher \<Rightarrow> image \<Rightarrow> string \<Rightarrow> ('w, image) asset_io" where
  "publish_image urlp pub im d =
     (let i = info_of (the (im_local im)) in
      bind_io
        (catch_io
          (world_call (\<lambda>_. Published (si_filename i)) (PublishFailed (si_filename i)) (pub d i))
          translate_publish)
        (\<lambda>v. lift_res (checked_url urlp im v)))"

fun publish_images ::
    "(string \<Rightarrow> (pyexn, string \<times> string) result) \<Rightarrow> 'w publisher \<Rightarrow> ((nat \<times> nat) \<times> image \<times> string) list
     \<Rightarrow> (nat \<times> nat, image) pdict \<Rightarrow> ('w, (nat \<times> nat, image) pdict) asset_io" where
  "publish_images urlp pub [] rs = ret rs"
| "publish_images urlp pub ((k, im, d) # ps) rs =
     bind_io (publish_image urlp pub im d) (\<lambda>r. publish_images urlp pub ps (dict_set k r rs))"

definition replace_images :: "(nat \<times> nat, image) pdict \<Rightarrow> card \<Rightarrow> card" where
  "replace_images rs c =
     \<lparr> cd_header = cd_header c,
       cd_sections = map (\<lambda>(i, s). s\<lparr> sc_widgets :=
         map (\<lambda>(j, w). case dict_get rs (i, j) of Some im \<Rightarrow> ImageW im | None \<Rightarrow> w) (enumerate 0 (sc_widgets s)) \<rparr>)
         (enumerate 0 (cd_sections c)),
       cd_name = cd_name c, cd_raw = None \<rparr>"

definition resolve_card_assets ::
    "(string \<Rightarrow> (pyexn, string \<times> string) result) \<Rightarrow> 'w opener \<Rightarrow> 'w publisher option \<Rightarrow> card
     \<Rightarrow> ('w, card) asset_io" where
  "resolve_card_assets urlp opn publisher c =
     (if local_images c = [] then ret c
      else bind_io (lift_res (validate_card_assets (Some c) publisher)) (\<lambda>_.
        bind_io (prepare_images opn (local_images c)) (\<lambda>ps.
          bind_io (publish_images urlp (the publisher) ps []) (\<lambda>rs. ret (replace_images rs c)))))"

section \<open>What a resolved card is\<close>

definition published :: "(string \<Rightarrow> (pyexn, string \<times> string) result) \<Rightarrow> image \<Rightarrow> image \<Rightarrow> bool" where
  "published urlp im im' \<longleftrightarrow> (\<exists>u. image_from_url urlp (Some u) (im_alt im) (im_click im) = Inr im')"

definition is_local :: "widget \<Rightarrow> bool" where
  "is_local w \<longleftrightarrow> (case w of ImageW im \<Rightarrow> im_local im \<noteq> None | _ \<Rightarrow> False)"

definition resolved_widget :: "(string \<Rightarrow> (pyexn, string \<times> string) result) \<Rightarrow> widget \<Rightarrow> widget \<Rightarrow> bool" where
  "resolved_widget urlp w w' \<longleftrightarrow>
     (if is_local w then \<exists>im im'. w = ImageW im \<and> w' = ImageW im' \<and> published urlp im im' else w' = w)"

definition resolves :: "(string \<Rightarrow> (pyexn, string \<times> string) result) \<Rightarrow> card \<Rightarrow> card \<Rightarrow> bool" where
  "resolves urlp c c' \<longleftrightarrow>
     cd_header c' = cd_header c \<and> cd_name c' = cd_name c \<and>
     list_all2 (\<lambda>s s'. sc_header s' = sc_header s \<and> list_all2 (resolved_widget urlp) (sc_widgets s) (sc_widgets s'))
       (cd_sections c) (cd_sections c')"

definition file_reads :: "((nat \<times> nat) \<times> image) list \<Rightarrow> asset_effect list" where
  "file_reads ims =
     List.map_filter (\<lambda>(k, im). case im_local im of Some (PathSource p i) \<Rightarrow> Some (FileRead p) | _ \<Rightarrow> None) ims"

definition publications :: "((nat \<times> nat) \<times> image) list \<Rightarrow> asset_effect list" where
  "publications ims = map (\<lambda>(k, im). Published (si_filename (info_of (the (im_local im))))) ims"

fun is_publication :: "asset_effect \<Rightarrow> bool" where
  "is_publication (Published f) = True"
| "is_publication (PublishFailed f c) = True"
| "is_publication e = False"

lemma in_map_filter: "y \<in> set (List.map_filter f xs) \<longleftrightarrow> (\<exists>x \<in> set xs. f x = Some y)"
  by (induction xs) (auto simp: List.map_filter_simps split: option.splits)

lemma in_enumerate: "(j, w) \<in> set (enumerate 0 ws) \<longleftrightarrow> j < length ws \<and> ws ! j = w"
  by (simp add: in_set_enumerate_eq)

lemma local_image_iff: "local_image w = Some im \<longleftrightarrow> w = ImageW im \<and> im_local im \<noteq> None"
  by (cases w) (auto simp: local_image_def)

lemma section_images_in:
  "((i', j), im) \<in> set (section_images i ws) \<longleftrightarrow>
   i' = i \<and> j < length ws \<and> ws ! j = ImageW im \<and> im_local im \<noteq> None"
proof
  assume "((i', j), im) \<in> set (section_images i ws)"
  then show "i' = i \<and> j < length ws \<and> ws ! j = ImageW im \<and> im_local im \<noteq> None"
    by (auto simp: section_images_def in_map_filter in_enumerate local_image_iff)
next
  assume "i' = i \<and> j < length ws \<and> ws ! j = ImageW im \<and> im_local im \<noteq> None"
  then show "((i', j), im) \<in> set (section_images i ws)"
    unfolding section_images_def in_map_filter
    by (intro bexI [of _ "(j, ImageW im)"]) (auto simp: in_enumerate local_image_iff)
qed

lemma local_images_in:
  "((i, j), im) \<in> set (local_images c) \<longleftrightarrow>
   i < length (cd_sections c) \<and> j < length (sc_widgets (cd_sections c ! i)) \<and>
   sc_widgets (cd_sections c ! i) ! j = ImageW im \<and> im_local im \<noteq> None"
proof
  assume "((i, j), im) \<in> set (local_images c)"
  then show "i < length (cd_sections c) \<and> j < length (sc_widgets (cd_sections c ! i)) \<and>
     sc_widgets (cd_sections c ! i) ! j = ImageW im \<and> im_local im \<noteq> None"
    by (auto simp: local_images_def in_enumerate section_images_in)
next
  assume "i < length (cd_sections c) \<and> j < length (sc_widgets (cd_sections c ! i)) \<and>
     sc_widgets (cd_sections c ! i) ! j = ImageW im \<and> im_local im \<noteq> None"
  then show "((i, j), im) \<in> set (local_images c)"
    unfolding local_images_def set_concat set_map image_image
    by (intro UN_I [of "(i, cd_sections c ! i)"]) (auto simp: in_enumerate section_images_in)
qed

lemma no_local_images:
  "local_images c = [] \<longleftrightarrow> list_all (\<lambda>s. list_all (\<lambda>w. \<not> is_local w) (sc_widgets s)) (cd_sections c)"
proof -
  have "local_images c = [] \<longleftrightarrow> (\<forall>i j im. ((i, j), im) \<notin> set (local_images c))"
    by (metis list.set_intros(1) neq_Nil_conv prod.exhaust empty_iff list.set(1))
  also have "\<dots> \<longleftrightarrow> (\<forall>i < length (cd_sections c). \<forall>j < length (sc_widgets (cd_sections c ! i)).
      \<not> is_local (sc_widgets (cd_sections c ! i) ! j))"
    unfolding local_images_in is_local_def by (auto split: widget.splits)
  finally show ?thesis by (simp add: list_all_length)
qed

lemma resolves_no_local: "resolves urlp c c' \<Longrightarrow> local_images c' = []"
proof -
  have one: "resolved_widget urlp w w' \<Longrightarrow> \<not> is_local w'" for w w'
    by (auto simp: resolved_widget_def is_local_def published_def image_from_url_def bind_res_Inr_iff split: if_splits)
  assume "resolves urlp c c'"
  then show ?thesis using one unfolding no_local_images resolves_def list_all_length list_all2_conv_all_nth by metis
qed

lemma replace_resolves:
  assumes "\<And>k im'. dict_get rs k = Some im' \<Longrightarrow> \<exists>im. (k, im) \<in> set (local_images c) \<and> published urlp im im'"
    and "\<And>k im. (k, im) \<in> set (local_images c) \<Longrightarrow> dict_has rs k"
  shows "resolves urlp c (replace_images rs c)"
proof -
  have "resolved_widget urlp w (case dict_get rs (i, j) of Some im \<Rightarrow> ImageW im | None \<Rightarrow> w)"
    if ij: "i < length (cd_sections c)" "j < length (sc_widgets (cd_sections c ! i))"
      and w: "w = sc_widgets (cd_sections c ! i) ! j" for i j w
  proof (cases "is_local w")
    case True
    then obtain im where im: "w = ImageW im" "im_local im \<noteq> None" by (auto simp: is_local_def split: widget.splits)
    then have "((i, j), im) \<in> set (local_images c)" using ij w by (simp add: local_images_in)
    then obtain im' where g: "dict_get rs (i, j) = Some im'"
      using assms(2) [of "(i, j)" im] by (auto simp: dict_has_def)
    then obtain im2 where "((i, j), im2) \<in> set (local_images c)" "published urlp im2 im'" using assms(1) by blast
    then have "published urlp im im'" using im w by (simp add: local_images_in)
    then show ?thesis using True im g by (simp add: resolved_widget_def)
  next
    case False
    then have "dict_get rs (i, j) = None" using assms(1) [of "(i, j)"] w
      by (cases "dict_get rs (i, j)") (auto simp: local_images_in is_local_def)
    then show ?thesis using False by (simp add: resolved_widget_def)
  qed
  then show ?thesis
    by (simp add: resolves_def replace_images_def list_all2_conv_all_nth nth_enumerate_eq)
qed

section \<open>Resolving\<close>

text \<open>How reading and publishing fail: what is not an \<open>OSError\<close> is passed on by the reader, what is not an
  \<open>Exception\<close> by the publisher; everything else is an \<open>AssetPublishError\<close>.\<close>

definition read_failure :: "pyexn \<Rightarrow> bool" where
  "read_failure x \<longleftrightarrow> issubclass (exn_cls x) (Fw AssetPublishError) \<or> \<not> issubclass (exn_cls x) (Py OSErr)"

definition publish_failure :: "pyexn \<Rightarrow> bool" where
  "publish_failure x \<longleftrightarrow> exn_cls x = Fw AssetPublishError \<or> \<not> is_exception (exn_cls x)"

text \<open>\<open>urlparse\<close> raises nothing but \<open>ValueError\<close>.\<close>

definition url_errors_ok :: "(string \<Rightarrow> (pyexn, string \<times> string) result) \<Rightarrow> bool" where
  "url_errors_ok urlp \<longleftrightarrow> (\<forall>u x. urlp u = Inl x \<longrightarrow> issubclass (exn_cls x) (Py ValueErr))"

lemma emits_bind_given:
  assumes m: "emits m Q" and f: "\<And>v t. Q t (Inr v) \<Longrightarrow> emits (f v) R"
  shows "emits (bind_io m f)
    (\<lambda>t r. (\<exists>x. r = Inl x \<and> Q t (Inl x)) \<or> (\<exists>v t1 t2. t = t1 @ t2 \<and> Q t1 (Inr v) \<and> R t2 r))"
  unfolding emits_def
proof (intro allI impI)
  fix s s' r assume run: "bind_io m f s = (s', r)"
  obtain s1 r1 where ms: "m s = (s1, r1)" by (cases "m s")
  with m obtain t1 where t1: "rs_trace s1 = rs_trace s @ t1" "Q t1 r1" by (rule emitsE)
  show "\<exists>t. rs_trace s' = rs_trace s @ t \<and>
      ((\<exists>x. r = Inl x \<and> Q t (Inl x)) \<or> (\<exists>v t1 t2. t = t1 @ t2 \<and> Q t1 (Inr v) \<and> R t2 r))"
  proof (cases r1)
    case (Inl x)
    with run ms t1 show ?thesis by (auto simp: bind_io_def)
  next
    case (Inr v)
    with run ms have "f v s1 = (s', r)" by (simp add: bind_io_def)
    with f [of t1 v] t1 Inr obtain t2 where "rs_trace s' = rs_trace s1 @ t2" "R t2 r" by (metis emitsE)
    with t1 Inr show ?thesis by (intro exI [of _ "t1 @ t2"]) auto
  qed
qed

lemma lift_bind: "bind_io (lift_res (Inr v)) f = f v"
  by (simp add: fun_eq_iff bind_io_def lift_res_def ret_def)

lemma emits_lift [emits]: "emits (lift_res r) (\<lambda>t q. t = [] \<and> q = r)"
  by (cases r) (simp_all add: lift_res_def emits_def throw_def ret_def)

lemma cancelled_not_os: "\<not> issubclass (Py CancelledError) (Py OSErr)"
  by code_simp

lemma emits_translate_read: "emits (translate_read x) (\<lambda>t r. t = [] \<and> (\<exists>y. r = Inl y \<and> read_failure y))"
  by (auto simp: translate_read_def emits_def throw_def read_failure_def issubclass_refl cancelled_not_os)

lemma emits_source:
  assumes "im_local im \<noteq> None"
  shows "emits (source_bytes opn im)
    (\<lambda>t r. (\<exists>d. r = Inr d \<and> t = file_reads [(k, im)]) \<or>
       (\<exists>x. r = Inl x \<and> list_all (\<lambda>e. \<not> is_publication e) t \<and> read_failure x))"
proof (cases "the (im_local im)")
  case (BytesSource d i)
  then have "source_bytes opn im = ret d" using assms by (auto simp: source_bytes_def)
  moreover have "file_reads [(k, im)] = []"
    using BytesSource assms by (auto simp: file_reads_def List.map_filter_simps)
  ultimately show ?thesis by (simp add: emits_def ret_def)
next
  case (PathSource p i)
  have f: "file_reads [(k, im)] = [FileRead p]"
    using PathSource assms by (auto simp: file_reads_def List.map_filter_simps)
  have "emits (catch_io (world_call (\<lambda>_. FileRead p) (FileFailed p) (read_regular opn p)) translate_read)
    (\<lambda>t r. (\<exists>d. r = Inr d \<and> t = [FileRead p]) \<or>
       (\<exists>x. r = Inl x \<and> list_all (\<lambda>e. \<not> is_publication e) t \<and> read_failure x))"
    by (rule emits_weaken, rule emits_catch [OF emits_world [where P = "\<lambda>_. True"] emits_translate_read]) auto
  then show ?thesis using PathSource assms f by (auto simp: source_bytes_def)
qed

lemma file_reads_Cons: "file_reads (x # xs) = file_reads [x] @ file_reads xs"
  by (simp add: file_reads_def List.map_filter_simps split: option.split)

lemma emits_prepare:
  "list_all (\<lambda>(k, im). im_local im \<noteq> None) ims \<Longrightarrow>
   emits (prepare_images opn ims)
    (\<lambda>t r. (\<exists>ps. r = Inr ps \<and> t = file_reads ims \<and> map (\<lambda>(k, im, d). (k, im)) ps = ims) \<or>
       (\<exists>x. r = Inl x \<and> list_all (\<lambda>e. \<not> is_publication e) t \<and> read_failure x))"
proof (induction ims)
  case Nil
  then show ?case by (simp add: emits_def ret_def file_reads_def List.map_filter_simps)
next
  case (Cons kim ims)
  obtain k im where kim: "kim = (k, im)" by (cases kim)
  have src: "im_local im \<noteq> None" and tl: "list_all (\<lambda>(k, im). im_local im \<noteq> None) ims"
    using Cons.prems kim by simp_all
  have reads: "list_all (\<lambda>e. \<not> is_publication e) (file_reads xs)" for xs
    by (auto simp: list_all_iff file_reads_def in_map_filter split: option.splits local_source.splits)
  have step: "emits (bind_io (prepare_images opn ims) (\<lambda>ps. ret ((k, im, d) # ps)))
    (\<lambda>t r. (\<exists>ps. r = Inr ((k, im, d) # ps) \<and> t = file_reads ims \<and> map (\<lambda>(k, im, d). (k, im)) ps = ims) \<or>
       (\<exists>x. r = Inl x \<and> list_all (\<lambda>e. \<not> is_publication e) t \<and> read_failure x))" for d
    by (rule emits_weaken, rule emits_bind [OF Cons.IH [OF tl] emits_ret]) auto
  show ?case unfolding kim prepare_images.simps
    by (rule emits_weaken, rule emits_bind [OF emits_source [OF src, of opn k] step])
      (use reads file_reads_Cons [of "(k, im)" ims] in auto)
qed

lemma emits_translate_publish:
  "emits (translate_publish x) (\<lambda>t r. t = [] \<and> (\<exists>y. r = Inl y \<and> publish_failure y))"
  by (auto simp: translate_publish_def emits_def throw_def publish_failure_def)

lemma checked_url_ok:
  assumes "url_errors_ok urlp"
  shows "(\<exists>im'. checked_url urlp im v = Inr im' \<and> published urlp im im') \<or>
    (\<exists>x. checked_url urlp im v = Inl x \<and> publish_failure x)"
proof (cases v)
  case (PStr u)
  show ?thesis
  proof (cases "image_from_url urlp (Some u) (im_alt im) (im_click im)")
    case (Inl x)
    then have "issubclass (exn_cls x) (Py ValueErr)"
      using assms by (auto simp: image_from_url_def validate_url_def bind_res_Inl_iff url_errors_ok_def issubclass_refl
          split: if_splits)
    then show ?thesis using PStr Inl by (simp add: checked_url_def publish_error_def publish_failure_def)
  next
    case (Inr r)
    then show ?thesis using PStr by (auto simp: checked_url_def published_def)
  qed
qed (simp_all add: checked_url_def publish_error_def publish_failure_def)

lemma emits_publish:
  assumes "url_errors_ok urlp" "im_local im \<noteq> None"
  shows "emits (publish_image urlp pub im d)
    (\<lambda>t r. (\<exists>im'. r = Inr im' \<and> t = publications [(k, im)] \<and> published urlp im im') \<or>
       (\<exists>x. r = Inl x \<and> list_all is_publication t \<and> publish_failure x))"
proof -
  let ?i = "info_of (the (im_local im))"
  have call: "emits (catch_io (world_call (\<lambda>_. Published (si_filename ?i)) (PublishFailed (si_filename ?i)) (pub d ?i))
      translate_publish)
    (\<lambda>t r. (\<exists>v. r = Inr v \<and> t = publications [(k, im)]) \<or>
       (\<exists>x. r = Inl x \<and> list_all is_publication t \<and> publish_failure x))"
    by (rule emits_weaken, rule emits_catch [OF emits_world [where P = "\<lambda>_. True"] emits_translate_publish])
      (auto simp: publications_def)
  show ?thesis unfolding publish_image_def Let_def
  proof (rule emits_weaken, rule emits_bind [OF call emits_lift])
    fix t r
    assume "(\<exists>x. r = Inl x \<and> ((\<exists>v. Inl x = Inr v \<and> t = publications [(k, im)]) \<or>
        (\<exists>xa. Inl x = Inl xa \<and> list_all is_publication t \<and> publish_failure xa))) \<or>
      (\<exists>v t1 t2. t = t1 @ t2 \<and> ((\<exists>va. Inr v = Inr va \<and> t1 = publications [(k, im)]) \<or>
        (\<exists>x. Inr v = Inl x \<and> list_all is_publication t1 \<and> publish_failure x)) \<and>
        t2 = [] \<and> r = checked_url urlp im v)"
    then consider (failed) x where "r = Inl x" "list_all is_publication t" "publish_failure x"
      | (answered) v where "t = publications [(k, im)]" "r = checked_url urlp im v" by auto
    then show "(\<exists>im'. r = Inr im' \<and> t = publications [(k, im)] \<and> published urlp im im') \<or>
       (\<exists>x. r = Inl x \<and> list_all is_publication t \<and> publish_failure x)"
    proof cases
      case answered
      then show ?thesis using checked_url_ok [OF assms(1), of im v] by (auto simp: publications_def)
    qed simp
  qed
qed

text \<open>The replacements after publishing: one for every picture, and nothing else.\<close>

definition replaces ::
    "(string \<Rightarrow> (pyexn, string \<times> string) result) \<Rightarrow> ((nat \<times> nat) \<times> image) list \<Rightarrow> (nat \<times> nat, image) pdict
     \<Rightarrow> (nat \<times> nat, image) pdict \<Rightarrow> bool" where
  "replaces urlp ims rs rs' \<longleftrightarrow>
     (\<forall>k im'. dict_get rs' k = Some im' \<longrightarrow> dict_get rs k = Some im' \<or> (\<exists>im. (k, im) \<in> set ims \<and> published urlp im im')) \<and>
     (\<forall>k. dict_has rs k \<or> k \<in> fst ` set ims \<longrightarrow> dict_has rs' k)"

lemma replaces_step:
  "published urlp im r \<Longrightarrow> replaces urlp ims (dict_set k r rs) rs' \<Longrightarrow> replaces urlp ((k, im) # ims) rs rs'"
proof -
  assume r: "published urlp im r" and R: "replaces urlp ims (dict_set k r rs) rs'"
  have "dict_get rs k' = Some im' \<or> (\<exists>im0. (k', im0) \<in> set ((k, im) # ims) \<and> published urlp im0 im')"
    if "dict_get rs' k' = Some im'" for k' im'
  proof -
    have "dict_get (dict_set k r rs) k' = Some im' \<or> (\<exists>im0. (k', im0) \<in> set ims \<and> published urlp im0 im')"
      using R that unfolding replaces_def by blast
    then show ?thesis using r by (cases "k = k'") auto
  qed
  moreover have "dict_has rs' k'" if "dict_has rs k' \<or> k' \<in> fst ` set ((k, im) # ims)" for k'
  proof -
    have "\<forall>j. dict_has (dict_set k r rs) j \<or> j \<in> fst ` set ims \<longrightarrow> dict_has rs' j"
      using R unfolding replaces_def by blast
    from this [rule_format, of k'] that show ?thesis by auto
  qed
  ultimately show ?thesis unfolding replaces_def by blast
qed

lemma emits_publish_images:
  assumes "url_errors_ok urlp"
  shows "list_all (\<lambda>(k, im, d). im_local im \<noteq> None) ps \<Longrightarrow>
   emits (publish_images urlp pub ps rs)
    (\<lambda>t r. (\<exists>rs'. r = Inr rs' \<and> t = publications (map (\<lambda>(k, im, d). (k, im)) ps) \<and>
        replaces urlp (map (\<lambda>(k, im, d). (k, im)) ps) rs rs') \<or>
       (\<exists>x. r = Inl x \<and> list_all is_publication t \<and> publish_failure x))"
proof (induction ps arbitrary: rs)
  case Nil
  then show ?case by (simp add: emits_def ret_def publications_def replaces_def)
next
  case (Cons p ps)
  obtain k im d where p: "p = (k, im, d)" by (cases p)
  have src: "im_local im \<noteq> None" and tl: "list_all (\<lambda>(k, im, d). im_local im \<noteq> None) ps"
    using Cons.prems p by simp_all
  have pubs: "list_all is_publication (publications xs)" for xs
    by (auto simp: list_all_iff publications_def)
  show ?case unfolding p publish_images.simps
    by (rule emits_weaken, rule emits_bind [OF emits_publish [OF assms src, of pub d k] Cons.IH [OF tl]])
      (use pubs in \<open>auto simp: publications_def intro: replaces_step\<close>)
qed

lemma images_are_local: "list_all (\<lambda>(k, im). im_local im \<noteq> None) (local_images c)"
proof -
  have "im_local im \<noteq> None" if "((i, j), im) \<in> set (local_images c)" for i j im
    using that by (simp add: local_images_in)
  then show ?thesis by (auto simp: list_all_iff)
qed

text \<open>C18. Publishing the local pictures of a card is all or nothing and keeps the card: every file is read before
  anything is published, and each picture is published once, in the order of the card. The card that comes back
  has no local picture left and differs from the original only in those pictures, each with a checked HTTPS
  address and its own text and click. When it fails nothing comes back, and the failure is
  \<open>AssetPublishError\<close> (or that no publisher is configured), except for what the reader raises besides
  \<open>OSError\<close> and what is not an \<open>Exception\<close>.\<close>

theorem card_assets_resolved:
  assumes "url_errors_ok urlp"
  shows "emits (resolve_card_assets urlp opn publisher c)
    (\<lambda>t r. case r of
       Inr c' \<Rightarrow> local_images c' = [] \<and>
         (if local_images c = [] then c' = c \<and> t = []
          else resolves urlp c c' \<and> publisher \<noteq> None \<and>
            t = file_reads (local_images c) @ publications (local_images c))
     | Inl x \<Rightarrow> local_images c \<noteq> [] \<and>
         ((publisher = None \<and> x = exn (Fw AssetPublisherNotConfigured) \<and> t = []) \<or>
          (list_all (\<lambda>e. \<not> is_publication e) t \<and> read_failure x) \<or>
          (\<exists>ts. t = file_reads (local_images c) @ ts \<and> list_all is_publication ts \<and> publish_failure x)))"
proof (cases "local_images c = []")
  case True
  then show ?thesis by (simp add: resolve_card_assets_def emits_def ret_def)
next
  case False
  show ?thesis
  proof (cases publisher)
    case None
    then show ?thesis using False
      by (simp add: resolve_card_assets_def validate_card_assets_def emits_def bind_io_def lift_res_def throw_def)
  next
    case (Some pub)
    let ?L = "local_images c"
    let ?Q = "\<lambda>t r. (\<exists>c'. r = Inr c' \<and> resolves urlp c c' \<and> t = publications ?L) \<or>
      (\<exists>x. r = Inl x \<and> list_all is_publication t \<and> publish_failure x)"
    have pub: "emits (bind_io (publish_images urlp pub ps []) (\<lambda>rs. ret (replace_images rs c))) ?Q"
      if ps: "map (\<lambda>(k, im, d). (k, im)) ps = ?L" for ps
    proof -
      have loc: "list_all (\<lambda>(k, im, d). im_local im \<noteq> None) ps"
        using images_are_local [of c] unfolding ps [symmetric] by (auto simp: list_all_iff)
      have ok: "resolves urlp c (replace_images rs c)" if R: "replaces urlp ?L [] rs" for rs
      proof (rule replace_resolves)
        show "\<exists>im. (k, im) \<in> set ?L \<and> published urlp im im'" if "dict_get rs k = Some im'" for k im'
          using R that unfolding replaces_def by fastforce
        show "dict_has rs k" if "(k, im) \<in> set ?L" for k im
          using R that unfolding replaces_def by (metis fst_conv image_eqI)
      qed
      show ?thesis
        by (rule emits_weaken, rule emits_bind [OF emits_publish_images [OF assms loc] emits_ret])
          (use ok ps in auto)
    qed
    have run: "resolve_card_assets urlp opn publisher c =
      bind_io (prepare_images opn ?L) (\<lambda>ps. bind_io (publish_images urlp pub ps []) (\<lambda>rs. ret (replace_images rs c)))"
      using False Some by (simp add: resolve_card_assets_def validate_card_assets_def lift_bind)
    define G where "G = (\<lambda>t r. case r of
       Inr c' \<Rightarrow> local_images c' = [] \<and>
         (if local_images c = [] then c' = c \<and> t = []
          else resolves urlp c c' \<and> publisher \<noteq> None \<and>
            t = file_reads (local_images c) @ publications (local_images c))
     | Inl x \<Rightarrow> local_images c \<noteq> [] \<and>
         ((publisher = None \<and> x = exn (Fw AssetPublisherNotConfigured) \<and> t = []) \<or>
          (list_all (\<lambda>e. \<not> is_publication e) t \<and> read_failure x) \<or>
          (\<exists>ts. t = file_reads (local_images c) @ ts \<and> list_all is_publication ts \<and> publish_failure x)))"
    have A: "G t (Inl x)" if "list_all (\<lambda>e. \<not> is_publication e) t" "read_failure x" for t x
      using that False by (simp add: G_def)
    have B: "G (file_reads ?L @ t) r" if "?Q t r" for t r
      using that False Some resolves_no_local [of urlp c] by (auto simp: G_def)
    have "emits (resolve_card_assets urlp opn publisher c) G" unfolding run
    proof (rule emits_weaken, rule emits_bind_given [OF emits_prepare [OF images_are_local]])
      show "emits (bind_io (publish_images urlp pub ps []) (\<lambda>rs. ret (replace_images rs c))) ?Q"
        if "(\<exists>qs. Inr ps = Inr qs \<and> t = file_reads ?L \<and> map (\<lambda>(k, im, d). (k, im)) qs = ?L) \<or>
          (\<exists>x. Inr ps = Inl x \<and> list_all (\<lambda>e. \<not> is_publication e) t \<and> read_failure x)" for ps t
        using that by (intro pub) auto
    qed (use A B in fastforce)
    then show ?thesis unfolding G_def .
  qed
qed

text \<open>A card with one generated picture.\<close>

definition chart_image :: image where
  "chart_image =
     image_from_source (BytesSource ''data''
       \<lparr> si_filename = ''chart.png'', si_content_type = ''image/png'', si_namespace = None \<rparr>) None None"

definition chart_card :: card where
  "chart_card =
     \<lparr> cd_header = None, cd_sections = [\<lparr> sc_header = None, sc_widgets = [Divider, ImageW chart_image] \<rparr>],
       cd_name = None, cd_raw = None \<rparr>"

definition no_files :: "unit opener" where
  "no_files p w = (w, Inl (exn (Py FileNotFoundErr)))"

definition fixed_publisher :: "unit publisher" where
  "fixed_publisher d i w = (w, Inr (PStr ''https://cdn/chart.png''))"

definition idle :: "(asset_effect, unit, unit, unit) run_state" where
  "idle = \<lparr> rs_store = (), rs_world = (), rs_own = (), rs_trace = [] \<rparr>"

lemma card_assets_resolved_witness:
  "\<exists>s' c'. resolve_card_assets (\<lambda>u. Inr (''https'', u)) no_files (Some fixed_publisher) chart_card idle = (s', Inr c') \<and>
     local_images c' = [] \<and> rs_trace s' = [Published ''chart.png'']"
proof -
  have imgs: "local_images chart_card = [((0, 1), chart_image)]"
    by (simp add: local_images_def section_images_def chart_card_def List.map_filter_simps local_image_def
        chart_image_def image_from_source_def)
  have im: "im_local chart_image = Some (BytesSource ''data''
       \<lparr> si_filename = ''chart.png'', si_content_type = ''image/png'', si_namespace = None \<rparr>)"
    by (simp add: chart_image_def image_from_source_def)
  have "\<exists>s' c'. resolve_card_assets (\<lambda>u. Inr (''https'', u)) no_files (Some fixed_publisher) chart_card idle = (s', Inr c')"
    by (simp add: resolve_card_assets_def imgs validate_card_assets_def lift_bind source_bytes_def im publish_image_def
        bind_io_def ret_def catch_io_def world_call_def fixed_publisher_def checked_url_def image_from_url_def
        validate_url_def lift_res_def Let_def idle_def)
  then obtain s' c' where r: "resolve_card_assets (\<lambda>u. Inr (''https'', u)) no_files (Some fixed_publisher) chart_card idle =
    (s', Inr c')" by blast
  have "url_errors_ok (\<lambda>u. Inr (''https'', u))" by (simp add: url_errors_ok_def)
  from emitsE [OF card_assets_resolved [OF this] r]
  have "local_images c' = []" "rs_trace s' = rs_trace idle @ (file_reads (local_images chart_card) @ publications (local_images chart_card))"
    using imgs by (auto split: if_splits)
  then show ?thesis using r by (simp add: imgs idle_def file_reads_def publications_def List.map_filter_simps im)
qed

end
