(* ===== verification/GcsPublisher.thy ===== *)
theory GcsPublisher
  imports Cards Effects
begin

text \<open>
  The Cloud Storage publisher (\<open>integrations/gcs/__init__.py\<close>): its configuration, the name of an object and the
  publication. The client library, \<open>urlparse\<close> and the fresh hexadecimal name are parameters; strings are read as
  their UTF-8 bytes where they are quoted.
\<close>

section \<open>Configuration\<close>

definition no_trailing_slash :: "string \<Rightarrow> string" where
  "no_trailing_slash s = rev (dropWhile (\<lambda>c. c = CHR ''/'') (rev s))"

text \<open>\<open>_prefix\<close>; the parts of a relative path are those between the slashes, without the empty ones and the dots.\<close>

definition gcs_prefix :: "string \<Rightarrow> (pyexn, string) result" where
  "gcs_prefix v =
     (if py_startswith v ''/'' \<or> ''..'' \<in> set (split_on (CHR ''/'') v) then Inl (exn (Py ValueErr))
      else Inr (if v = [] then [] else no_trailing_slash v @ ''/''))"

record gcs =
  gcs_bucket :: string
  gcs_namespaces :: "(string, string) pdict"
  gcs_default :: "string option"
  gcs_base :: string
  gcs_timeout :: rat
  gcs_cache :: "string option"

definition unstripped :: "string \<Rightarrow> bool" where
  "unstripped s \<longleftrightarrow> s = [] \<or> s \<noteq> py_strip s"

definition hex_digit :: "nat \<Rightarrow> char" where
  "hex_digit n = ''0123456789ABCDEF'' ! n"

definition plain_char :: "char \<Rightarrow> bool" where
  "plain_char c \<longleftrightarrow>
     (let n = of_char c :: nat
      in 48 \<le> n \<and> n \<le> 57 \<or> 65 \<le> n \<and> n \<le> 90 \<or> 97 \<le> n \<and> n \<le> 122 \<or> c \<in> set ''_.-~'')"

text \<open>\<open>urllib.parse.quote\<close>.\<close>

definition quote :: "string \<Rightarrow> string \<Rightarrow> string" where
  "quote safe s =
     concat (map (\<lambda>c. if plain_char c \<or> c \<in> set safe then [c]
                      else (let n = of_char c :: nat in [CHR ''%'', hex_digit (n div 16), hex_digit (n mod 16)])) s)"

definition check_namespace :: "string \<times> string \<Rightarrow> (pyexn, string \<times> string) result" where
  "check_namespace kv =
     (if unstripped (fst kv) then Inl (exn (Py ValueErr)) else map_sum id (Pair (fst kv)) (gcs_prefix (snd kv)))"

text \<open>\<open>urlparse\<close> gives the scheme and the network location, or raises.\<close>

definition gcs_init ::
    "(string \<Rightarrow> (pyexn, string \<times> string) result) \<Rightarrow> string \<Rightarrow> (string, string) pdict \<Rightarrow> string option \<Rightarrow> bool \<Rightarrow> bool
     \<Rightarrow> string option \<Rightarrow> rat \<Rightarrow> string option \<Rightarrow> (pyexn, gcs) result" where
  "gcs_init urlparse bucket spaces dflt has_client has_auth base timeout cache =
     (if unstripped bucket then Inl (exn (Py ValueErr))
      else if timeout \<le> 0 then Inl (exn (Py ValueErr))
      else if has_client \<and> has_auth then Inl (exn (Py ValueErr))
      else bind_res (traverse check_namespace spaces) (\<lambda>m.
        if (case dflt of Some d \<Rightarrow> \<not> dict_has m d | None \<Rightarrow> False) then Inl (exn (Py ValueErr))
        else (let url = (case base of Some b \<Rightarrow> b | None \<Rightarrow> ''https://storage.googleapis.com/'' @ quote [] bucket)
              in bind_res (urlparse url) (\<lambda>(scheme, netloc).
                   if scheme \<noteq> ''https'' \<or> netloc = [] then Inl (exn (Py ValueErr))
                   else Inr \<lparr> gcs_bucket = bucket, gcs_namespaces = m, gcs_default = dflt,
                              gcs_base = no_trailing_slash url, gcs_timeout = timeout, gcs_cache = cache \<rparr>))))"

section \<open>Publication\<close>

definition object_name :: "gcs \<Rightarrow> string \<Rightarrow> string option \<Rightarrow> string \<Rightarrow> (pyexn, string) result" where
  "object_name g fname ns uuid =
     (if fname = [] \<or> path_name fname \<noteq> fname \<or> CHR 0x5C \<in> set fname then Inl (exn (Fw AssetPublishError))
      else (case (if ns = None then gcs_default g else ns) of
              None \<Rightarrow> Inr (uuid @ ''-'' @ fname)
            | Some k \<Rightarrow>
                (case dict_get (gcs_namespaces g) k of
                   None \<Rightarrow> Inl (exn (Fw AssetPublishError))
                 | Some p \<Rightarrow> Inr (p @ uuid @ ''-'' @ fname))))"

datatype gcs_event = Put string string string "string option" rat | Put_failed string exn_class

definition publish ::
    "(string \<Rightarrow> string \<Rightarrow> string \<Rightarrow> 'w \<Rightarrow> 'w \<times> (pyexn, unit) result) \<Rightarrow> gcs \<Rightarrow> string \<Rightarrow> string \<Rightarrow> string \<Rightarrow> string option \<Rightarrow> string
     \<Rightarrow> (gcs_event, unit, 'w, unit, string) io" where
  "publish put g bytes fname ctype ns uuid =
     (case object_name g fname ns uuid of
        Inl x \<Rightarrow> throw x
      | Inr n \<Rightarrow>
          bind_io (world_call (\<lambda>u. Put n bytes ctype (gcs_cache g) (gcs_timeout g)) (Put_failed n) (put n bytes ctype)) (\<lambda>u.
            ret (gcs_base g @ ''/'' @ quote ''/'' n)))"

section \<open>Where objects go\<close>

lemma split_ne: "split_on c xs \<noteq> []"
  by (cases xs) (auto split: list.split)

lemma split_Cons:
  "split_on c (x # xs) = (if x = c then [] # split_on c xs else (x # hd (split_on c xs)) # tl (split_on c xs))"
  using split_ne [of c xs] by (cases "split_on c xs") auto

lemma split_parts: "p \<in> set (split_on c xs) \<Longrightarrow> c \<notin> set p"
proof (induction xs arbitrary: p)
  case (Cons x xs)
  have h: "hd (split_on c xs) \<in> set (split_on c xs)" "set (tl (split_on c xs)) \<subseteq> set (split_on c xs)"
    using split_ne [of c xs] by (simp_all add: list.set_sel)
      (metis list.set_sel(2) subsetI split_ne)
  have "p = [] \<or> p \<in> set (split_on c xs) \<or> (x \<noteq> c \<and> p = x # hd (split_on c xs))"
    using Cons.prems h(2) unfolding split_Cons by (auto split: if_splits)
  then show ?case using Cons.IH h(1) by auto
qed simp

lemma split_snoc: "split_on c (xs @ [c]) = split_on c xs @ [[]]"
proof (induction xs)
  case (Cons x xs)
  then show ?case using split_ne [of c xs] by (simp del: split_on.simps add: split_Cons)
qed simp

lemma split_slashes: "set (split_on c (xs @ replicate k c)) = set (split_on c xs) \<union> (if k = 0 then {} else {[]})"
proof (induction k)
  case (Suc k)
  have "xs @ replicate (Suc k) c = (xs @ replicate k c) @ [c]" by (simp add: replicate_append_same)
  then have "set (split_on c (xs @ replicate (Suc k) c)) = insert [] (set (split_on c (xs @ replicate k c)))"
    unfolding split_snoc by (metis list.simps(15) rotate1.simps(2) set_rotate1 split_snoc)
  then show ?case using Suc by simp
qed simp

lemma trailing_slashes: "\<exists>k. v = no_trailing_slash v @ replicate k (CHR ''/'')"
proof -
  have "rev v = takeWhile (\<lambda>c. c = CHR ''/'') (rev v) @ dropWhile (\<lambda>c. c = CHR ''/'') (rev v)" by simp
  moreover have "takeWhile (\<lambda>c. c = CHR ''/'') (rev v) = replicate (length (takeWhile (\<lambda>c. c = CHR ''/'') (rev v))) (CHR ''/'')"
    by (rule replicate_length_same [symmetric]) (auto dest: set_takeWhileD)
  ultimately have "v = rev (dropWhile (\<lambda>c. c = CHR ''/'') (rev v)) @ rev (replicate (length (takeWhile (\<lambda>c. c = CHR ''/'') (rev v))) (CHR ''/''))"
    by (metis rev_append rev_rev_ident)
  then show ?thesis unfolding no_trailing_slash_def by (auto simp: rev_replicate)
qed

text \<open>A prefix of an object: relative, without a step up, and empty or ended by a slash.\<close>

definition contained :: "string \<Rightarrow> bool" where
  "contained p \<longleftrightarrow>
     \<not> py_startswith p ''/'' \<and> ''..'' \<notin> set (split_on (CHR ''/'') p) \<and> (if p = [] then True else last p = CHR ''/'')"

lemma gcs_prefix_contained:
  assumes "gcs_prefix v = Inr p"
  shows "contained p"
proof (cases "v = []")
  case True
  then show ?thesis using assms by (auto simp: gcs_prefix_def contained_def split: if_splits)
next
  case False
  then have p: "p = no_trailing_slash v @ ''/''" and d: "''..'' \<notin> set (split_on (CHR ''/'') v)" and n: "\<not> py_startswith v ''/''"
    using assms by (auto simp: gcs_prefix_def split: if_splits)
  obtain k where v: "v = no_trailing_slash v @ replicate k (CHR ''/'')" using trailing_slashes by blast
  have "''..'' \<notin> set (split_on (CHR ''/'') (no_trailing_slash v))"
    using d split_slashes [of "CHR ''/''" "no_trailing_slash v" k] by (subst (asm) v) simp
  then have dots: "''..'' \<notin> set (split_on (CHR ''/'') p)" unfolding p using split_snoc [of "CHR ''/''" "no_trailing_slash v"] by simp
  have "no_trailing_slash v \<noteq> []"
  proof
    assume "no_trailing_slash v = []"
    then have "v = replicate k (CHR ''/'')" using v by simp
    then show False using n False by (cases k) (auto simp: py_startswith_def)
  qed
  then obtain a l where nt: "no_trailing_slash v = a # l" by (cases "no_trailing_slash v") auto
  have "v = a # l @ replicate k (CHR ''/'')" using v nt by simp
  then have "a \<noteq> CHR ''/''" using n by (simp add: py_startswith_def)
  then have "\<not> py_startswith p ''/''" by (simp add: p nt py_startswith_def)
  then show ?thesis using dots by (simp add: contained_def p)
qed

lemma namespace_get:
  "traverse check_namespace spaces = Inr m \<Longrightarrow> dict_get m k = Some p \<Longrightarrow>
   \<exists>v. dict_get spaces k = Some v \<and> gcs_prefix v = Inr p"
proof (induction spaces arbitrary: m)
  case (Cons kv spaces)
  obtain k' v where kv: "kv = (k', v)" by (cases kv)
  from Cons.prems(1) obtain q m' where q: "gcs_prefix v = Inr q" "traverse check_namespace spaces = Inr m'" "m = (k', q) # m'"
    unfolding traverse_Cons_Inr by (auto simp: kv check_namespace_def map_sum_Inr_iff split: if_splits)
  show ?case
  proof (cases "k' = k")
    case True
    then show ?thesis using Cons.prems(2) q kv by auto
  next
    case False
    then show ?thesis using Cons.IH [OF q(2)] Cons.prems(2) q(3) kv by auto
  qed
qed (auto simp: bind_res_def)

lemma hex_plain: "k < 16 \<Longrightarrow> plain_char (hex_digit k)"
proof -
  have "list_all (\<lambda>k. plain_char (hex_digit k)) [0..<16]" by code_simp
  then show "k < 16 \<Longrightarrow> plain_char (hex_digit k)" by (simp add: list_all_iff)
qed

lemma quote_safe: "list_all (\<lambda>c. plain_char c \<or> c \<in> set safe \<or> c = CHR ''%'') (quote safe s)"
proof -
  have b: "of_char c div 16 < (16 :: nat)" for c
    using nat_of_char_less_256 [of c] by (simp add: less_mult_imp_div_less)
  show ?thesis using hex_plain [OF b] by (auto simp: quote_def list_all_iff Let_def hex_plain split: if_splits)
qed

lemma path_name_plain:
  assumes "path_name f = f" and "f \<noteq> []"
  shows "CHR ''/'' \<notin> set f"
proof -
  let ?parts = "filter (\<lambda>p. p \<noteq> [] \<and> p \<noteq> ''.'') (split_on (CHR ''/'') f)"
  have "?parts \<noteq> []" "f = last ?parts" using assms by (auto simp: path_name_def Let_def split: if_splits)
  then have "f \<in> set ?parts" using last_in_set by metis
  then show ?thesis using split_parts by auto
qed


definition sample_gcs :: "(pyexn, gcs) result" where
  "sample_gcs =
     gcs_init (\<lambda>u. Inr (''https'', ''storage.googleapis.com'')) ''pics'' [(''cards'', ''chat/cards/'')] (Some ''cards'') False False
       None 60 None"


end
