(* ===== verification/Bot.thy ===== *)
theory Bot
  imports Capabilities CardAssets
begin

text \<open>
  The authenticated client (\<open>client/bot.py\<close>, \<open>client/executor.py\<close>, \<open>client/errors.py\<close>): resolving the
  credentials of the two identities, building their SDK clients once, the local check of an operation, the
  single path every request takes, and the shutdown. Credential providers, the transports and the SDK calls are
  the outside world; what was called is noted in the trace. This is the sequential behaviour: a call that
  finds the task of another one shares its outcome, so a slot keeps the outcome of the task it holds.
\<close>

section \<open>Errors of the SDK\<close>

text \<open>The exception classes of \<open>google.api_core\<close> the code names; an error is its class and the classes it is an
  instance of.\<close>

datatype google_class =
    GNotFound | GPermissionDenied | GForbidden | GInvalidArgument | GResourceExhausted | GTooManyRequests
  | GServiceUnavailable | GInternalServerError | GBadGateway | GGatewayTimeout | GUnauthenticated | GUnauthorized
  | GAlreadyExists | GConflict | GOther string

record google_error =
  ge_class :: google_class
  ge_instance_of :: "google_class list"

definition wrappers :: "(google_class list \<times> client_exn) list" where
  "wrappers =
     [([GNotFound], ChatNotFoundError),
      ([GPermissionDenied, GForbidden], ChatPermissionDeniedError),
      ([GInvalidArgument], ChatInvalidArgumentError),
      ([GResourceExhausted, GTooManyRequests], ChatRateLimitError),
      ([GServiceUnavailable, GInternalServerError, GBadGateway, GGatewayTimeout], ChatServiceUnavailableError),
      ([GUnauthenticated, GUnauthorized], ChatUnauthenticatedError)]"

definition wrap_api_error :: "google_error \<Rightarrow> client_exn" where
  "wrap_api_error g =
     (if ge_class g = GAlreadyExists \<or> ge_class g = GConflict then ChatAlreadyExistsError
      else (case find (\<lambda>(cs, e). list_ex (\<lambda>c. c \<in> set (ge_instance_of g)) cs) wrappers of
              Some (cs, e) \<Rightarrow> e
            | None \<Rightarrow> ChatAPIError))"

datatype rpc_failure = GoogleFailure google_error | OtherFailure pyexn

definition wrap_failure :: "rpc_failure \<Rightarrow> pyexn" where
  "wrap_failure f = (case f of GoogleFailure g \<Rightarrow> exn (Api (wrap_api_error g)) | OtherFailure x \<Rightarrow> x)"

section \<open>Credentials\<close>

text \<open>A scope attribute of a credentials object: absent, a string, strings, or something else.\<close>

datatype scope_attr = NoScopes | OneScope string | ScopeList "string list" | OddScopes

record credentials =
  cr_subject :: bool
  cr_signer :: bool
  cr_refresh :: bool
  cr_granted :: scope_attr
  cr_scopes :: scope_attr
  cr_default :: scope_attr

definition scope_attribute :: "scope_attr \<Rightarrow> string set option" where
  "scope_attribute a =
     (case a of OneScope s \<Rightarrow> Some {s} | ScopeList ss \<Rightarrow> Some (set ss) | _ \<Rightarrow> None)"

definition credential_scopes :: "auth_mode \<Rightarrow> credentials option \<Rightarrow> string set option" where
  "credential_scopes m oc =
     (case oc of
        None \<Rightarrow> None
      | Some c \<Rightarrow>
          (case m of
             USER_AUTH \<Rightarrow>
               (case scope_attribute (cr_granted c) of Some g \<Rightarrow> Some g | None \<Rightarrow> scope_attribute (cr_scopes c))
           | APP \<Rightarrow>
               (case (scope_attribute (cr_scopes c), scope_attribute (cr_default c)) of
                  (None, None) \<Rightarrow> None
                | (e, d) \<Rightarrow> Some ((case e of Some x \<Rightarrow> x | None \<Rightarrow> {}) \<union> (case d of Some x \<Rightarrow> x | None \<Rightarrow> {})))
           | NO_AUTH \<Rightarrow> Some {}))"

definition classify :: "credentials option \<Rightarrow> auth_mode option" where
  "classify oc =
     (case oc of
        None \<Rightarrow> None
      | Some c \<Rightarrow>
          if cr_subject c then Some USER_AUTH
          else if cr_signer c then Some APP
          else if cr_refresh c then Some USER_AUTH
          else None)"

section \<open>The bot\<close>

type_synonym 'w provider = "'w \<Rightarrow> 'w \<times> (pyexn, credentials option) result"

record 'w bot_config =
  bc_credentials :: "credentials option"
  bc_provider :: "'w provider option"
  bc_user_provider :: "'w provider option"
  bc_auth_mode :: "auth_mode option"
  bc_transport :: bool
  bc_preview :: bool

text \<open>\<open>Bot.__init__\<close>: the combinations it refuses.\<close>

definition bot_init ::
    "credentials option \<Rightarrow> 'w provider option \<Rightarrow> 'w provider option \<Rightarrow> 'w provider option \<Rightarrow> auth_mode option
     \<Rightarrow> bool \<Rightarrow> bool \<Rightarrow> bool option \<Rightarrow> (pyexn, 'w bot_config) result" where
  "bot_init c p app usr mode transport prev has_publish =
     (if (app \<noteq> None \<or> usr \<noteq> None) \<and> (c \<noteq> None \<or> p \<noteq> None \<or> mode \<noteq> None) then Inl (exn (Py ValueErr))
      else if has_publish = Some False then Inl (exn (Py TypeErr))
      else Inr \<lparr> bc_credentials = c, bc_provider = (if p \<noteq> None then p else app), bc_user_provider = usr,
                 bc_auth_mode = mode, bc_transport = transport, bc_preview = prev \<rparr>)"

text \<open>An SDK client: the identity whose credentials it was built with, and its transport.\<close>

datatype transport = Injected | OwnTransport auth_mode

record client =
  cl_identity :: auth_mode
  cl_transport :: transport

text \<open>A slot holds the outcome of the task it refers to.\<close>

record bot =
  bt_closed :: bool
  bt_resolved :: "credentials option option"
  bt_cred_task :: "(pyexn, credentials option) result option"
  bt_user_resolved :: "credentials option option"
  bt_user_task :: "(pyexn, credentials option) result option"
  bt_client :: "client option"
  bt_init_task :: "(pyexn, client) result option"
  bt_user_client :: "client option"
  bt_user_init_task :: "(pyexn, client) result option"

definition new_bot :: bot where
  "new_bot =
     \<lparr> bt_closed = False, bt_resolved = None, bt_cred_task = None, bt_user_resolved = None, bt_user_task = None,
       bt_client = None, bt_init_task = None, bt_user_client = None, bt_user_init_task = None \<rparr>"

text \<open>A request is noted with the identity of the client it was made on, its operation and what it carries.\<close>

datatype 'q bot_effect =
    ProviderAsked auth_mode | ProviderFailed auth_mode exn_class
  | Requested auth_mode operation 'q | RequestFailed auth_mode operation 'q exn_class
  | TransportClosed transport | CloseFailed transport exn_class
  | AssetStep asset_effect | FileTaken | FileTakeFailed exn_class

type_synonym ('q, 'w, 'a) bot_io = "('q bot_effect, unit, 'w, bot, 'a) io"

definition get_own :: "('q, 'w, bot) bot_io" where
  "get_own s = (s, Inr (rs_own s))"

definition not_supported :: "('q, 'w, 'a) bot_io" where
  "not_supported = throw (exn (St CapabilityNotSupported))"

definition closed_error :: "('q, 'w, 'a) bot_io" where
  "closed_error = throw (exn (Api ChatAPIError))"

definition lift_bot :: "(pyexn, 'a) result \<Rightarrow> ('q, 'w, 'a) bot_io" where
  "lift_bot r = (case r of Inl x \<Rightarrow> throw x | Inr v \<Rightarrow> ret v)"

text \<open>A shared task: the outcome of a task that is there, else the task is created and run; a task that failed with
  an \<open>Exception\<close> is dropped, one that was cancelled or failed otherwise stays.\<close>

definition single_flight ::
    "(bot \<Rightarrow> (pyexn, 'a) result option) \<Rightarrow> ((pyexn, 'a) result option \<Rightarrow> bot \<Rightarrow> bot) \<Rightarrow> ('q, 'w, 'a) bot_io \<Rightarrow> ('q, 'w, 'a) bot_io" where
  "single_flight slot put run s =
     (case slot (rs_own s) of
        Some r \<Rightarrow> (s, r)
      | None \<Rightarrow>
          (case run s of
             (s', Inr v) \<Rightarrow> (s'\<lparr> rs_own := put (Some (Inr v)) (rs_own s') \<rparr>, Inr v)
           | (s', Inl x) \<Rightarrow>
               (s'\<lparr> rs_own := put (if is_exception (exn_cls x) then None else Some (Inl x)) (rs_own s') \<rparr>, Inl x)))"

definition ask_provider :: "auth_mode \<Rightarrow> 'w provider \<Rightarrow> ('q, 'w, credentials option) bot_io" where
  "ask_provider m p = world_call (\<lambda>_. ProviderAsked m) (ProviderFailed m) p"

text \<open>\<open>_resolve_credentials_once\<close>, \<open>_resolve_credentials_async\<close> and the user variants.\<close>

definition resolve_once :: "'w bot_config \<Rightarrow> ('q, 'w, credentials option) bot_io" where
  "resolve_once cfg =
     bind_io get_own (\<lambda>b.
       if bt_closed b then closed_error
       else (case bt_resolved b of
               Some c \<Rightarrow> ret c
             | None \<Rightarrow>
                 bind_io (case bc_provider cfg of Some p \<Rightarrow> ask_provider APP p | None \<Rightarrow> ret (bc_credentials cfg)) (\<lambda>c.
                   then_io (own_io (bt_resolved_update (\<lambda>_. Some c))) (ret c))))"

definition resolve_credentials :: "'w bot_config \<Rightarrow> ('q, 'w, credentials option) bot_io" where
  "resolve_credentials cfg = single_flight bt_cred_task (\<lambda>t. bt_cred_task_update (\<lambda>_. t)) (resolve_once cfg)"

definition resolve_user_once :: "'w bot_config \<Rightarrow> ('q, 'w, credentials option) bot_io" where
  "resolve_user_once cfg =
     bind_io get_own (\<lambda>b.
       if bt_closed b then closed_error
       else (case bt_user_resolved b of
               Some c \<Rightarrow> ret c
             | None \<Rightarrow>
                 bind_io
                   (case bc_user_provider cfg of
                      Some p \<Rightarrow> ask_provider USER_AUTH p
                    | None \<Rightarrow>
                        bind_io (resolve_credentials cfg) (\<lambda>single.
                          ret (if classify single = Some USER_AUTH then single else None)))
                   (\<lambda>c. then_io (own_io (bt_user_resolved_update (\<lambda>_. Some c))) (ret c))))"

definition resolve_user_credentials :: "'w bot_config \<Rightarrow> ('q, 'w, credentials option) bot_io" where
  "resolve_user_credentials cfg = single_flight bt_user_task (\<lambda>t. bt_user_task_update (\<lambda>_. t)) (resolve_user_once cfg)"

definition auth_mode_of :: "'w bot_config \<Rightarrow> ('q, 'w, auth_mode option) bot_io" where
  "auth_mode_of cfg =
     (case bc_auth_mode cfg of
        Some m \<Rightarrow> ret (Some m)
      | None \<Rightarrow> bind_io (resolve_credentials cfg) (\<lambda>c. ret (classify c)))"

section \<open>Clients\<close>

definition transport_of :: "'w bot_config \<Rightarrow> auth_mode \<Rightarrow> transport" where
  "transport_of cfg m = (if bc_transport cfg then Injected else OwnTransport m)"

definition build_client :: "'w bot_config \<Rightarrow> credentials option \<Rightarrow> ('q, 'w, client) bot_io" where
  "build_client cfg c =
     (if \<not> bc_transport cfg \<and> c = None then throw (exn (Api ChatAPIError))
      else (let cl = \<lparr> cl_identity = APP, cl_transport = transport_of cfg APP \<rparr>
            in then_io (own_io (bt_client_update (\<lambda>_. Some cl))) (ret cl)))"

definition build_user_client :: "'w bot_config \<Rightarrow> ('q, 'w, client) bot_io" where
  "build_user_client cfg =
     (let cl = \<lparr> cl_identity = USER_AUTH, cl_transport = transport_of cfg USER_AUTH \<rparr>
      in then_io (own_io (bt_user_client_update (\<lambda>_. Some cl))) (ret cl))"

definition initialize_client :: "'w bot_config \<Rightarrow> ('q, 'w, client) bot_io" where
  "initialize_client cfg =
     bind_io get_own (\<lambda>b.
       if bt_closed b then closed_error
       else bind_io (resolve_credentials cfg) (\<lambda>c.
         bind_io get_own (\<lambda>b'. if bt_closed b' then closed_error else build_client cfg c)))"

definition get_client :: "'w bot_config \<Rightarrow> ('q, 'w, client) bot_io" where
  "get_client cfg =
     bind_io get_own (\<lambda>b.
       case bt_client b of
         Some c \<Rightarrow> ret c
       | None \<Rightarrow> single_flight bt_init_task (\<lambda>t. bt_init_task_update (\<lambda>_. t)) (initialize_client cfg))"

definition initialize_user_client :: "'w bot_config \<Rightarrow> ('q, 'w, client) bot_io" where
  "initialize_user_client cfg =
     bind_io get_own (\<lambda>b.
       if bt_closed b then closed_error
       else bind_io (resolve_user_credentials cfg) (\<lambda>c.
         if c = None then not_supported
         else bind_io get_own (\<lambda>b'. if bt_closed b' then closed_error else build_user_client cfg)))"

definition get_user_client :: "'w bot_config \<Rightarrow> ('q, 'w, client) bot_io" where
  "get_user_client cfg =
     bind_io get_own (\<lambda>b.
       case bt_user_client b of
         Some c \<Rightarrow> ret c
       | None \<Rightarrow> single_flight bt_user_init_task (\<lambda>t. bt_user_init_task_update (\<lambda>_. t)) (initialize_user_client cfg))"

definition warmup :: "'w bot_config \<Rightarrow> bool \<Rightarrow> bool \<Rightarrow> ('q, 'w, unit) bot_io" where
  "warmup cfg app usr =
     bind_io (if app then bind_io (get_client cfg) (\<lambda>_. ret ()) else ret ()) (\<lambda>_.
       if usr then bind_io (get_user_client cfg) (\<lambda>_. ret ()) else ret ())"

section \<open>One operation\<close>

text \<open>\<open>_preflight_operation\<close>: the credentials of the identity, classified, against the registry.\<close>

definition check_credentials ::
    "registry \<Rightarrow> operation \<Rightarrow> auth_mode \<Rightarrow> credentials option \<Rightarrow> (pyexn, unit) result" where
  "check_credentials reg op m oc =
     (case oc of
        None \<Rightarrow> Inl (exn (St CapabilityNotSupported))
      | Some c \<Rightarrow>
          (case classify (Some c) of
             None \<Rightarrow> Inr ()
           | Some mode \<Rightarrow>
               if mode \<noteq> m then Inl (exn (St CapabilityNotSupported))
               else require_operation reg op (Some mode) (credential_scopes mode (Some c)) NORMAL))"

definition identity_credentials :: "'w bot_config \<Rightarrow> auth_mode \<Rightarrow> ('q, 'w, credentials option) bot_io" where
  "identity_credentials cfg m =
     (if m = USER_AUTH then resolve_user_credentials cfg else resolve_credentials cfg)"

definition preflight_operation :: "'w bot_config \<Rightarrow> registry \<Rightarrow> operation \<Rightarrow> auth_mode \<Rightarrow> ('q, 'w, unit) bot_io" where
  "preflight_operation cfg reg op m =
     bind_io (identity_credentials cfg m) (\<lambda>c. lift_bot (check_credentials reg op m c))"

definition resolve_client :: "'w bot_config \<Rightarrow> auth_mode \<Rightarrow> ('q, 'w, client) bot_io" where
  "resolve_client cfg m = (if m = USER_AUTH then get_user_client cfg else get_client cfg)"

text \<open>\<open>execute\<close>: \<open>call\<close> is what is done with the resolved client. A call of the SDK is noted, and its failures
  are wrapped.\<close>

definition sdk_call ::
    "operation \<Rightarrow> 'q \<Rightarrow> (client \<Rightarrow> 'w \<Rightarrow> 'w \<times> (rpc_failure, 'a) result) \<Rightarrow> client \<Rightarrow> ('q, 'w, 'a) bot_io" where
  "sdk_call op q call cl =
     world_call (\<lambda>_. Requested (cl_identity cl) op q) (RequestFailed (cl_identity cl) op q)
       (\<lambda>w. case call cl w of (w', r) \<Rightarrow> (w', map_sum wrap_failure id r))"

definition execute ::
    "'w bot_config \<Rightarrow> registry \<Rightarrow> operation \<Rightarrow> auth_mode \<Rightarrow> (client \<Rightarrow> ('q, 'w, 'a) bot_io) \<Rightarrow> ('q, 'w, 'a) bot_io" where
  "execute cfg reg op m call =
     bind_io (lift_bot (registry_spec reg op)) (\<lambda>sp.
       if preview sp \<and> \<not> bc_preview cfg then not_supported
       else then_io (preflight_operation cfg reg op m) (bind_io (resolve_client cfg m) call))"

text \<open>\<open>gapic_kwargs\<close>: what is not set is left out.\<close>

record request_config =
  rq_timeout :: "rat option"
  rq_retry :: "nat option"
  rq_metadata :: "(string \<times> string) list"

datatype call_kwarg = TimeoutKw rat | RetryKw nat | MetadataKw "(string \<times> string) list"

definition effective_config :: "request_config option \<Rightarrow> rat option \<Rightarrow> request_config" where
  "effective_config oc t =
     (case oc of Some c \<Rightarrow> c | None \<Rightarrow> \<lparr> rq_timeout = t, rq_retry = None, rq_metadata = [] \<rparr>)"

definition gapic_kwargs :: "request_config \<Rightarrow> call_kwarg list" where
  "gapic_kwargs c =
     (case rq_timeout c of Some t \<Rightarrow> [TimeoutKw t] | None \<Rightarrow> []) @
     (case rq_retry c of Some r \<Rightarrow> [RetryKw r] | None \<Rightarrow> []) @
     (if rq_metadata c \<noteq> [] then [MetadataKw (rq_metadata c)] else [])"

section \<open>Shutdown\<close>

text \<open>Waiting for the tasks: a \<open>ChatAPIError\<close> is ignored, any other failure leaves \<open>close\<close>. \<open>outcomes\<close> is how the
  four tasks end, \<open>None\<close> for a slot that is empty; a task that fails did not publish a client.\<close>

fun await_tasks :: "(pyexn, unit) result option list \<Rightarrow> ('q, 'w, unit) bot_io" where
  "await_tasks [] = ret ()"
| "await_tasks (None # ts) = await_tasks ts"
| "await_tasks (Some (Inr _) # ts) = await_tasks ts"
| "await_tasks (Some (Inl x) # ts) =
     (if exn_cls x = Py CancelledError then throw x
      else if issubclass (exn_cls x) (Api ChatAPIError) then await_tasks ts
      else throw x)"

fun close_transports ::
    "(transport \<Rightarrow> 'w \<Rightarrow> 'w \<times> (pyexn, unit) result) \<Rightarrow> transport list \<Rightarrow> client option list \<Rightarrow> ('q, 'w, unit) bot_io" where
  "close_transports closer done [] = ret ()"
| "close_transports closer done (None # cs) = close_transports closer done cs"
| "close_transports closer done (Some c # cs) =
     (if cl_transport c \<in> set done then close_transports closer done cs
      else then_io
        (world_call (\<lambda>_. TransportClosed (cl_transport c)) (CloseFailed (cl_transport c)) (closer (cl_transport c)))
        (close_transports closer (cl_transport c # done) cs))"

definition close_bot ::
    "(transport \<Rightarrow> 'w \<Rightarrow> 'w \<times> (pyexn, unit) result) \<Rightarrow> (pyexn, unit) result option list \<Rightarrow> ('q, 'w, unit) bot_io" where
  "close_bot closer outcomes =
     bind_io get_own (\<lambda>b.
       if bt_closed b then ret ()
       else then_io (own_io (bt_closed_update (\<lambda>_. True)))
              (then_io (await_tasks outcomes)
                 (bind_io get_own (\<lambda>b'. close_transports closer [] [bt_client b', bt_user_client b']))))"

section \<open>Requests and identities\<close>

text \<open>A client carries the identity of the slot it is in.\<close>

definition wf_bot :: "bot \<Rightarrow> bool" where
  "wf_bot b \<longleftrightarrow>
     (\<forall>c. bt_client b = Some c \<longrightarrow> cl_identity c = APP) \<and>
     (\<forall>c. bt_init_task b = Some (Inr c) \<longrightarrow> cl_identity c = APP) \<and>
     (\<forall>c. bt_user_client b = Some c \<longrightarrow> cl_identity c = USER_AUTH) \<and>
     (\<forall>c. bt_user_init_task b = Some (Inr c) \<longrightarrow> cl_identity c = USER_AUTH)"

definition cred_slot :: "auth_mode \<Rightarrow> bot \<Rightarrow> (pyexn, credentials option) result option" where
  "cred_slot m b = (if m = USER_AUTH then bt_user_task b else bt_cred_task b)"

fun is_request :: "'q bot_effect \<Rightarrow> bool" where
  "is_request (Requested m op q) = True"
| "is_request (RequestFailed m op q c) = True"
| "is_request e = False"

text \<open>What everything but a request does to the bot: clients keep their identity, credentials that were resolved
  stay, the bot is not closed or reopened, and nothing is requested.\<close>

definition quiet_step ::
    "('q bot_effect, unit, 'w, bot) run_state \<Rightarrow> ('q bot_effect, unit, 'w, bot) run_state \<Rightarrow> bool" where
  "quiet_step s s' \<longleftrightarrow>
     (wf_bot (rs_own s) \<longrightarrow> wf_bot (rs_own s')) \<and>
     (\<forall>m c. cred_slot m (rs_own s) = Some (Inr c) \<longrightarrow> cred_slot m (rs_own s') = Some (Inr c)) \<and>
     bt_closed (rs_own s') = bt_closed (rs_own s) \<and>
     (\<exists>t. rs_trace s' = rs_trace s @ t \<and> list_all (\<lambda>e. \<not> is_request e) t)"

lemma quiet_refl [simp]: "quiet_step s s"
  by (simp add: quiet_step_def)

lemma quiet_trans: "quiet_step s s1 \<Longrightarrow> quiet_step s1 s2 \<Longrightarrow> quiet_step s s2"
proof -
  assume a: "quiet_step s s1" and b: "quiet_step s1 s2"
  obtain t1 t2 where "rs_trace s1 = rs_trace s @ t1" "list_all (\<lambda>e. \<not> is_request e) t1"
    "rs_trace s2 = rs_trace s1 @ t2" "list_all (\<lambda>e. \<not> is_request e) t2"
    using a b unfolding quiet_step_def by blast
  then have "rs_trace s2 = rs_trace s @ (t1 @ t2) \<and> list_all (\<lambda>e. \<not> is_request e) (t1 @ t2)" by simp
  then show ?thesis using a b unfolding quiet_step_def by metis
qed

text \<open>\<open>quietly m Q\<close>: \<open>m\<close> makes a quiet step and ends as \<open>Q\<close> says of the state after it and the result.\<close>

definition quietly ::
    "('q, 'w, 'a) bot_io \<Rightarrow> (('q bot_effect, unit, 'w, bot) run_state \<Rightarrow> (pyexn, 'a) result \<Rightarrow> bool) \<Rightarrow> bool" where
  "quietly m Q \<longleftrightarrow> (\<forall>s s' r. wf_bot (rs_own s) \<longrightarrow> m s = (s', r) \<longrightarrow> quiet_step s s' \<and> Q s' r)"

lemma quietlyD: "quietly m Q \<Longrightarrow> wf_bot (rs_own s) \<Longrightarrow> m s = (s', r) \<Longrightarrow> quiet_step s s' \<and> Q s' r"
  unfolding quietly_def by blast

lemma quietly_weaken: "quietly m Q \<Longrightarrow> (\<And>s r. Q s r \<Longrightarrow> R s r) \<Longrightarrow> quietly m R"
  unfolding quietly_def by blast

lemma quietly_ret: "(\<And>s. Q s (Inr v)) \<Longrightarrow> quietly (ret v) Q"
  by (simp add: quietly_def ret_def)

lemma quietly_throw: "(\<And>s. Q s (Inl x)) \<Longrightarrow> quietly (throw x) Q"
  by (simp add: quietly_def throw_def)

lemma quiet_wf: "quiet_step s s' \<Longrightarrow> wf_bot (rs_own s) \<Longrightarrow> wf_bot (rs_own s')"
  by (simp add: quiet_step_def)

text \<open>The state the first part ends in may be used in the second.\<close>

lemma quietly_bind:
  assumes m: "quietly m (\<lambda>s r. (\<forall>x. r = Inl x \<longrightarrow> Q s (Inl x)) \<and> (\<forall>v. r = Inr v \<longrightarrow> P v s))"
    and f: "\<And>v s s' r. P v s \<Longrightarrow> wf_bot (rs_own s) \<Longrightarrow> f v s = (s', r) \<Longrightarrow> quiet_step s s' \<and> Q s' r"
  shows "quietly (bind_io m f) Q"
  unfolding quietly_def
proof (intro allI impI)
  fix s s' r assume wf: "wf_bot (rs_own s)" and run: "bind_io m f s = (s', r)"
  obtain s1 r1 where ms: "m s = (s1, r1)" by (cases "m s")
  have q: "quiet_step s s1" and Q: "\<forall>x. r1 = Inl x \<longrightarrow> Q s1 (Inl x)" and P: "\<forall>v. r1 = Inr v \<longrightarrow> P v s1"
    using quietlyD [OF m wf ms] by auto
  show "quiet_step s s' \<and> Q s' r"
  proof (cases r1)
    case (Inl x)
    then show ?thesis using run ms q Q by (simp add: bind_io_def)
  next
    case (Inr v)
    then have "f v s1 = (s', r)" using run ms by (simp add: bind_io_def)
    then show ?thesis using f [of v s1 s' r] P Inr q quiet_wf [OF q wf] quiet_trans [OF q] by blast
  qed
qed

lemma quietly_bind_all:
  assumes "quietly m (\<lambda>s r. \<forall>x. r = Inl x \<longrightarrow> Q s (Inl x))" and "\<And>v. quietly (f v) Q"
  shows "quietly (bind_io m f) Q"
proof (rule quietly_bind [where P = "\<lambda>v s. True"])
  show "quietly m (\<lambda>s r. (\<forall>x. r = Inl x \<longrightarrow> Q s (Inl x)) \<and> (\<forall>v. r = Inr v \<longrightarrow> True))" using assms(1) by simp
qed (rule quietlyD [OF assms(2)])

lemma quietly_get_own: "quietly (bind_io get_own f) Q" if "\<And>b. quietly (f b) Q"
  using that by (auto simp: quietly_def bind_io_def get_own_def)

lemma quietly_world: "quietly (ask_provider m p) (\<lambda>s r. True)"
  by (auto simp: quietly_def ask_provider_def world_call_def quiet_step_def split: prod.splits sum.splits)

text \<open>What a shared task leaves in its slot.\<close>

definition outcome_slot :: "(pyexn, 'a) result \<Rightarrow> (pyexn, 'a) result option" where
  "outcome_slot r = (case r of Inr v \<Rightarrow> Some (Inr v) | Inl x \<Rightarrow> if is_exception (exn_cls x) then None else Some (Inl x))"

lemma quiet_put:
  assumes q: "quiet_step s s1" and wf: "wf_bot (rs_own s1) \<Longrightarrow> wf_bot (f (rs_own s1))"
    and c: "\<And>m c. cred_slot m (rs_own s) = Some (Inr c) \<Longrightarrow> cred_slot m (rs_own s1) = Some (Inr c) \<Longrightarrow>
      cred_slot m (f (rs_own s1)) = Some (Inr c)"
    and cl: "bt_closed (f (rs_own s1)) = bt_closed (rs_own s1)"
  shows "quiet_step s (s1\<lparr> rs_own := f (rs_own s1) \<rparr>)"
  using q c wf cl unfolding quiet_step_def by simp

lemma quietly_single_flight:
  assumes run: "quietly m Q"
    and quiet: "\<And>s s1 r. quiet_step s s1 \<Longrightarrow> slot (rs_own s) = None \<Longrightarrow> wf_bot (rs_own s1) \<Longrightarrow> Q s1 r \<Longrightarrow>
      quiet_step s (s1\<lparr> rs_own := put (outcome_slot r) (rs_own s1) \<rparr>)"
    and there: "\<And>s r. wf_bot (rs_own s) \<Longrightarrow> slot (rs_own s) = Some r \<Longrightarrow> R s r"
    and new: "\<And>s r. Q s r \<Longrightarrow> R (s\<lparr> rs_own := put (outcome_slot r) (rs_own s) \<rparr>) r"
  shows "quietly (single_flight slot put m) R"
  unfolding quietly_def
proof (intro allI impI)
  fix s s' r assume wf: "wf_bot (rs_own s)" and go: "single_flight slot put m s = (s', r)"
  show "quiet_step s s' \<and> R s' r"
  proof (cases "slot (rs_own s)")
    case (Some r0)
    then show ?thesis using go there [OF wf] by (auto simp: single_flight_def)
  next
    case None
    obtain s1 r1 where ms: "m s = (s1, r1)" by (cases "m s")
    have q: "quiet_step s s1" and Q: "Q s1 r1" using quietlyD [OF run wf ms] by auto
    have "s' = s1\<lparr> rs_own := put (outcome_slot r1) (rs_own s1) \<rparr>" "r = r1"
      using go None ms by (auto simp: single_flight_def outcome_slot_def split: sum.splits)
    then show ?thesis using quiet [OF q None quiet_wf [OF q wf] Q] new [OF Q] by simp
  qed
qed

lemma quiet_own:
  "wf_bot (f (rs_own s)) \<Longrightarrow> (\<And>m c. cred_slot m (rs_own s) = Some (Inr c) \<Longrightarrow> cred_slot m (f (rs_own s)) = Some (Inr c)) \<Longrightarrow>
   bt_closed (f (rs_own s)) = bt_closed (rs_own s) \<Longrightarrow> quiet_step s (s\<lparr> rs_own := f (rs_own s) \<rparr>)"
  by (simp add: quiet_step_def)

lemma quietly_own:
  assumes "\<And>b. wf_bot b \<Longrightarrow> wf_bot (f b)" "\<And>b m. cred_slot m (f b) = cred_slot m b" "\<And>b. bt_closed (f b) = bt_closed b"
  shows "quietly (own_io f) (\<lambda>s r. r = Inr ())"
  using assms by (auto simp: quietly_def own_io_def intro!: quiet_own)

lemma quietly_then_ret:
  assumes "quietly m (\<lambda>s r. \<exists>v. r = Inr v)"
  shows "quietly (then_io m (ret w)) (\<lambda>s r. r = Inr w)"
  unfolding then_io_def
  by (rule quietly_bind [where P = "\<lambda>v s. True"])
    (use assms in \<open>auto simp: quietly_def ret_def\<close>)

lemma cred_slot_simps [simp]:
  "cred_slot m (b\<lparr> bt_resolved := x \<rparr>) = cred_slot m b"
  "cred_slot m (b\<lparr> bt_user_resolved := x \<rparr>) = cred_slot m b"
  "cred_slot m (b\<lparr> bt_client := y \<rparr>) = cred_slot m b"
  "cred_slot m (b\<lparr> bt_user_client := y \<rparr>) = cred_slot m b"
  "cred_slot m (b\<lparr> bt_init_task := z \<rparr>) = cred_slot m b"
  "cred_slot m (b\<lparr> bt_user_init_task := z \<rparr>) = cred_slot m b"
  "cred_slot m (b\<lparr> bt_cred_task := u \<rparr>) = (if m = USER_AUTH then cred_slot m b else u)"
  "cred_slot m (b\<lparr> bt_user_task := u \<rparr>) = (if m = USER_AUTH then u else cred_slot m b)"
  by (simp_all add: cred_slot_def)

lemma wf_bot_simps [simp]:
  "wf_bot (b\<lparr> bt_resolved := x \<rparr>) = wf_bot b"
  "wf_bot (b\<lparr> bt_user_resolved := x \<rparr>) = wf_bot b"
  "wf_bot (b\<lparr> bt_cred_task := u \<rparr>) = wf_bot b"
  "wf_bot (b\<lparr> bt_user_task := u \<rparr>) = wf_bot b"
  by (simp_all add: wf_bot_def)

lemma wf_put [simp]:
  "wf_bot b \<Longrightarrow> cl_identity c = APP \<Longrightarrow> wf_bot (b\<lparr> bt_client := Some c \<rparr>)"
  "wf_bot b \<Longrightarrow> cl_identity c = USER_AUTH \<Longrightarrow> wf_bot (b\<lparr> bt_user_client := Some c \<rparr>)"
  "wf_bot b \<Longrightarrow> (\<And>c. z = Some (Inr c) \<Longrightarrow> cl_identity c = APP) \<Longrightarrow> wf_bot (b\<lparr> bt_init_task := z \<rparr>)"
  "wf_bot b \<Longrightarrow> (\<And>c. z = Some (Inr c) \<Longrightarrow> cl_identity c = USER_AUTH) \<Longrightarrow> wf_bot (b\<lparr> bt_user_init_task := z \<rparr>)"
  by (auto simp: wf_bot_def)

lemma new_bot_wf: "wf_bot new_bot"
  by (simp add: wf_bot_def new_bot_def)

lemma outcome_slot_Inr [simp]: "outcome_slot r = Some (Inr v) \<longleftrightarrow> r = Inr v"
  by (auto simp: outcome_slot_def split: sum.split)

lemma quietly_resolve_once: "quietly (resolve_once cfg) (\<lambda>s r. True)"
proof -
  have rest: "quietly (then_io (own_io (bt_resolved_update (\<lambda>_. Some c))) (ret c)) (\<lambda>s r. True)" for c
    by (rule quietly_weaken, rule quietly_then_ret, rule quietly_weaken, rule quietly_own) auto
  show ?thesis unfolding resolve_once_def closed_error_def
    by (intro quietly_get_own)
      (auto intro!: quietly_throw quietly_ret quietly_bind_all rest quietly_world split: option.split)
qed

text \<open>The slot of an identity holds what the resolution answered.\<close>

lemma quietly_resolve: "quietly (resolve_credentials cfg) (\<lambda>s r. \<forall>c. r = Inr c \<longrightarrow> bt_cred_task (rs_own s) = Some (Inr c))"
  unfolding resolve_credentials_def
proof (rule quietly_single_flight [OF quietly_resolve_once])
  fix s s1 r assume q: "quiet_step s s1" and n: "bt_cred_task (rs_own s) = None" and "wf_bot (rs_own s1)"
  show "quiet_step s (s1\<lparr> rs_own := bt_cred_task_update (\<lambda>_. outcome_slot r) (rs_own s1) \<rparr>)"
    by (rule quiet_put [OF q]) (use n in \<open>simp_all add: cred_slot_def split: if_splits\<close>)
qed auto

lemma quietly_resolve_user_once: "quietly (resolve_user_once cfg) (\<lambda>s r. True)"
proof -
  have rest: "quietly (then_io (own_io (bt_user_resolved_update (\<lambda>_. Some c))) (ret c)) (\<lambda>s r. True)" for c
    by (rule quietly_weaken, rule quietly_then_ret, rule quietly_weaken, rule quietly_own) auto
  have "quietly (resolve_credentials cfg) (\<lambda>s r. True)" by (rule quietly_weaken [OF quietly_resolve]) simp
  then show ?thesis unfolding resolve_user_once_def closed_error_def
    by (intro quietly_get_own)
      (auto intro!: quietly_throw quietly_ret quietly_bind_all rest quietly_world split: option.split)
qed

lemma quietly_resolve_user:
  "quietly (resolve_user_credentials cfg) (\<lambda>s r. \<forall>c. r = Inr c \<longrightarrow> bt_user_task (rs_own s) = Some (Inr c))"
  unfolding resolve_user_credentials_def
proof (rule quietly_single_flight [OF quietly_resolve_user_once])
  fix s s1 r assume q: "quiet_step s s1" and n: "bt_user_task (rs_own s) = None" and "wf_bot (rs_own s1)"
  show "quiet_step s (s1\<lparr> rs_own := bt_user_task_update (\<lambda>_. outcome_slot r) (rs_own s1) \<rparr>)"
    by (rule quiet_put [OF q]) (use n in \<open>simp_all add: cred_slot_def split: if_splits\<close>)
qed auto

lemma quietly_identity_credentials:
  "quietly (identity_credentials cfg m) (\<lambda>s r. \<forall>c. r = Inr c \<longrightarrow> cred_slot m (rs_own s) = Some (Inr c))"
  by (simp add: identity_credentials_def cred_slot_def quietly_resolve quietly_resolve_user)

text \<open>The clients.\<close>

lemma quietly_init_client:
  "quietly (initialize_client cfg) (\<lambda>s r. \<forall>c. r = Inr c \<longrightarrow> cl_identity c = APP)"
proof -
  have build: "quietly (build_client cfg c) (\<lambda>s r. \<forall>c. r = Inr c \<longrightarrow> cl_identity c = APP)" for c
    unfolding build_client_def Let_def
    by (auto intro!: quietly_throw quietly_weaken [OF quietly_then_ret, OF quietly_weaken, OF quietly_own])
  show ?thesis unfolding initialize_client_def closed_error_def
    by (intro quietly_get_own)
      (auto intro!: quietly_throw quietly_bind_all quietly_get_own build intro: quietly_weaken [OF quietly_resolve])
qed

lemma quietly_init_user_client:
  "quietly (initialize_user_client cfg) (\<lambda>s r. \<forall>c. r = Inr c \<longrightarrow> cl_identity c = USER_AUTH)"
proof -
  have build: "quietly (build_user_client cfg) (\<lambda>s r. \<forall>c. r = Inr c \<longrightarrow> cl_identity c = USER_AUTH)"
    unfolding build_user_client_def Let_def
    by (auto intro!: quietly_weaken [OF quietly_then_ret, OF quietly_weaken, OF quietly_own])
  show ?thesis unfolding initialize_user_client_def closed_error_def not_supported_def
    by (intro quietly_get_own)
      (auto intro!: quietly_throw quietly_bind_all quietly_get_own build intro: quietly_weaken [OF quietly_resolve_user])
qed

lemma quietly_flight:
  fixes cfg :: "'w bot_config"
  shows "quietly (single_flight bt_init_task (\<lambda>t. bt_init_task_update (\<lambda>_. t)) (initialize_client cfg) :: ('q, 'w, client) bot_io)
      (\<lambda>s r. \<forall>c. r = Inr c \<longrightarrow> cl_identity c = APP)"
proof (rule quietly_single_flight [OF quietly_init_client])
  fix s s1 :: "('q bot_effect, unit, 'w, bot) run_state" and r :: "(pyexn, client) result"
  assume q: "quiet_step s s1" and Q: "\<forall>c. r = Inr c \<longrightarrow> cl_identity c = APP"
  show "quiet_step s (s1\<lparr> rs_own := bt_init_task_update (\<lambda>_. outcome_slot r) (rs_own s1) \<rparr>)"
    by (rule quiet_put [OF q]) (use Q in \<open>auto simp: wf_bot_def\<close>)
qed (auto simp: wf_bot_def)

lemma quietly_get_client:
  fixes cfg :: "'w bot_config"
  shows "quietly (get_client cfg :: ('q, 'w, client) bot_io) (\<lambda>s r. \<forall>c. r = Inr c \<longrightarrow> cl_identity c = APP)"
  unfolding quietly_def
proof (intro allI impI)
  fix s s' :: "('q bot_effect, unit, 'w, bot) run_state" and r
  assume wf: "wf_bot (rs_own s)" and run: "get_client cfg s = (s', r)"
  show "quiet_step s s' \<and> (\<forall>c. r = Inr c \<longrightarrow> cl_identity c = APP)"
  proof (cases "bt_client (rs_own s)")
    case None
    then show ?thesis using run quietlyD [OF quietly_flight wf] by (simp add: get_client_def bind_io_def get_own_def)
  next
    case (Some c)
    then show ?thesis using run wf by (auto simp: get_client_def bind_io_def get_own_def ret_def wf_bot_def)
  qed
qed

lemma quietly_user_flight:
  fixes cfg :: "'w bot_config"
  shows "quietly (single_flight bt_user_init_task (\<lambda>t. bt_user_init_task_update (\<lambda>_. t)) (initialize_user_client cfg) :: ('q, 'w, client) bot_io)
      (\<lambda>s r. \<forall>c. r = Inr c \<longrightarrow> cl_identity c = USER_AUTH)"
proof (rule quietly_single_flight [OF quietly_init_user_client])
  fix s s1 :: "('q bot_effect, unit, 'w, bot) run_state" and r :: "(pyexn, client) result"
  assume q: "quiet_step s s1" and Q: "\<forall>c. r = Inr c \<longrightarrow> cl_identity c = USER_AUTH"
  show "quiet_step s (s1\<lparr> rs_own := bt_user_init_task_update (\<lambda>_. outcome_slot r) (rs_own s1) \<rparr>)"
    by (rule quiet_put [OF q]) (use Q in \<open>auto simp: wf_bot_def\<close>)
qed (auto simp: wf_bot_def)

lemma quietly_get_user_client:
  fixes cfg :: "'w bot_config"
  shows "quietly (get_user_client cfg :: ('q, 'w, client) bot_io) (\<lambda>s r. \<forall>c. r = Inr c \<longrightarrow> cl_identity c = USER_AUTH)"
  unfolding quietly_def
proof (intro allI impI)
  fix s s' :: "('q bot_effect, unit, 'w, bot) run_state" and r
  assume wf: "wf_bot (rs_own s)" and run: "get_user_client cfg s = (s', r)"
  show "quiet_step s s' \<and> (\<forall>c. r = Inr c \<longrightarrow> cl_identity c = USER_AUTH)"
  proof (cases "bt_user_client (rs_own s)")
    case None
    then show ?thesis using run quietlyD [OF quietly_user_flight wf] by (simp add: get_user_client_def bind_io_def get_own_def)
  next
    case (Some c)
    then show ?thesis using run wf by (auto simp: get_user_client_def bind_io_def get_own_def ret_def wf_bot_def)
  qed
qed

lemma quietly_resolve_client:
  assumes "m \<noteq> NO_AUTH"
  shows "quietly (resolve_client cfg m) (\<lambda>s r. \<forall>c. r = Inr c \<longrightarrow> cl_identity c = m)"
  using assms by (cases m) (simp_all add: resolve_client_def quietly_get_client quietly_get_user_client)

text \<open>The credentials an identity resolved to allow the operation.\<close>

definition allowed :: "registry \<Rightarrow> operation \<Rightarrow> auth_mode \<Rightarrow> bot \<Rightarrow> bool" where
  "allowed reg op m b =
     (case cred_slot m b of
        Some (Inr (Some c)) \<Rightarrow>
          (case classify (Some c) of
             None \<Rightarrow> True
           | Some mode \<Rightarrow> mode = m \<and> require_operation reg op (Some m) (credential_scopes m (Some c)) NORMAL = Inr ())
      | _ \<Rightarrow> False)"

lemma check_allowed:
  "cred_slot m b = Some (Inr oc) \<Longrightarrow> check_credentials reg op m oc = Inr () \<Longrightarrow> allowed reg op m b"
  by (auto simp: allowed_def check_credentials_def split: option.splits if_splits)

lemma quietly_preflight: "quietly (preflight_operation cfg reg op m) (\<lambda>s r. r = Inr () \<longrightarrow> allowed reg op m (rs_own s))"
  unfolding preflight_operation_def
proof (rule quietly_bind [where P = "\<lambda>c s. cred_slot m (rs_own s) = Some (Inr c)"])
  show "quietly (identity_credentials cfg m) (\<lambda>s r. (\<forall>x. r = Inl x \<longrightarrow> Inl x = Inr () \<longrightarrow> allowed reg op m (rs_own s)) \<and>
      (\<forall>v. r = Inr v \<longrightarrow> cred_slot m (rs_own s) = Some (Inr v)))"
    by (rule quietly_weaken [OF quietly_identity_credentials]) simp
qed (auto simp: lift_bot_def throw_def ret_def split: sum.splits intro: check_allowed)

lemma quiet_allowed: "quiet_step s s' \<Longrightarrow> allowed reg op m (rs_own s) \<Longrightarrow> allowed reg op m (rs_own s')"
proof -
  assume q: "quiet_step s s'" and a: "allowed reg op m (rs_own s)"
  obtain c where c: "cred_slot m (rs_own s) = Some (Inr (Some c))"
    using a by (auto simp: allowed_def split: option.splits sum.splits)
  then have "cred_slot m (rs_own s') = Some (Inr (Some c))" using q unfolding quiet_step_def by blast
  then show ?thesis using a c by (simp add: allowed_def)
qed

lemma world_call_outcome:
  assumes "world_call good bad f s = (s', r)"
  shows "rs_own s' = rs_own s \<and>
    ((\<exists>v. r = Inr v \<and> rs_trace s' = rs_trace s @ [good v]) \<or>
     (\<exists>x. r = Inl x \<and> rs_trace s' = rs_trace s @ [bad (exn_cls x)]))"
  using assms by (auto simp: world_call_def split: prod.splits sum.splits)

text \<open>C5. The executor sends at most one request, as the identity it was asked for, and only when the credentials that
  identity resolved to allow the operation and a preview operation was opted in: there is no fallback to the
  other identity and no request without credentials.\<close>

theorem executor_identity:
  assumes "wf_bot (rs_own s)" and "m \<noteq> NO_AUTH" and "execute cfg reg op m (sdk_call op q call) s = (s', r)"
  shows "\<exists>before after. rs_trace s' = rs_trace s @ before @ after \<and> list_all (\<lambda>e. \<not> is_request e) before \<and>
    wf_bot (rs_own s') \<and>
    (after = [] \<and> (\<exists>x. r = Inl x) \<or>
     (after = [Requested m op q] \<and> (\<exists>v. r = Inr v) \<or> (\<exists>x. r = Inl x \<and> after = [RequestFailed m op q (exn_cls x)])) \<and>
     allowed reg op m (rs_own s') \<and> (\<exists>sp. registry_spec reg op = Inr sp \<and> (preview sp \<longrightarrow> bc_preview cfg)))"
proof (cases "\<exists>sp. registry_spec reg op = Inr sp \<and> (preview sp \<longrightarrow> bc_preview cfg)")
  case False
  then have "s' = s \<and> (\<exists>x. r = Inl x)"
    using assms(3) by (auto simp: execute_def bind_io_def lift_bot_def not_supported_def throw_def ret_def split: sum.splits if_splits)
  then show ?thesis using assms(1) by simp
next
  case True
  then have run: "then_io (preflight_operation cfg reg op m) (bind_io (resolve_client cfg m) (sdk_call op q call)) s = (s', r)"
    using assms(3) by (auto simp: execute_def bind_io_def lift_bot_def ret_def split: if_splits)
  obtain s1 r1 where pre: "preflight_operation cfg reg op m s = (s1, r1)" by (cases "preflight_operation cfg reg op m s")
  have q1: "quiet_step s s1" and a1: "r1 = Inr () \<longrightarrow> allowed reg op m (rs_own s1)"
    using quietlyD [OF quietly_preflight assms(1) pre] by auto
  show ?thesis
  proof (cases r1)
    case (Inl x)
    then have "s' = s1" "r = Inl x" using run pre by (simp_all add: then_io_def bind_io_def)
    moreover obtain t where "rs_trace s1 = rs_trace s @ t" "list_all (\<lambda>e. \<not> is_request e) t"
      using q1 unfolding quiet_step_def by blast
    ultimately show ?thesis using quiet_wf [OF q1 assms(1)] by (intro exI [of _ t] exI [of _ "[]"]) simp
  next
    case (Inr u)
    obtain s2 r2 where res: "resolve_client cfg m s1 = (s2, r2)" by (cases "resolve_client cfg m s1")
    have q2: "quiet_step s1 s2" and idt: "\<forall>c. r2 = Inr c \<longrightarrow> cl_identity c = m"
      using quietlyD [OF quietly_resolve_client [OF assms(2)] quiet_wf [OF q1 assms(1)] res] by auto
    have q: "quiet_step s s2" and al: "allowed reg op m (rs_own s2)"
      using quiet_trans [OF q1 q2] quiet_allowed [OF q2] a1 Inr by auto
    obtain t where t: "rs_trace s2 = rs_trace s @ t" "list_all (\<lambda>e. \<not> is_request e) t"
      using q unfolding quiet_step_def by blast
    have wf2: "wf_bot (rs_own s2)" using quiet_wf [OF q assms(1)] .
    show ?thesis
    proof (cases r2)
      case (Inl x)
      then have "s' = s2" "r = Inl x" using run pre Inr res by (simp_all add: then_io_def bind_io_def)
      then show ?thesis using t wf2 by (intro exI [of _ t] exI [of _ "[]"]) simp
    next
      case (Inr c)
      then have "sdk_call op q call c s2 = (s', r)" using run pre \<open>r1 = Inr u\<close> res by (simp add: then_io_def bind_io_def)
      then have own: "rs_own s' = rs_own s2" and
        ev: "(\<exists>v. r = Inr v \<and> rs_trace s' = rs_trace s2 @ [Requested m op q]) \<or>
          (\<exists>x. r = Inl x \<and> rs_trace s' = rs_trace s2 @ [RequestFailed m op q (exn_cls x)])"
        using idt Inr unfolding sdk_call_def by (auto dest!: world_call_outcome)
      from ev show ?thesis
      proof
        assume "\<exists>v. r = Inr v \<and> rs_trace s' = rs_trace s2 @ [Requested m op q]"
        then show ?thesis using t wf2 al True own by (intro exI [of _ t] exI [of _ "[Requested m op q]"]) auto
      next
        assume "\<exists>x. r = Inl x \<and> rs_trace s' = rs_trace s2 @ [RequestFailed m op q (exn_cls x)]"
        then obtain x where "r = Inl x" "rs_trace s' = rs_trace s2 @ [RequestFailed m op q (exn_cls x)]" by blast
        then show ?thesis using t wf2 al True own
          by (intro exI [of _ t] exI [of _ "[RequestFailed m op q (exn_cls x)]"]) auto
      qed
    qed
qed
qed

section \<open>What close leaves\<close>

text \<open>The failure that leaves \<open>close\<close>: the first one of a task that is not a \<open>ChatAPIError\<close>.\<close>

fun close_failure :: "(pyexn, unit) result option list \<Rightarrow> pyexn option" where
  "close_failure [] = None"
| "close_failure (Some (Inl x) # ts) = (if issubclass (exn_cls x) (Api ChatAPIError) then close_failure ts else Some x)"
| "close_failure (_ # ts) = close_failure ts"

lemma await_tasks_eq:
  "await_tasks outcomes s = (s, case close_failure outcomes of None \<Rightarrow> Inr () | Some x \<Rightarrow> Inl x)"
proof -
  have c: "\<not> issubclass (Py CancelledError) (Api ChatAPIError)" by code_simp
  show ?thesis
    by (induction outcomes rule: close_failure.induct) (use c in \<open>auto simp: ret_def throw_def\<close>)
qed

definition open_transports :: "bot \<Rightarrow> transport list" where
  "open_transports b = remdups (map cl_transport (List.map_filter id [bt_client b, bt_user_client b]))"

fun fresh_transports :: "transport list \<Rightarrow> client option list \<Rightarrow> transport list" where
  "fresh_transports d [] = []"
| "fresh_transports d (None # cs) = fresh_transports d cs"
| "fresh_transports d (Some c # cs) =
     (if cl_transport c \<in> set d then fresh_transports d cs
      else cl_transport c # fresh_transports (cl_transport c # d) cs)"

lemma fresh_open: "fresh_transports [] [bt_client b, bt_user_client b] = open_transports b"
  by (cases "bt_client b"; cases "bt_user_client b") (simp_all add: open_transports_def map_filter_simps)

lemma close_transports_eq:
  assumes ok: "\<And>t w. \<exists>w'. closer t w = (w', Inr ())"
  shows "\<exists>w. close_transports closer d cs s =
    (s\<lparr> rs_world := w, rs_trace := rs_trace s @ map TransportClosed (fresh_transports d cs) \<rparr>, Inr ())"
proof (induction d cs arbitrary: s rule: fresh_transports.induct)
  case (1 d)
  show ?case by (rule exI [of _ "rs_world s"]) (simp add: ret_def)
next
  case (3 d c cs)
  show ?case
  proof (cases "cl_transport c \<in> set d")
    case False
    obtain w1 where "closer (cl_transport c) (rs_world s) = (w1, Inr ())" using ok by blast
    then have one: "world_call (\<lambda>_. TransportClosed (cl_transport c)) (CloseFailed (cl_transport c)) (closer (cl_transport c)) s =
      (s\<lparr> rs_world := w1, rs_trace := rs_trace s @ [TransportClosed (cl_transport c)] \<rparr>, Inr ())"
      by (simp add: world_call_def)
    show ?thesis
      using False one 3(2) [OF False, of "s\<lparr> rs_world := w1, rs_trace := rs_trace s @ [TransportClosed (cl_transport c)] \<rparr>"]
      by (simp add: then_io_def bind_io_def)
  qed (use 3 in simp)
qed simp


section \<open>Concrete runs\<close>

definition app_key :: credentials where
  "app_key = \<lparr> cr_subject = False, cr_signer = True, cr_refresh = False, cr_granted = NoScopes,
               cr_scopes = ScopeList [''https://www.googleapis.com/auth/chat.bot''], cr_default = NoScopes \<rparr>"

definition app_bot :: "nat bot_config" where
  "app_bot = \<lparr> bc_credentials = None, bc_provider = Some (\<lambda>n. (Suc n, Inr (Some app_key))), bc_user_provider = None,
               bc_auth_mode = None, bc_transport = False, bc_preview = False \<rparr>"

definition list_only :: registry where
  "list_only =
     [(MESSAGES_LIST,
       \<lparr> sp_operation = MESSAGES_LIST, google_method = ''ListMessages'',
         auth_paths = [\<lparr> identity = APP, any_scope = scopes [''chat.bot''], variant = NORMAL, request_flag = None \<rparr>],
         paginated = True, preview = False, retry_policy = None \<rparr>)]"

definition start_run :: "(string bot_effect, unit, nat, bot) run_state" where
  "start_run = \<lparr> rs_store = (), rs_world = 0, rs_own = new_bot, rs_trace = [] \<rparr>"

lemma start_run_wf: "wf_bot (rs_own start_run)"
  using new_bot_wf by (simp add: start_run_def)

definition answer_seven :: "client \<Rightarrow> nat \<Rightarrow> nat \<times> (rpc_failure, nat) result" where
  "answer_seven cl n = (n, Inr 7)"

lemma executor_identity_witness:
  "\<exists>before after. rs_trace (fst (execute app_bot list_only MESSAGES_LIST APP (sdk_call MESSAGES_LIST ''spaces/A'' answer_seven) start_run)) = before @ after \<and>
     list_all (\<lambda>e. \<not> is_request e) before \<and> after = [Requested APP MESSAGES_LIST ''spaces/A'']"
proof -
  obtain s' r where run: "execute app_bot list_only MESSAGES_LIST APP (sdk_call MESSAGES_LIST ''spaces/A'' answer_seven) start_run = (s', r)"
    by (cases "execute app_bot list_only MESSAGES_LIST APP (sdk_call MESSAGES_LIST ''spaces/A'' answer_seven) start_run")
  have "snd (execute app_bot list_only MESSAGES_LIST APP (sdk_call MESSAGES_LIST ''spaces/A'' answer_seven) start_run) = Inr 7" by code_simp
  then have r: "r = Inr 7" using run by simp
  then show ?thesis using executor_identity [OF start_run_wf _ run] run by (auto simp: start_run_def)
qed

definition failing_outcomes :: "(pyexn, unit) result option list" where
  "failing_outcomes = [None, Some (Inl (exn (Py OSErr))), None, None]"

definition serving_run :: "(string bot_effect, unit, nat, bot) run_state" where
  "serving_run = start_run\<lparr> rs_own := new_bot\<lparr> bt_client := Some \<lparr> cl_identity = APP, cl_transport = OwnTransport APP \<rparr> \<rparr> \<rparr>"


section \<open>Access outside the event loop and by identity\<close>

text \<open>\<open>_resolve_credentials\<close>, \<open>auth_mode\<close> and \<open>_get_client\<close>, which run without a task.\<close>

definition resolve_sync :: "'w bot_config \<Rightarrow> ('q, 'w, credentials option) bot_io" where
  "resolve_sync cfg =
     bind_io get_own (\<lambda>b.
       case bt_resolved b of
         Some c \<Rightarrow> ret c
       | None \<Rightarrow>
           if bt_closed b then closed_error
           else bind_io (case bc_provider cfg of Some p \<Rightarrow> ask_provider APP p | None \<Rightarrow> ret (bc_credentials cfg)) (\<lambda>c.
             then_io (own_io (bt_resolved_update (\<lambda>_. Some c))) (ret c)))"

definition auth_mode_sync :: "'w bot_config \<Rightarrow> ('q, 'w, auth_mode option) bot_io" where
  "auth_mode_sync cfg =
     (case bc_auth_mode cfg of
        Some m \<Rightarrow> ret (Some m)
      | None \<Rightarrow> bind_io (resolve_sync cfg) (\<lambda>c. ret (classify c)))"

definition get_client_sync :: "'w bot_config \<Rightarrow> ('q, 'w, client) bot_io" where
  "get_client_sync cfg =
     bind_io get_own (\<lambda>b.
       if bt_closed b then closed_error
       else (case bt_client b of Some c \<Rightarrow> ret c | None \<Rightarrow> bind_io (resolve_sync cfg) (build_client cfg)))"

text \<open>\<open>RawClients\<close>.\<close>

definition raw_app :: "'w bot_config \<Rightarrow> ('q, 'w, client) bot_io" where
  "raw_app cfg = get_client cfg"

definition raw_user :: "'w bot_config \<Rightarrow> ('q, 'w, client) bot_io" where
  "raw_user cfg = get_user_client cfg"

text \<open>On an open bot with no resolution under way the two ways to resolve ask the same and answer the same.\<close>

lemma resolve_sync_agrees:
  assumes "\<not> bt_closed (rs_own s)" and "bt_cred_task (rs_own s) = None"
  shows "snd (resolve_sync cfg s) = snd (resolve_credentials cfg s) \<and>
    rs_trace (fst (resolve_sync cfg s)) = rs_trace (fst (resolve_credentials cfg s)) \<and>
    rs_world (fst (resolve_sync cfg s)) = rs_world (fst (resolve_credentials cfg s)) \<and>
    bt_resolved (rs_own (fst (resolve_sync cfg s))) = bt_resolved (rs_own (fst (resolve_credentials cfg s)))"
  using assms
  by (simp add: resolve_sync_def resolve_credentials_def single_flight_def resolve_once_def bind_io_def then_io_def
      get_own_def ret_def own_io_def ask_provider_def world_call_def split: option.splits prod.splits sum.splits)

end
