(* ===== verification/Providers.thy ===== *)
theory Providers
  imports Bot
begin

text \<open>
  The credential providers (\<open>auth/providers.py\<close>): service accounts, authorized users with a refresh, and domain-wide
  delegation. What the Google auth library makes of a file or of an info mapping, whether credentials have expired,
  and its \<open>refresh\<close> and \<open>with_subject\<close> are parameters.
\<close>

definition chat_bot_scope :: string where
  "chat_bot_scope = ''https://www.googleapis.com/auth/chat.bot''"

definition user_scope :: string where
  "user_scope = ''https://www.googleapis.com/auth/chat.messages''"

record 'w google_auth =
  au_file :: "string \<Rightarrow> string list \<Rightarrow> 'w \<Rightarrow> 'w \<times> (pyexn, credentials) result"
  au_info :: "(string, pyval) pdict \<Rightarrow> string list \<Rightarrow> 'w \<Rightarrow> 'w \<times> (pyexn, credentials) result"
  au_user :: "(string, pyval) pdict \<Rightarrow> 'w \<Rightarrow> 'w \<times> (pyexn, credentials) result"
  au_expired :: "credentials \<Rightarrow> 'w \<Rightarrow> bool"
  au_refresh :: "credentials \<Rightarrow> ('w \<Rightarrow> 'w \<times> (pyexn, unit) result) option"
  au_with_subject :: "credentials \<Rightarrow> (string \<Rightarrow> 'w \<Rightarrow> 'w \<times> (pyexn, credentials option) result) option"

section \<open>The providers\<close>

record service_account =
  sa_credentials :: "credentials option"
  sa_file :: "string option"
  sa_info :: "(string, pyval) pdict option"
  sa_scopes :: "string list"

definition service_from_file :: "string \<Rightarrow> string list option \<Rightarrow> service_account" where
  "service_from_file fname ss =
     \<lparr> sa_credentials = None, sa_file = Some fname, sa_info = None,
       sa_scopes = (case ss of Some ss \<Rightarrow> ss | None \<Rightarrow> [chat_bot_scope]) \<rparr>"

definition service_from_info :: "(string, pyval) pdict \<Rightarrow> string list option \<Rightarrow> service_account" where
  "service_from_info info ss =
     \<lparr> sa_credentials = None, sa_file = None, sa_info = Some info,
       sa_scopes = (case ss of Some ss \<Rightarrow> ss | None \<Rightarrow> [chat_bot_scope]) \<rparr>"

definition call_service :: "'w google_auth \<Rightarrow> service_account \<Rightarrow> 'w \<Rightarrow> 'w \<times> (pyexn, credentials) result" where
  "call_service au sa w =
     (case sa_credentials sa of
        Some c \<Rightarrow> (w, Inr c)
      | None \<Rightarrow>
          (case sa_file sa of
             Some p \<Rightarrow> au_file au p (sa_scopes sa) w
           | None \<Rightarrow>
               (case sa_info sa of
                  Some i \<Rightarrow> au_info au i (sa_scopes sa) w
                | None \<Rightarrow> (w, Inl (exn (Py ValueErr))))))"

datatype user_source = UserCredentials credentials | UserInfo "(string, pyval) pdict"

record user_provider =
  up_source :: user_source
  up_refresh :: bool

definition user_credentials :: "'w google_auth \<Rightarrow> user_provider \<Rightarrow> 'w \<Rightarrow> 'w \<times> (pyexn, credentials) result" where
  "user_credentials au up w = (case up_source up of UserCredentials c \<Rightarrow> (w, Inr c) | UserInfo i \<Rightarrow> au_user au i w)"

definition call_user :: "'w google_auth \<Rightarrow> user_provider \<Rightarrow> 'w \<Rightarrow> 'w \<times> (pyexn, credentials) result" where
  "call_user au up w =
     (case user_credentials au up w of
        (w1, Inl x) \<Rightarrow> (w1, Inl x)
      | (w1, Inr c) \<Rightarrow>
          if up_refresh up \<and> au_expired au c w1
          then (case au_refresh au c of
                  None \<Rightarrow> (w1, Inr c)
                | Some f \<Rightarrow> (case f w1 of (w2, Inl x) \<Rightarrow> (w2, Inl x) | (w2, Inr u) \<Rightarrow> (w2, Inr c)))
          else (w1, Inr c))"

record 'w delegated =
  dl_provider :: "'w \<Rightarrow> 'w \<times> (pyexn, credentials) result"
  dl_subject :: string

definition delegated_from_file ::
    "'w google_auth \<Rightarrow> string \<Rightarrow> string \<Rightarrow> string list option \<Rightarrow> 'w delegated" where
  "delegated_from_file au fname subject ss =
     \<lparr> dl_provider = call_service au (service_from_file fname (Some (case ss of Some ss \<Rightarrow> ss | None \<Rightarrow> [user_scope]))),
       dl_subject = subject \<rparr>"

definition call_delegated :: "'w google_auth \<Rightarrow> 'w delegated \<Rightarrow> 'w \<Rightarrow> 'w \<times> (pyexn, credentials) result" where
  "call_delegated au dl w =
     (case dl_provider dl w of
        (w1, Inl x) \<Rightarrow> (w1, Inl x)
      | (w1, Inr c) \<Rightarrow>
          (case au_with_subject au c of
             None \<Rightarrow> (w1, Inl (exn (Py ValueErr)))
           | Some f \<Rightarrow>
               (case f (dl_subject dl) w1 of
                  (w2, Inl x) \<Rightarrow> (w2, Inl x)
                | (w2, Inr None) \<Rightarrow> (w2, Inl (exn (Py ValueErr)))
                | (w2, Inr (Some d)) \<Rightarrow> (w2, Inr d))))"

section \<open>The identities they give\<close>

text \<open>A provider as the bot calls it.\<close>

definition as_provider :: "('w \<Rightarrow> 'w \<times> (pyexn, credentials) result) \<Rightarrow> 'w provider" where
  "as_provider p w = (case p w of (w', Inl x) \<Rightarrow> (w', Inl x) | (w', Inr c) \<Rightarrow> (w', Inr (Some c)))"

text \<open>What the library documents: credentials with a subject carry it.\<close>

definition subject_carried :: "'w google_auth \<Rightarrow> bool" where
  "subject_carried au \<longleftrightarrow>
     (\<forall>c f s w w' d. au_with_subject au c = Some f \<longrightarrow> s \<noteq> [] \<longrightarrow> f s w = (w', Inr (Some d)) \<longrightarrow> cr_subject d)"

lemma delegated_subject:
  assumes "subject_carried au" and "dl_subject dl \<noteq> []" and "call_delegated au dl w = (w', Inr c)"
  shows "classify (Some c) = Some USER_AUTH"
  using assms
  by (auto simp: call_delegated_def subject_carried_def classify_def split: prod.splits sum.splits option.splits)

text \<open>
  Delegation never acts as the application: whatever the file holds, the credentials of a delegated provider are those
  of the USER identity, and the preflight of an operation as APP refuses them whatever the registry says.\<close>

theorem delegated_acts_as_user:
  assumes "subject_carried au" and "dl_subject dl \<noteq> []" and "call_delegated au dl w = (w', Inr c)"
  shows "classify (Some c) = Some USER_AUTH \<and> (\<exists>x. check_credentials reg opr APP (Some c) = Inl x)"
  using delegated_subject [OF assms] by (auto simp: check_credentials_def)

definition plain_library :: "unit google_auth" where
  "plain_library =
     (let key = \<lparr> cr_subject = False, cr_signer = True, cr_refresh = False, cr_granted = NoScopes, cr_scopes = NoScopes,
                  cr_default = NoScopes \<rparr>
      in \<lparr> au_file = (\<lambda>f ss w. (w, Inr key)), au_info = (\<lambda>i ss w. (w, Inr key)), au_user = (\<lambda>i w. (w, Inr key)),
           au_expired = (\<lambda>c w. False), au_refresh = (\<lambda>c. None),
           au_with_subject = (\<lambda>c. Some (\<lambda>s w. (w, Inr (Some (c\<lparr> cr_subject := s \<noteq> [] \<rparr>))))) \<rparr>)"

lemma delegated_acts_as_user_witness:
  "\<exists>c. snd (call_delegated plain_library (delegated_from_file plain_library ''key.json'' ''ann@example.com'' None) ()) = Inr c \<and>
     classify (Some c) = Some USER_AUTH \<and> (\<exists>x. check_credentials [] MESSAGES_CREATE APP (Some c) = Inl x)"
proof -
  let ?dl = "delegated_from_file plain_library ''key.json'' ''ann@example.com'' None"
  have l: "subject_carried plain_library" by (auto simp: subject_carried_def plain_library_def Let_def)
  have n: "dl_subject ?dl \<noteq> []" by (simp add: delegated_from_file_def)
  obtain c where c: "call_delegated plain_library ?dl () = ((), Inr c)"
    by (simp add: call_delegated_def delegated_from_file_def call_service_def service_from_file_def plain_library_def Let_def)
  show ?thesis using delegated_acts_as_user [OF l n c, of "[]" MESSAGES_CREATE] c by auto
qed

end
