(* ===== verification/Resources.thy ===== *)
theory Resources
  imports "Bot"
begin

text \<open>
  The resource clients (\<open>client/resources/\<close>, \<open>client/_proto_helpers.py\<close>): what is checked before anything is
  sent, the requests that are built, and the executor path they take. A request is a value, so that the trace of
  a run says what was sent and as whom. The SDK calls, the REST upload and download (\<open>media/_rest.py\<close>), the
  file system and the asset publisher are arguments.
\<close>

section \<open>Requests\<close>

record data_ref =
  dr_resource :: "string option"
  dr_token :: "string option"

record create_request =
  cr_parent :: string
  cr_text :: string
  cr_markup :: "string option"
  cr_attached :: "data_ref list"
  cr_viewer :: "string option"
  cr_card :: "pyval option"
  cr_accessory :: "pyval list"
  cr_thread_name :: "string option"
  cr_thread_key :: "string option"
  cr_reply :: "int option"
  cr_request_id :: "string option"
  cr_message_id :: "string option"
  cr_notify :: "string option"

datatype chat_request =
    CreateMessage create_request | GetMessage string
  | UpdateMessage string "string option" "pyval option" "string list"
  | ListMessages string "int option" | DeleteMessage string
  | UploadMedia string string "string option" string | DownloadMedia string | GetAttachment string
  | GetSpace string | ListSpaces "string option" "int option" | FindDirectMessage string | SetUpSpace string
  | CreateMembership string string "string option" "int option" | GetMembership string
  | ListMemberships string "string option" "int option" | DeleteMembership string
  | CreateReaction string string | ListReactions string "int option" | DeleteReaction string
  | GetReadState string | UpdateReadState string "int option" | GetThreadReadState string
  | GetNotificationSetting string | UpdateNotificationSetting string pyval "string list"

type_synonym ('w, 'a) chat_io = "(chat_request, 'w, 'a) bot_io"

text \<open>The bot a resource client belongs to, with everything outside it. \<open>'v\<close> is what the SDK answers.\<close>

record ('w, 'v) chat_env =
  ce_cfg :: "'w bot_config"
  ce_reg :: registry
  ce_sdk :: "chat_request \<Rightarrow> call_kwarg list \<Rightarrow> client \<Rightarrow> 'w \<Rightarrow> 'w \<times> (rpc_failure, 'v) result"
  ce_upload :: "credentials option \<Rightarrow> chat_request \<Rightarrow> rat option \<Rightarrow> 'w \<Rightarrow> 'w \<times> (pyexn, wire_dict) result"
  ce_download :: "credentials option \<Rightarrow> string \<Rightarrow> rat option \<Rightarrow> 'w \<Rightarrow> 'w \<times> (pyexn, string) result"
  ce_stat :: "'w \<Rightarrow> string \<Rightarrow> file_stat option"
  ce_open :: "'w opener"
  ce_write :: "string \<Rightarrow> string \<Rightarrow> 'w \<Rightarrow> 'w \<times> (pyexn, unit) result"
  ce_url :: "string \<Rightarrow> (pyexn, string \<times> string) result"
  ce_publisher :: "'w publisher option"
  ce_build :: "string \<Rightarrow> pyval \<Rightarrow> (pyexn, pyval) result"
  ce_read_widget :: "wire_dict \<Rightarrow> (pyexn, pyval) result"
  ce_read_card :: "wire_dict \<Rightarrow> (pyexn, pyval) result"
  ce_other :: "pyval \<Rightarrow> string"

definition send_request ::
    "('w, 'v) chat_env \<Rightarrow> auth_mode \<Rightarrow> operation \<Rightarrow> chat_request \<Rightarrow> request_config \<Rightarrow> ('w, 'v) chat_io" where
  "send_request env m op q cfg =
     execute (ce_cfg env) (ce_reg env) op m (sdk_call op q (ce_sdk env q (gapic_kwargs cfg)))"

text \<open>\<open>ResourceClient._preflight\<close>: the executor with a call that does nothing.\<close>

definition preflight_only :: "('w, 'v) chat_env \<Rightarrow> auth_mode \<Rightarrow> operation \<Rightarrow> ('w, unit) chat_io" where
  "preflight_only env m op = execute (ce_cfg env) (ce_reg env) op m (\<lambda>cl. ret ())"

text \<open>\<open>_attachment_data_ref_proto\<close>.\<close>

definition truthy_item :: "wire_dict \<Rightarrow> string \<Rightarrow> string \<Rightarrow> pyval" where
  "truthy_item d k k' = (if truthy (obj_get d k) then obj_get d k else obj_get d k')"

definition text_or_none :: "pyval \<Rightarrow> string option" where
  "text_or_none v = (case v of PStr s \<Rightarrow> nonempty s | _ \<Rightarrow> None)"

definition data_ref_proto :: "wire_dict \<Rightarrow> data_ref" where
  "data_ref_proto d =
     \<lparr> dr_resource = text_or_none (truthy_item d ''resourceName'' ''resource_name''),
       dr_token = text_or_none (truthy_item d ''attachmentUploadToken'' ''attachment_upload_token'') \<rparr>"

section \<open>Attachments\<close>

definition check_file :: "('w, 'v) chat_env \<Rightarrow> input_file \<Rightarrow> ('w, unit) chat_io" where
  "check_file env f s = lift_bot (validate_file (ce_stat env (rs_world s)) f) s"

definition read_input :: "('w, 'v) chat_env \<Rightarrow> input_file \<Rightarrow> 'w \<Rightarrow> 'w \<times> (pyexn, string) result" where
  "read_input env f w =
     (case if_data f of
        Some b \<Rightarrow> (w, Inr b)
      | None \<Rightarrow> (case ce_open env (the (if_path f)) w of (w', r) \<Rightarrow> (w', read_file (\<lambda>_. r) f)))"

definition upload_call :: "('w, 'v) chat_env \<Rightarrow> string \<Rightarrow> input_file \<Rightarrow> request_config \<Rightarrow> client \<Rightarrow> ('w, wire_dict) chat_io" where
  "upload_call env parent f cfg cl =
     bind_io (world_call (\<lambda>_. FileTaken) FileTakeFailed (read_input env f)) (\<lambda>data.
       bind_io (resolve_user_credentials (ce_cfg env)) (\<lambda>c.
         (let q = UploadMedia parent (if_filename f) (if_content_type f) data
          in world_call (\<lambda>_. Requested USER_AUTH MEDIA_UPLOAD q) (RequestFailed USER_AUTH MEDIA_UPLOAD q)
               (ce_upload env c q (rq_timeout cfg)))))"

definition uploaded_of :: "('w, 'v) chat_env \<Rightarrow> string \<Rightarrow> input_file \<Rightarrow> wire_dict \<Rightarrow> (pyexn, uploaded_attachment) result" where
  "uploaded_of env parent f response =
     (case obj_get response ''attachmentDataRef'' of
        PDict d \<Rightarrow>
          uploaded_init (ce_other env)
            \<lparr> ua_space = parent, ua_filename = if_filename f, ua_data_ref = d, ua_raw = Some response \<rparr>
      | _ \<Rightarrow> Inl (exn (Api ChatAPIError)))"

definition upload ::
    "('w, 'v) chat_env \<Rightarrow> auth_mode \<Rightarrow> space_like \<Rightarrow> input_file \<Rightarrow> request_config option \<Rightarrow> rat option
     \<Rightarrow> ('w, uploaded_attachment) chat_io" where
  "upload env m sp f config timeout =
     bind_io (lift_bot (canonical_space sp)) (\<lambda>parent.
       bind_io (check_file env f) (\<lambda>_.
         bind_io
           (execute (ce_cfg env) (ce_reg env) MEDIA_UPLOAD m (upload_call env parent f (effective_config config timeout)))
           (\<lambda>response. lift_bot (uploaded_of env parent f response))))"

datatype download_arg = ByRef attachment_ref | ByName string

definition download_name :: "download_arg \<Rightarrow> (pyexn, string) result" where
  "download_name a =
     (case a of
        ByRef r \<Rightarrow>
          if is_drive r then api_error
          else (case resource_name r of Some n \<Rightarrow> if n = [] then api_error else Inr n | None \<Rightarrow> api_error)
      | ByName n \<Rightarrow> if n = [] then api_error else Inr n)"

definition download_call :: "('w, 'v) chat_env \<Rightarrow> auth_mode \<Rightarrow> string \<Rightarrow> request_config \<Rightarrow> client \<Rightarrow> ('w, string) chat_io" where
  "download_call env m n cfg cl =
     bind_io (identity_credentials (ce_cfg env) m) (\<lambda>c.
       world_call (\<lambda>_. Requested m MEDIA_DOWNLOAD (DownloadMedia n)) (RequestFailed m MEDIA_DOWNLOAD (DownloadMedia n))
         (ce_download env c n (rq_timeout cfg)))"

text \<open>The bytes, or the path they were written to.\<close>

definition download ::
    "('w, 'v) chat_env \<Rightarrow> auth_mode \<Rightarrow> download_arg \<Rightarrow> string option \<Rightarrow> request_config option \<Rightarrow> rat option
     \<Rightarrow> ('w, string) chat_io" where
  "download env m a destination config timeout =
     bind_io (lift_bot (download_name a)) (\<lambda>n.
       bind_io
         (execute (ce_cfg env) (ce_reg env) MEDIA_DOWNLOAD m (download_call env m n (effective_config config timeout)))
         (\<lambda>data.
           case destination of
             None \<Rightarrow> ret data
           | Some p \<Rightarrow>
               then_io (world_call (\<lambda>_. FileTaken) FileTakeFailed (ce_write env p data)) (ret p)))"

definition get_metadata ::
    "('w, 'v) chat_env \<Rightarrow> ('v \<Rightarrow> attachment_proto) \<Rightarrow> auth_mode \<Rightarrow> string \<Rightarrow> request_config option \<Rightarrow> rat option
     \<Rightarrow> ('w, attachment_ref) chat_io" where
  "get_metadata env as_proto m n config timeout =
     bind_io (send_request env m ATTACHMENT_METADATA_GET (GetAttachment n) (effective_config config timeout))
       (\<lambda>v. lift_bot (attachment_of_proto (ce_other env) (as_proto v)))"


section \<open>Spaces\<close>

definition get_space ::
    "('w, 'v) chat_env \<Rightarrow> auth_mode \<Rightarrow> string \<Rightarrow> request_config option \<Rightarrow> rat option \<Rightarrow> ('w, 'v) chat_io" where
  "get_space env m n config timeout = send_request env m SPACES_GET (GetSpace n) (effective_config config timeout)"

text \<open>The listing operations: what their pager fetches.\<close>

definition list_spaces ::
    "('w, 'v) chat_env \<Rightarrow> auth_mode \<Rightarrow> string option \<Rightarrow> int option \<Rightarrow> request_config option \<Rightarrow> rat option
     \<Rightarrow> ('w, 'v) chat_io" where
  "list_spaces env m flt page config timeout =
     send_request env m SPACES_LIST (ListSpaces flt page) (effective_config config timeout)"

definition find_direct_message ::
    "('w, 'v) chat_env \<Rightarrow> auth_mode \<Rightarrow> string \<Rightarrow> request_config option \<Rightarrow> rat option \<Rightarrow> ('w, 'v) chat_io" where
  "find_direct_message env m usr config timeout =
     bind_io (lift_bot (canonical_user (UserText usr))) (\<lambda>n.
       send_request env m SPACES_FIND_DIRECT_MESSAGE (FindDirectMessage n) (effective_config config timeout))"

definition get_or_setup_direct_message ::
    "('w, 'v) chat_env \<Rightarrow> auth_mode \<Rightarrow> bool \<Rightarrow> string \<Rightarrow> request_config option \<Rightarrow> rat option \<Rightarrow> ('w, 'v) chat_io" where
  "get_or_setup_direct_message env m allow_setup usr config timeout =
     (if \<not> allow_setup then throw (exn (Api ChatAPIError))
      else bind_io (lift_bot (canonical_user (UserText usr))) (\<lambda>n.
        catch_io (find_direct_message env m usr config timeout)
          (\<lambda>x. if issubclass (exn_cls x) (Api ChatNotFoundError)
               then send_request env m SPACES_SETUP (SetUpSpace n) (effective_config config timeout)
               else throw x)))"

section \<open>Memberships\<close>

text \<open>\<open>value.split(''/members/'', 1)\<close>: the two parts, when the separator is there.\<close>

fun split_members :: "string \<Rightarrow> (string \<times> string) option" where
  "split_members [] = None"
| "split_members (c # cs) =
     (if py_startswith (c # cs) ''/members/'' then Some ([], drop (length ''/members/'') (c # cs))
      else map_option (\<lambda>(a, b). (c # a, b)) (split_members cs))"

definition check_membership_name :: "string \<Rightarrow> (pyexn, string) result" where
  "check_membership_name n =
     (let v = py_strip n
      in if \<not> py_startswith v ''spaces/'' then api_error
         else (case split_members v of
                 None \<Rightarrow> api_error
               | Some (a, b) \<Rightarrow> if py_removeprefix a ''spaces/'' = [] \<or> b = [] then api_error else Inr v))"

definition canonical_group :: "string \<Rightarrow> (pyexn, string) result" where
  "canonical_group g =
     (let v = py_strip g
      in if v = [] then api_error
         else if CHR ''/'' \<notin> set v then Inr (''groups/'' @ v)
         else if \<not> py_startswith v ''groups/'' \<or> count_list v (CHR ''/'') \<noteq> 1 then api_error
         else Inr v)"

text \<open>The member a membership is created for: its name, and the type of a user.\<close>

definition member_of ::
    "user_like option \<Rightarrow> string option \<Rightarrow> int option \<Rightarrow> (pyexn, string \<times> int option) result" where
  "member_of usr grp ut =
     (case usr of
        Some u \<Rightarrow> bind_res (canonical_user u) (\<lambda>n. Inr (n, ut))
      | None \<Rightarrow> (case grp of Some g \<Rightarrow> bind_res (canonical_group g) (\<lambda>n. Inr (n, None)) | None \<Rightarrow> api_error))"

definition create_membership ::
    "('w, 'v) chat_env \<Rightarrow> auth_mode \<Rightarrow> space_like \<Rightarrow> user_like option \<Rightarrow> string option \<Rightarrow> string option \<Rightarrow> int option
     \<Rightarrow> request_config option \<Rightarrow> rat option \<Rightarrow> ('w, 'v) chat_io" where
  "create_membership env m parent usr grp role ut config timeout =
     bind_io (lift_bot (canonical_space parent)) (\<lambda>sp.
       bind_io (lift_bot (member_of usr grp ut)) (\<lambda>(n, t).
         send_request env m MEMBERSHIPS_CREATE (CreateMembership sp n role t) (effective_config config timeout)))"

definition get_membership ::
    "('w, 'v) chat_env \<Rightarrow> auth_mode \<Rightarrow> string \<Rightarrow> request_config option \<Rightarrow> rat option \<Rightarrow> ('w, 'v) chat_io" where
  "get_membership env m n config timeout =
     bind_io (lift_bot (check_membership_name n)) (\<lambda>v.
       send_request env m MEMBERSHIPS_GET (GetMembership v) (effective_config config timeout))"

definition list_memberships ::
    "('w, 'v) chat_env \<Rightarrow> auth_mode \<Rightarrow> space_like \<Rightarrow> string option \<Rightarrow> int option \<Rightarrow> request_config option \<Rightarrow> rat option
     \<Rightarrow> ('w, ('w, 'v) chat_io) chat_io" where
  "list_memberships env m parent flt page config timeout =
     bind_io (lift_bot (canonical_space parent)) (\<lambda>sp.
       ret (send_request env m MEMBERSHIPS_LIST (ListMemberships sp flt page) (effective_config config timeout)))"

definition delete_membership ::
    "('w, 'v) chat_env \<Rightarrow> auth_mode \<Rightarrow> string \<Rightarrow> request_config option \<Rightarrow> rat option \<Rightarrow> ('w, 'v) chat_io" where
  "delete_membership env m n config timeout =
     bind_io (lift_bot (check_membership_name n)) (\<lambda>v.
       send_request env m MEMBERSHIPS_DELETE (DeleteMembership v) (effective_config config timeout))"

section \<open>Reactions and user state\<close>

definition create_reaction ::
    "('w, 'v) chat_env \<Rightarrow> auth_mode \<Rightarrow> string \<Rightarrow> string \<Rightarrow> request_config option \<Rightarrow> rat option \<Rightarrow> ('w, 'v) chat_io" where
  "create_reaction env m msg emoji config timeout =
     send_request env m REACTIONS_CREATE (CreateReaction msg emoji) (effective_config config timeout)"

definition list_reactions ::
    "('w, 'v) chat_env \<Rightarrow> auth_mode \<Rightarrow> string \<Rightarrow> int option \<Rightarrow> request_config option \<Rightarrow> rat option \<Rightarrow> ('w, 'v) chat_io" where
  "list_reactions env m msg page config timeout =
     send_request env m REACTIONS_LIST (ListReactions msg page) (effective_config config timeout)"

definition delete_reaction ::
    "('w, 'v) chat_env \<Rightarrow> auth_mode \<Rightarrow> string \<Rightarrow> request_config option \<Rightarrow> rat option \<Rightarrow> ('w, unit) chat_io" where
  "delete_reaction env m n config timeout =
     then_io (send_request env m REACTIONS_DELETE (DeleteReaction n) (effective_config config timeout)) (ret ())"

definition get_read_state ::
    "('w, 'v) chat_env \<Rightarrow> auth_mode \<Rightarrow> string \<Rightarrow> request_config option \<Rightarrow> rat option \<Rightarrow> ('w, 'v) chat_io" where
  "get_read_state env m n config timeout =
     send_request env m SPACE_READ_STATE_GET (GetReadState n) (effective_config config timeout)"

definition update_read_state ::
    "('w, 'v) chat_env \<Rightarrow> auth_mode \<Rightarrow> string \<Rightarrow> int option \<Rightarrow> request_config option \<Rightarrow> rat option \<Rightarrow> ('w, 'v) chat_io" where
  "update_read_state env m n last_read config timeout =
     send_request env m SPACE_READ_STATE_UPDATE (UpdateReadState n last_read) (effective_config config timeout)"

definition get_thread_read_state ::
    "('w, 'v) chat_env \<Rightarrow> auth_mode \<Rightarrow> string \<Rightarrow> request_config option \<Rightarrow> rat option \<Rightarrow> ('w, 'v) chat_io" where
  "get_thread_read_state env m n config timeout =
     send_request env m THREAD_READ_STATE_GET (GetThreadReadState n) (effective_config config timeout)"

definition get_notification_setting ::
    "('w, 'v) chat_env \<Rightarrow> auth_mode \<Rightarrow> string \<Rightarrow> request_config option \<Rightarrow> rat option \<Rightarrow> ('w, 'v) chat_io" where
  "get_notification_setting env m n config timeout =
     send_request env m NOTIFICATION_SETTING_GET (GetNotificationSetting n) (effective_config config timeout)"

definition update_notification_setting ::
    "('w, 'v) chat_env \<Rightarrow> auth_mode \<Rightarrow> string \<Rightarrow> pyval \<Rightarrow> string list \<Rightarrow> request_config option \<Rightarrow> rat option
     \<Rightarrow> ('w, 'v) chat_io" where
  "update_notification_setting env m n setting paths config timeout =
     send_request env m NOTIFICATION_SETTING_UPDATE (UpdateNotificationSetting n setting paths) (effective_config config timeout)"

section \<open>Paging\<close>

text \<open>
  \<open>Pager\<close>: \<open>collect\<close> fetches anew and takes items one by one. \<open>next_item\<close> is the iterator of the fetched SDK
  pager, \<open>None\<close> at its end; \<open>fuel\<close> bounds the items taken, \<open>None\<close> when it does not suffice.\<close>

fun collect_items ::
    "('w, 'i option) chat_io \<Rightarrow> nat option \<Rightarrow> 'i list \<Rightarrow> nat \<Rightarrow> ('w, 'i list option) chat_io" where
  "collect_items next_item limit items 0 = ret None"
| "collect_items next_item limit items (Suc fuel) =
     bind_io next_item (\<lambda>oi.
       case oi of
         None \<Rightarrow> ret (Some items)
       | Some i \<Rightarrow>
           (let items' = items @ [i]
            in if (case limit of Some n \<Rightarrow> n \<le> length items' | None \<Rightarrow> False) then ret (Some items')
               else collect_items next_item limit items' fuel))"

definition collect ::
    "('w, 'p) chat_io \<Rightarrow> ('p \<Rightarrow> ('w, 'i option) chat_io) \<Rightarrow> nat option \<Rightarrow> nat \<Rightarrow> ('w, 'i list option) chat_io" where
  "collect fetch iter limit fuel =
     bind_io fetch (\<lambda>p. collect_items (iter p) limit [] fuel)"


section \<open>What a computation sends\<close>

text \<open>\<open>sends m Q\<close>: started on a well-formed bot, \<open>m\<close> leaves one, and the requests it adds to the trace and its
  outcome are as \<open>Q\<close> says.\<close>

definition sends ::
    "('w, 'a) chat_io \<Rightarrow> (chat_request bot_effect list \<Rightarrow> (pyexn, 'a) result \<Rightarrow> bool) \<Rightarrow> bool" where
  "sends m Q \<longleftrightarrow>
     (\<forall>s s' r. wf_bot (rs_own s) \<longrightarrow> m s = (s', r) \<longrightarrow>
        wf_bot (rs_own s') \<and> (\<exists>t. rs_trace s' = rs_trace s @ t \<and> Q (filter is_request t) r))"

lemma sendsD:
  assumes "sends m Q" "wf_bot (rs_own s)" "m s = (s', r)"
  obtains t where "wf_bot (rs_own s')" "rs_trace s' = rs_trace s @ t" "Q (filter is_request t) r"
  using assms unfolding sends_def by blast

lemma sendsI:
  assumes "\<And>s s' r. wf_bot (rs_own s) \<Longrightarrow> m s = (s', r) \<Longrightarrow>
    wf_bot (rs_own s') \<and> (\<exists>t. rs_trace s' = rs_trace s @ t \<and> Q (filter is_request t) r)"
  shows "sends m Q"
  using assms unfolding sends_def by blast

lemma sends_weaken: "sends m Q \<Longrightarrow> (\<And>t r. Q t r \<Longrightarrow> R t r) \<Longrightarrow> sends m R"
  unfolding sends_def by meson

lemma sends_ret: "Q [] (Inr v) \<Longrightarrow> sends (ret v) Q"
  by (auto simp: sends_def ret_def)

lemma sends_throw: "Q [] (Inl x) \<Longrightarrow> sends (throw x) Q"
  by (auto simp: sends_def throw_def)

lemma sends_lift: "Q [] q \<Longrightarrow> sends (lift_bot q) Q"
  by (cases q) (auto simp: lift_bot_def intro: sends_ret sends_throw)

text \<open>A call that is noted as something else than a request.\<close>

lemma sends_world:
  assumes "\<And>v. \<not> is_request (good v)" "\<And>c. \<not> is_request (bad c)" "\<And>r. Q [] r"
  shows "sends (world_call good bad f) Q"
proof (rule sendsI)
  fix s s' r assume wf: "wf_bot (rs_own s)" and run: "world_call good bad f s = (s', r)"
  show "wf_bot (rs_own s') \<and> (\<exists>t. rs_trace s' = rs_trace s @ t \<and> Q (filter is_request t) r)"
    using world_call_outcome [OF run] wf assms by auto
qed

lemma sends_request:
  assumes "\<And>v. is_request (good v)" "\<And>c. is_request (bad c)"
  shows "sends (world_call good bad f)
    (\<lambda>t r. (\<exists>v. r = Inr v \<and> t = [good v]) \<or> (\<exists>x. r = Inl x \<and> t = [bad (exn_cls x)]))"
proof (rule sendsI)
  fix s s' r assume wf: "wf_bot (rs_own s)" and run: "world_call good bad f s = (s', r)"
  show "wf_bot (rs_own s') \<and> (\<exists>t. rs_trace s' = rs_trace s @ t \<and>
      ((\<exists>v. r = Inr v \<and> filter is_request t = [good v]) \<or> (\<exists>x. r = Inl x \<and> filter is_request t = [bad (exn_cls x)])))"
    using world_call_outcome [OF run] wf assms by auto
qed

lemma sends_quiet:
  assumes "quietly m P" "\<And>s r. P s r \<Longrightarrow> Q [] r"
  shows "sends m Q"
proof (rule sendsI)
  fix s s' r assume wf: "wf_bot (rs_own s)" and run: "m s = (s', r)"
  have q: "quiet_step s s'" and p: "P s' r" using quietlyD [OF assms(1) wf run] by auto
  obtain t where "rs_trace s' = rs_trace s @ t" "list_all (\<lambda>e. \<not> is_request e) t"
    using q unfolding quiet_step_def by blast
  moreover have "filter is_request t = []" using calculation(2) by (simp add: filter_empty_conv list_all_iff)
  ultimately show "wf_bot (rs_own s') \<and> (\<exists>t. rs_trace s' = rs_trace s @ t \<and> Q (filter is_request t) r)"
    using quiet_wf [OF q wf] assms(2) [OF p] by metis
qed

lemma sends_bind:
  assumes m: "sends m Q" and f: "\<And>v t. Q t (Inr v) \<Longrightarrow> sends (f v) (R v)"
  shows "sends (bind_io m f)
    (\<lambda>t r. (\<exists>x. r = Inl x \<and> Q t (Inl x)) \<or> (\<exists>v t1 t2. t = t1 @ t2 \<and> Q t1 (Inr v) \<and> R v t2 r))"
proof (rule sendsI)
  fix s s' r assume wf: "wf_bot (rs_own s)" and run: "bind_io m f s = (s', r)"
  obtain s1 r1 where ms: "m s = (s1, r1)" by (cases "m s")
  obtain t1 where wf1: "wf_bot (rs_own s1)" and t1: "rs_trace s1 = rs_trace s @ t1" "Q (filter is_request t1) r1"
    using sendsD [OF m wf ms] by blast
  show "wf_bot (rs_own s') \<and> (\<exists>t. rs_trace s' = rs_trace s @ t \<and>
      ((\<exists>x. r = Inl x \<and> Q (filter is_request t) (Inl x)) \<or>
       (\<exists>v u1 u2. filter is_request t = u1 @ u2 \<and> Q u1 (Inr v) \<and> R v u2 r)))"
  proof (cases r1)
    case (Inl x)
    then show ?thesis using run ms wf1 t1 by (auto simp: bind_io_def)
  next
    case (Inr v)
    then have "f v s1 = (s', r)" using run ms by (simp add: bind_io_def)
    moreover have "sends (f v) (R v)" using f t1(2) Inr by blast
    ultimately obtain t2 where "wf_bot (rs_own s')" "rs_trace s' = rs_trace s1 @ t2" "R v (filter is_request t2) r"
      using sendsD [OF _ wf1] by blast
    then show ?thesis using t1 Inr by (intro conjI exI [of _ "t1 @ t2"]) auto
  qed
qed

text \<open>Nothing is sent by the first part, which may tell something of its value.\<close>

lemma sends_after:
  assumes m: "sends m (\<lambda>t r. t = [] \<and> (\<forall>v. r = Inr v \<longrightarrow> P v))"
    and f: "\<And>v. P v \<Longrightarrow> sends (f v) R" and fail: "\<And>x. R [] (Inl x)"
  shows "sends (bind_io m f) R"
  by (rule sends_weaken [OF sends_bind [OF m, where R = "\<lambda>_. R"]]) (use f fail in auto)

lemma sends_silent:
  assumes "sends m (\<lambda>t r. t = [])" "\<And>v. sends (f v) R" "\<And>x. R [] (Inl x)"
  shows "sends (bind_io m f) R"
  by (rule sends_after [where P = "\<lambda>_. True"]) (use assms in auto)

lemma sends_after_lift:
  assumes "\<And>v. q = Inr v \<Longrightarrow> sends (f v) R" and "\<And>x. R [] (Inl x)"
  shows "sends (bind_io (lift_bot q) f) R"
  by (rule sends_after [where P = "\<lambda>v. q = Inr v"]) (use assms in \<open>auto intro: sends_lift\<close>)

lemma sends_then:
  assumes "sends m (\<lambda>t r. t = [])" "sends n R" "\<And>x. R [] (Inl x)"
  shows "sends (then_io m n) R"
  unfolding then_io_def
  by (rule sends_silent) (use assms in auto)

lemma sends_catch:
  assumes m: "sends m Q" and h: "\<And>x t. Q t (Inl x) \<Longrightarrow> sends (h x) (R x)"
  shows "sends (catch_io m h)
    (\<lambda>t r. (\<exists>v. r = Inr v \<and> Q t (Inr v)) \<or> (\<exists>x t1 t2. t = t1 @ t2 \<and> Q t1 (Inl x) \<and> R x t2 r))"
proof (rule sendsI)
  fix s s' r assume wf: "wf_bot (rs_own s)" and run: "catch_io m h s = (s', r)"
  obtain s1 r1 where ms: "m s = (s1, r1)" by (cases "m s")
  obtain t1 where wf1: "wf_bot (rs_own s1)" and t1: "rs_trace s1 = rs_trace s @ t1" "Q (filter is_request t1) r1"
    using sendsD [OF m wf ms] by blast
  show "wf_bot (rs_own s') \<and> (\<exists>t. rs_trace s' = rs_trace s @ t \<and>
      ((\<exists>v. r = Inr v \<and> Q (filter is_request t) (Inr v)) \<or>
       (\<exists>x u1 u2. filter is_request t = u1 @ u2 \<and> Q u1 (Inl x) \<and> R x u2 r)))"
  proof (cases r1)
    case (Inr v)
    then show ?thesis using run ms wf1 t1 by (auto simp: catch_io_def)
  next
    case (Inl x)
    then have "h x s1 = (s', r)" using run ms by (simp add: catch_io_def)
    moreover have "sends (h x) (R x)" using h t1(2) Inl by blast
    ultimately obtain t2 where "wf_bot (rs_own s')" "rs_trace s' = rs_trace s1 @ t2" "R x (filter is_request t2) r"
      using sendsD [OF _ wf1] by blast
    then show ?thesis using t1 Inl by (intro conjI exI [of _ "t1 @ t2"]) auto
  qed
qed

lemma sends_execute:
  assumes m: "m \<noteq> NO_AUTH" and call: "\<And>cl. cl_identity cl = m \<Longrightarrow> sends (call cl) R" and fail: "\<And>x. R [] (Inl x)"
  shows "sends (execute cfg reg op m call) R"
proof -
  have "sends (resolve_client cfg m) (\<lambda>t r. t = [] \<and> (\<forall>c. r = Inr c \<longrightarrow> cl_identity c = m))"
    by (rule sends_quiet [OF quietly_resolve_client [OF m]]) simp
  then have "sends (bind_io (resolve_client cfg m) call) R" by (rule sends_after) (use call fail in auto)
  moreover have "sends (preflight_operation cfg reg op m) (\<lambda>t r. t = [])"
    by (rule sends_quiet [OF quietly_preflight]) simp
  ultimately have "sends (then_io (preflight_operation cfg reg op m) (bind_io (resolve_client cfg m) call)) R"
    by (intro sends_then fail)
  then show ?thesis unfolding execute_def not_supported_def
    by (intro sends_after_lift fail) (auto intro: sends_throw fail)
qed

text \<open>One request, which answered or failed.\<close>

definition one_request ::
    "auth_mode \<Rightarrow> operation \<Rightarrow> chat_request \<Rightarrow> chat_request bot_effect list \<Rightarrow> (pyexn, 'a) result \<Rightarrow> bool" where
  "one_request m op q t r \<longleftrightarrow>
     (case r of
        Inr v \<Rightarrow> t = [Requested m op q]
      | Inl x \<Rightarrow> t = [] \<or> t = [RequestFailed m op q (exn_cls x)])"

lemma sends_send_request: "m \<noteq> NO_AUTH \<Longrightarrow> sends (send_request env m op q cfg) (one_request m op q)"
proof -
  assume m: "m \<noteq> NO_AUTH"
  show ?thesis unfolding send_request_def
  proof (rule sends_execute [OF m])
    fix cl :: client assume "cl_identity cl = m"
    then show "sends (sdk_call op q (ce_sdk env q (gapic_kwargs cfg)) cl) (one_request m op q)"
      unfolding sdk_call_def by (auto intro!: sends_weaken [OF sends_request] simp: one_request_def)
  qed (simp add: one_request_def)
qed

lemma sends_preflight_only: "m \<noteq> NO_AUTH \<Longrightarrow> sends (preflight_only env m op) (\<lambda>t r. t = [])"
  unfolding preflight_only_def by (rule sends_execute) (auto intro: sends_ret)

lemma sends_resolve_user: "sends (resolve_user_credentials cfg) (\<lambda>t r. t = [])"
  by (rule sends_quiet [OF quietly_resolve_user]) simp

lemma sends_auth_mode: "sends (auth_mode_of cfg) (\<lambda>t r. t = [])"
proof (cases "bc_auth_mode cfg")
  case None
  have "sends (resolve_credentials cfg) (\<lambda>t r. t = [])" by (rule sends_quiet [OF quietly_resolve]) simp
  then show ?thesis using None by (auto simp: auth_mode_of_def intro!: sends_silent sends_ret)
qed (simp add: auth_mode_of_def sends_ret)

lemma sends_check_file: "sends (check_file env f) (\<lambda>t r. t = [])"
  by (auto simp: sends_def check_file_def lift_bot_def throw_def ret_def split: sum.splits)

text \<open>An upload is one request as USER, whatever its end, and nothing when it fails before.\<close>

definition upload_request :: "string \<Rightarrow> input_file \<Rightarrow> chat_request \<Rightarrow> bool" where
  "upload_request parent f q \<longleftrightarrow> (\<exists>d. q = UploadMedia parent (if_filename f) (if_content_type f) d)"

definition upload_sent :: "string \<Rightarrow> input_file \<Rightarrow> chat_request bot_effect list \<Rightarrow> (pyexn, 'a) result \<Rightarrow> bool" where
  "upload_sent parent f t r \<longleftrightarrow>
     (case r of
        Inr v \<Rightarrow> \<exists>q. upload_request parent f q \<and> t = [Requested USER_AUTH MEDIA_UPLOAD q]
      | Inl x \<Rightarrow> t = [] \<or> (\<exists>q c. upload_request parent f q \<and>
          (t = [Requested USER_AUTH MEDIA_UPLOAD q] \<or> t = [RequestFailed USER_AUTH MEDIA_UPLOAD q c])))"

lemma sends_upload_call: "sends (upload_call env parent f cfg cl) (upload_sent parent f)"
proof -
  have rest: "sends (let q = UploadMedia parent (if_filename f) (if_content_type f) data
      in world_call (\<lambda>_. Requested USER_AUTH MEDIA_UPLOAD q) (RequestFailed USER_AUTH MEDIA_UPLOAD q)
           (ce_upload env c q (rq_timeout cfg))) (upload_sent parent f)" for data c
    unfolding Let_def by (rule sends_weaken [OF sends_request]) (auto simp: upload_sent_def upload_request_def)
  have "sends (world_call (\<lambda>_. FileTaken) FileTakeFailed (read_input env f)) (\<lambda>t r. t = [])"
    by (rule sends_world) simp_all
  then show ?thesis unfolding upload_call_def
    by (auto intro!: sends_silent rest sends_resolve_user simp: upload_sent_def)
qed

lemma sends_upload:
  assumes "m \<noteq> NO_AUTH" "canonical_space sp = Inr parent"
  shows "sends (upload env m sp f config timeout) (upload_sent parent f)"
proof -
  have ex: "sends (execute (ce_cfg env) (ce_reg env) MEDIA_UPLOAD m (upload_call env parent f cfg)) (upload_sent parent f)" for cfg
    by (rule sends_execute [OF assms(1) sends_upload_call]) (simp add: upload_sent_def)
  have whole: "sends (bind_io (execute (ce_cfg env) (ce_reg env) MEDIA_UPLOAD m (upload_call env parent f cfg))
      (\<lambda>response. lift_bot (uploaded_of env parent f response))) (upload_sent parent f)" for cfg
    by (rule sends_weaken [OF sends_bind [OF ex, where R = "\<lambda>v t r. t = []"]])
      (auto simp: upload_sent_def intro: sends_lift split: sum.splits)
  show ?thesis unfolding upload_def assms(2)
    by (rule sends_after_lift, simp, rule sends_silent [OF sends_check_file])
      (use whole in \<open>auto simp: upload_sent_def\<close>)
qed


section \<open>Bounded collection\<close>

text \<open>An iterator over the list the world holds.\<close>

definition pop_item :: "('i list, 'i option) chat_io" where
  "pop_item s =
     (case rs_world s of
        [] \<Rightarrow> (s, Inr None)
      | i # rest \<Rightarrow> (s\<lparr> rs_world := rest \<rparr>, Inr (Some i)))"

lemma collect_pop_all:
  "length (rs_world s) < fuel \<Longrightarrow>
   collect_items pop_item None items fuel s = (s\<lparr> rs_world := [] \<rparr>, Inr (Some (items @ rs_world s)))"
proof (induction fuel arbitrary: s items)
  case (Suc fuel)
  show ?case
  proof (cases "rs_world s")
    case (Cons i rest)
    then show ?thesis using Suc.IH [of "s\<lparr> rs_world := rest \<rparr>" "items @ [i]"] Suc.prems
      by (simp add: bind_io_def pop_item_def)
  qed (use Suc.prems in \<open>simp add: bind_io_def pop_item_def ret_def\<close>)
qed simp

lemma collect_pop_limit:
  "length items < max 1 n \<Longrightarrow> max 1 n - length items \<le> fuel \<Longrightarrow>
   collect_items pop_item (Some n) items fuel s =
     (s\<lparr> rs_world := drop (max 1 n - length items) (rs_world s) \<rparr>,
      Inr (Some (items @ take (max 1 n - length items) (rs_world s))))"
proof (induction fuel arbitrary: s items)
  case (Suc fuel)
  show ?case
  proof (cases "rs_world s")
    case (Cons i rest)
    show ?thesis
    proof (cases "n \<le> length (items @ [i])")
      case True
      then have "max 1 n - length items = 1" using Suc.prems by simp
      then show ?thesis using Cons True by (simp add: bind_io_def pop_item_def ret_def Let_def)
    next
      case False
      then have k: "max 1 n - length items = Suc (max 1 n - length (items @ [i]))" using Suc.prems by simp
      show ?thesis using Suc.IH [of "items @ [i]" "s\<lparr> rs_world := rest \<rparr>"] Suc.prems False Cons k
        by (simp add: bind_io_def pop_item_def Let_def)
    qed
  qed (simp add: bind_io_def pop_item_def ret_def)
qed auto

text \<open>\<open>collect(limit)\<close> over an iterator of a list ends with the first items of the list and takes no more than
  it returns: at most \<open>limit\<close> of them, but one at least, so a limit of 0 still takes and returns an item. Without
  a limit it returns them all.\<close>

theorem collect_bounded:
  assumes "fetch s = (s1, Inr p)" and "iter p = pop_item"
    and "case limit of Some n \<Rightarrow> max 1 n \<le> fuel | None \<Rightarrow> length (rs_world s1) < fuel"
  shows "collect fetch iter limit fuel s =
    (case limit of
       Some n \<Rightarrow> (s1\<lparr> rs_world := drop (max 1 n) (rs_world s1) \<rparr>, Inr (Some (take (max 1 n) (rs_world s1))))
     | None \<Rightarrow> (s1\<lparr> rs_world := [] \<rparr>, Inr (Some (rs_world s1))))"
  using assms collect_pop_all [of s1 fuel "[]"] collect_pop_limit [of "[]" "case limit of Some n \<Rightarrow> n | None \<Rightarrow> 0" fuel s1]
  by (cases limit) (simp_all add: collect_def bind_io_def)

definition three_items :: "(chat_request bot_effect, unit, nat list, bot) run_state" where
  "three_items = \<lparr> rs_store = (), rs_world = [10, 20, 30], rs_own = new_bot, rs_trace = [] \<rparr>"

lemma collect_bounded_witness:
  "collect (ret ()) (\<lambda>_. pop_item) (Some 0) 1 three_items = (three_items\<lparr> rs_world := [20, 30] \<rparr>, Inr (Some [10]))"
  using collect_bounded [of "ret ()" three_items three_items "()" "\<lambda>_. pop_item", where limit = "Some 0" and fuel = 1]
  by (simp add: ret_def three_items_def)

end
