(* ===== verification/Messages.thy ===== *)
theory Messages
  imports Resources
begin

text \<open>
  The message operations (\<open>client/resources/messages.py\<close>): \<open>create\<close> with all its guards, the upload of new
  attachments and the publication of the card, \<open>update\<close>, \<open>get\<close>, \<open>list\<close> and \<open>delete\<close>.
\<close>

section \<open>The arguments of create\<close>

datatype attachment_arg = NewFile input_file | Existing uploaded_attachment

record create_args =
  ma_space :: space_like
  ma_text :: "string option"
  ma_markup :: "string option"
  ma_thread :: "thread_ref option"
  ma_reply :: "int option"
  ma_request_id :: "string option"
  ma_message_id :: "string option"
  ma_timeout :: "rat option"
  ma_accessory :: "button list list option"
  ma_card :: "card option"
  ma_notify :: "string option"
  ma_private :: "user_like option"
  ma_attachments :: "attachment_arg list option"

definition given :: "'a list option \<Rightarrow> 'a list" where
  "given o_xs = (case o_xs of Some xs \<Rightarrow> xs | None \<Rightarrow> [])"

definition has_attachments :: "create_args \<Rightarrow> bool" where
  "has_attachments a \<longleftrightarrow> given (ma_attachments a) \<noteq> []"

definition has_accessory :: "create_args \<Rightarrow> bool" where
  "has_accessory a \<longleftrightarrow> given (ma_accessory a) \<noteq> []"

definition unsupported :: "(pyexn, 'a) result" where
  "unsupported = Inl (exn (St CapabilityNotSupported))"

section \<open>The guards\<close>

text \<open>Attachments first, then the notification, the viewer and the card; \<open>mode\<close> is what the guards take for the
  identity of the call.\<close>

definition attachment_guard :: "auth_mode \<Rightarrow> create_args \<Rightarrow> (pyexn, unit) result" where
  "attachment_guard ident a =
     (if \<not> has_attachments a then Inr ()
      else if ma_private a \<noteq> None then api_error
      else if has_accessory a then api_error
      else if ident \<noteq> USER_AUTH then unsupported
      else Inr ())"

definition notify_guard :: "auth_mode option \<Rightarrow> create_args \<Rightarrow> (pyexn, unit) result" where
  "notify_guard mode a =
     (case ma_notify a of
        None \<Rightarrow> Inr ()
      | Some n \<Rightarrow>
          if n \<noteq> ''force'' \<and> n \<noteq> ''silent'' then api_error
          else if has_attachments a then unsupported
          else if mode \<noteq> Some APP then unsupported
          else Inr ())"

definition viewer_guard :: "auth_mode option \<Rightarrow> create_args \<Rightarrow> (pyexn, string option) result" where
  "viewer_guard mode a =
     (case ma_private a of
        None \<Rightarrow> Inr None
      | Some u \<Rightarrow>
          bind_res (canonical_user u) (\<lambda>v.
            if mode \<noteq> Some APP then unsupported
            else if has_accessory a then api_error
            else Inr (Some v)))"

definition card_guard :: "auth_mode option \<Rightarrow> create_args \<Rightarrow> (pyexn, unit) result" where
  "card_guard mode a = (if ma_card a \<noteq> None \<and> mode = Some USER_AUTH then unsupported else Inr ())"

definition create_guards :: "auth_mode \<Rightarrow> auth_mode option \<Rightarrow> create_args \<Rightarrow> (pyexn, string option \<times> string) result" where
  "create_guards ident mode a =
     bind_res (attachment_guard ident a) (\<lambda>_.
       bind_res (notify_guard mode a) (\<lambda>_.
         bind_res (viewer_guard mode a) (\<lambda>viewer.
           bind_res (card_guard mode a) (\<lambda>_.
             bind_res (canonical_space (ma_space a)) (\<lambda>parent. Inr (viewer, parent))))))"

definition check_attachment :: "('w, 'v) chat_env \<Rightarrow> string \<Rightarrow> attachment_arg \<Rightarrow> ('w, unit) chat_io" where
  "check_attachment env parent x =
     (case x of
        NewFile f \<Rightarrow> check_file env f
      | Existing u \<Rightarrow>
          bind_io (lift_bot (canonical_space (SpaceName (ua_space u)))) (\<lambda>sp.
            if sp \<noteq> parent then throw (exn (Api ChatAPIError)) else ret ()))"

fun check_attachments :: "('w, 'v) chat_env \<Rightarrow> string \<Rightarrow> attachment_arg list \<Rightarrow> ('w, unit) chat_io" where
  "check_attachments env parent [] = ret ()"
| "check_attachments env parent (x # xs) = then_io (check_attachment env parent x) (check_attachments env parent xs)"

definition late_guards :: "auth_mode option \<Rightarrow> create_args \<Rightarrow> (pyexn, unit) result" where
  "late_guards mode a =
     (if has_accessory a \<and> mode \<noteq> Some APP then unsupported
      else if mode = Some NO_AUTH then unsupported
      else Inr ())"

text \<open>Before any media work: the credentials and the operations of the USER identity.\<close>

definition is_new_file :: "attachment_arg \<Rightarrow> bool" where
  "is_new_file x \<longleftrightarrow> (case x of NewFile f \<Rightarrow> True | Existing u \<Rightarrow> False)"

definition attachment_preflight :: "('w, 'v) chat_env \<Rightarrow> auth_mode \<Rightarrow> create_args \<Rightarrow> ('w, unit) chat_io" where
  "attachment_preflight env ident a =
     (if \<not> has_attachments a then ret ()
      else bind_io (resolve_user_credentials (ce_cfg env)) (\<lambda>c.
        if c = None \<or> classify c = Some APP then not_supported
        else then_io (preflight_only env ident MESSAGES_CREATE)
               (if list_ex is_new_file (given (ma_attachments a)) then preflight_only env ident MEDIA_UPLOAD else ret ())))"

section \<open>Assets and uploads\<close>

text \<open>Publishing the pictures of the card, as part of the run of the bot.\<close>

definition publish_assets :: "('w, 'v) chat_env \<Rightarrow> card \<Rightarrow> ('w, card) chat_io" where
  "publish_assets env c s =
     (case resolve_card_assets (ce_url env) (ce_open env) (ce_publisher env) c
             \<lparr> rs_store = (), rs_world = rs_world s, rs_own = (), rs_trace = [] \<rparr> of
        (s', r) \<Rightarrow> (s\<lparr> rs_world := rs_world s', rs_trace := rs_trace s @ map AssetStep (rs_trace s') \<rparr>, r))"

definition resolve_card :: "('w, 'v) chat_env \<Rightarrow> card option \<Rightarrow> ('w, card option) chat_io" where
  "resolve_card env oc =
     (case oc of None \<Rightarrow> ret None | Some c \<Rightarrow> bind_io (publish_assets env c) (\<lambda>d. ret (Some d)))"

fun attach_all ::
    "('w, 'v) chat_env \<Rightarrow> string \<Rightarrow> rat option \<Rightarrow> attachment_arg list \<Rightarrow> ('w, data_ref list) chat_io" where
  "attach_all env parent timeout [] = ret []"
| "attach_all env parent timeout (x # xs) =
     bind_io
       (case x of
          Existing u \<Rightarrow> ret (data_ref_proto (ua_data_ref u))
        | NewFile f \<Rightarrow>
            bind_io (upload env USER_AUTH (SpaceName parent) f None timeout) (\<lambda>u. ret (data_ref_proto (ua_data_ref u))))
       (\<lambda>d. bind_io (attach_all env parent timeout xs) (\<lambda>ds. ret (d # ds)))"

section \<open>The request\<close>

text \<open>\<open>Card.to_proto\<close>: the JSON the card was read from, else the SDK message of its parts.\<close>

definition card_proto :: "('w, 'v) chat_env \<Rightarrow> card \<Rightarrow> (pyexn, pyval) result" where
  "card_proto env c =
     (case cd_raw c of
        Some d \<Rightarrow> ce_read_card env d
      | None \<Rightarrow> card_kwargs (ce_build env) (ce_read_widget env) c)"

definition accessory_proto :: "button list \<Rightarrow> (pyexn, pyval) result" where
  "accessory_proto bs =
     bind_res (traverse button_kwargs bs) (\<lambda>ks. Inr (kwargs [(''button_list'', kwargs [(''buttons'', PList ks)])]))"

definition has_thread :: "create_args \<Rightarrow> bool" where
  "has_thread a \<longleftrightarrow> (case ma_thread a of Some t \<Rightarrow> thread_name t \<noteq> None \<or> thread_key t \<noteq> None | None \<Rightarrow> False)"

definition build_create ::
    "('w, 'v) chat_env \<Rightarrow> create_args \<Rightarrow> string \<Rightarrow> string option \<Rightarrow> card option \<Rightarrow> data_ref list
     \<Rightarrow> (pyexn, create_request) result" where
  "build_create env a parent viewer oc refs =
     bind_res (case oc of None \<Rightarrow> Inr None | Some c \<Rightarrow> map_sum id Some (card_proto env c)) (\<lambda>pic.
       bind_res (traverse accessory_proto (given (ma_accessory a))) (\<lambda>acc.
         Inr \<lparr> cr_parent = parent, cr_text = or_text (ma_text a) [], cr_markup = ma_markup a, cr_attached = refs,
               cr_viewer = viewer, cr_card = pic, cr_accessory = acc,
               cr_thread_name = Option.bind (ma_thread a) thread_name,
               cr_thread_key = Option.bind (ma_thread a) thread_key,
               cr_reply = (if ma_reply a \<noteq> None \<and> has_thread a then ma_reply a else None),
               cr_request_id = ma_request_id a, cr_message_id = ma_message_id a, cr_notify = ma_notify a \<rparr>))"

text \<open>The last part: upload what is new, build the request and send it.\<close>

definition finish_create ::
    "('w, 'v) chat_env \<Rightarrow> auth_mode \<Rightarrow> create_args \<Rightarrow> string option \<Rightarrow> string \<Rightarrow> card option \<Rightarrow> ('w, 'v) chat_io" where
  "finish_create env ident a viewer parent pic =
     bind_io (attach_all env parent (ma_timeout a) (given (ma_attachments a))) (\<lambda>refs.
       bind_io (lift_bot (build_create env a parent viewer pic refs)) (\<lambda>q.
         send_request env ident MESSAGES_CREATE (CreateMessage q) (effective_config None (ma_timeout a))))"

definition create_message :: "('w, 'v) chat_env \<Rightarrow> auth_mode \<Rightarrow> create_args \<Rightarrow> ('w, 'v) chat_io" where
  "create_message env ident a =
     bind_io (lift_bot (validate_card_assets (ma_card a) (ce_publisher env))) (\<lambda>_.
       bind_io (if has_attachments a then ret (Some USER_AUTH) else auth_mode_of (ce_cfg env)) (\<lambda>mode.
         bind_io (lift_bot (create_guards ident mode a)) (\<lambda>(viewer, parent).
           then_io (check_attachments env parent (given (ma_attachments a)))
             (then_io (lift_bot (late_guards mode a))
               (then_io (attachment_preflight env ident a)
                 (bind_io (resolve_card env (ma_card a)) (\<lambda>pic. finish_create env ident a viewer parent pic)))))))"

section \<open>The other operations\<close>

definition update_message ::
    "('w, 'v) chat_env \<Rightarrow> auth_mode \<Rightarrow> string \<Rightarrow> string option \<Rightarrow> card option \<Rightarrow> request_config option \<Rightarrow> rat option
     \<Rightarrow> ('w, 'v) chat_io" where
  "update_message env ident n txt oc config timeout =
     (if txt = None \<and> oc = None then throw (exn (Api ChatAPIError))
      else bind_io (auth_mode_of (ce_cfg env)) (\<lambda>mode.
        if mode = Some NO_AUTH then not_supported
        else bind_io (lift_bot (validate_card_assets oc (ce_publisher env))) (\<lambda>_.
          bind_io (resolve_card env oc) (\<lambda>pic.
            bind_io (lift_bot (case pic of None \<Rightarrow> Inr None | Some c \<Rightarrow> map_sum id Some (card_proto env c))) (\<lambda>p.
              send_request env ident MESSAGES_UPDATE
                (UpdateMessage n txt p ((if txt = None then [] else [''text'']) @ (if oc = None then [] else [''cards_v2''])))
                (effective_config config timeout))))))"

definition get_message ::
    "('w, 'v) chat_env \<Rightarrow> auth_mode \<Rightarrow> string \<Rightarrow> request_config option \<Rightarrow> rat option \<Rightarrow> ('w, 'v) chat_io" where
  "get_message env ident n config timeout =
     send_request env ident MESSAGES_GET (GetMessage n) (effective_config config timeout)"

definition list_messages ::
    "('w, 'v) chat_env \<Rightarrow> auth_mode \<Rightarrow> string \<Rightarrow> int option \<Rightarrow> request_config option \<Rightarrow> rat option \<Rightarrow> ('w, 'v) chat_io" where
  "list_messages env ident parent page config timeout =
     send_request env ident MESSAGES_LIST (ListMessages parent page) (effective_config config timeout)"

definition delete_message ::
    "('w, 'v) chat_env \<Rightarrow> auth_mode \<Rightarrow> string \<Rightarrow> request_config option \<Rightarrow> rat option \<Rightarrow> ('w, unit) chat_io" where
  "delete_message env ident n config timeout =
     then_io (send_request env ident MESSAGES_DELETE (DeleteMessage n) (effective_config config timeout)) (ret ())"


section \<open>What create sends\<close>

definition new_files :: "attachment_arg list \<Rightarrow> input_file list" where
  "new_files xs = List.map_filter (\<lambda>x. case x of NewFile f \<Rightarrow> Some f | Existing u \<Rightarrow> None) xs"

lemma new_files_simps [simp]:
  "new_files [] = []" "new_files (NewFile f # xs) = f # new_files xs" "new_files (Existing u # xs) = new_files xs"
  by (simp_all add: new_files_def List.map_filter_simps)

text \<open>The events of an upload into a space: answered, for one of the files, or tried.\<close>

definition uploaded :: "string \<Rightarrow> input_file \<Rightarrow> chat_request bot_effect \<Rightarrow> bool" where
  "uploaded parent f e \<longleftrightarrow> (\<exists>q. upload_request parent f q \<and> e = Requested USER_AUTH MEDIA_UPLOAD q)"

definition upload_event :: "string \<Rightarrow> input_file list \<Rightarrow> chat_request bot_effect \<Rightarrow> bool" where
  "upload_event parent fs e \<longleftrightarrow>
     (\<exists>f q c. f \<in> set fs \<and> upload_request parent f q \<and>
        (e = Requested USER_AUTH MEDIA_UPLOAD q \<or> e = RequestFailed USER_AUTH MEDIA_UPLOAD q c))"

definition uploads_sent ::
    "string \<Rightarrow> attachment_arg list \<Rightarrow> chat_request bot_effect list \<Rightarrow> (pyexn, data_ref list) result \<Rightarrow> bool" where
  "uploads_sent parent xs t r \<longleftrightarrow>
     (case r of
        Inr ds \<Rightarrow> length ds = length xs \<and> list_all2 (uploaded parent) (new_files xs) t
      | Inl x \<Rightarrow> list_all (upload_event parent (new_files xs)) t)"

lemma uploaded_event: "list_all2 (uploaded parent) fs t \<Longrightarrow> list_all (upload_event parent fs) t"
  unfolding list_all_length list_all2_conv_all_nth uploaded_def upload_event_def by (metis nth_mem)

lemma upload_event_mono: "upload_event parent fs e \<Longrightarrow> set fs \<subseteq> set gs \<Longrightarrow> upload_event parent gs e"
  unfolding upload_event_def by blast

lemma upload_sent_event: "upload_sent parent f t (Inl x :: (pyexn, 'a) result) \<Longrightarrow> list_all (upload_event parent (f # fs)) t"
  by (auto simp: upload_sent_def upload_event_def)

lemma sends_attach_all:
  assumes parent: "canonical_space (SpaceName parent) = Inr parent"
  shows "sends (attach_all env parent timeout xs) (uploads_sent parent xs)"
proof (induction xs)
  case Nil
  then show ?case by (simp add: sends_ret uploads_sent_def)
next
  case (Cons x xs)
  have rest: "sends (bind_io (attach_all env parent timeout xs) (\<lambda>ds. ret (d # ds)))
      (\<lambda>t r. case r of Inr ds \<Rightarrow> length ds = Suc (length xs) \<and> list_all2 (uploaded parent) (new_files xs) t
        | Inl y \<Rightarrow> list_all (upload_event parent (new_files xs)) t)" for d
    by (rule sends_weaken [OF sends_bind [OF Cons.IH, where R = "\<lambda>ds t r. t = [] \<and> r = Inr (d # ds)"]])
      (auto simp: uploads_sent_def intro: sends_ret)
  show ?case
  proof (cases x)
    case (Existing u)
    then show ?thesis
      by (auto intro!: sends_silent sends_ret sends_weaken [OF rest] simp: uploads_sent_def split: sum.splits)
  next
    case (NewFile f)
    have up: "sends (bind_io (upload env USER_AUTH (SpaceName parent) f None timeout) (\<lambda>u. ret (data_ref_proto (ua_data_ref u))))
        (upload_sent parent f)"
      by (rule sends_weaken [OF sends_bind [OF sends_upload [OF _ parent],
            where R = "\<lambda>u t r. t = [] \<and> r = Inr (data_ref_proto (ua_data_ref u))"]])
        (auto simp: upload_sent_def intro: sends_ret split: sum.splits)
    have mono: "list_all (upload_event parent (f # new_files xs)) t"
      if "list_all (upload_event parent (new_files xs)) t" for t
      using that by (auto simp: list_all_iff intro: upload_event_mono)
    show ?thesis unfolding NewFile attach_all.simps attachment_arg.case
    proof (rule sends_weaken [OF sends_bind [OF up rest]])
      fix t and r :: "(pyexn, data_ref list) result"
      assume "(\<exists>x. r = Inl x \<and> upload_sent parent f t (Inl x :: (pyexn, data_ref) result)) \<or>
        (\<exists>v t1 t2. t = t1 @ t2 \<and> upload_sent parent f t1 (Inr v :: (pyexn, data_ref) result) \<and>
          (case r of Inl y \<Rightarrow> list_all (upload_event parent (new_files xs)) t2
           | Inr ds \<Rightarrow> length ds = Suc (length xs) \<and> list_all2 (uploaded parent) (new_files xs) t2))"
      then show "uploads_sent parent (NewFile f # xs) t r"
      proof
        assume "\<exists>x. r = Inl x \<and> upload_sent parent f t (Inl x :: (pyexn, data_ref) result)"
        then show ?thesis using upload_sent_event by (fastforce simp: uploads_sent_def)
      next
        assume "\<exists>v t1 t2. t = t1 @ t2 \<and> upload_sent parent f t1 (Inr v :: (pyexn, data_ref) result) \<and>
          (case r of Inl y \<Rightarrow> list_all (upload_event parent (new_files xs)) t2
           | Inr ds \<Rightarrow> length ds = Suc (length xs) \<and> list_all2 (uploaded parent) (new_files xs) t2)"
        then obtain t1 t2 q where t: "t = t1 @ t2" "t1 = [Requested USER_AUTH MEDIA_UPLOAD q]" "upload_request parent f q"
          and c: "case r of Inl y \<Rightarrow> list_all (upload_event parent (new_files xs)) t2
           | Inr ds \<Rightarrow> length ds = Suc (length xs) \<and> list_all2 (uploaded parent) (new_files xs) t2"
          by (auto simp: upload_sent_def)
        show ?thesis
        proof (cases r)
          case (Inl y)
          then show ?thesis using t c mono by (auto simp: uploads_sent_def upload_event_def)
        next
          case (Inr ds)
          then show ?thesis using t c by (auto simp: uploads_sent_def uploaded_def)
        qed
      qed
    qed
  qed
qed


text \<open>What holds of every request \<open>create\<close> builds.\<close>

definition faithful_request :: "auth_mode \<Rightarrow> create_args \<Rightarrow> create_request \<Rightarrow> bool" where
  "faithful_request ident a q \<longleftrightarrow>
     canonical_space (ma_space a) = Inr (cr_parent q) \<and> cr_text q = or_text (ma_text a) [] \<and>
     length (cr_attached q) = length (given (ma_attachments a)) \<and> cr_notify q = ma_notify a \<and>
     cr_thread_name q = Option.bind (ma_thread a) thread_name \<and> cr_thread_key q = Option.bind (ma_thread a) thread_key \<and>
     cr_reply q = (if has_thread a then ma_reply a else None) \<and>
     (case ma_private a of
        None \<Rightarrow> cr_viewer q = None
      | Some u \<Rightarrow> \<exists>v. canonical_user u = Inr v \<and> cr_viewer q = Some v) \<and>
     (cr_viewer q \<noteq> None \<longrightarrow> cr_attached q = [] \<and> cr_accessory q = []) \<and>
     (cr_attached q \<noteq> [] \<longrightarrow>
        ident = USER_AUTH \<and> cr_notify q = None \<and> cr_accessory q = [] \<and> cr_card q = None) \<and>
     (case cr_notify q of None \<Rightarrow> True | Some n \<Rightarrow> n = ''force'' \<or> n = ''silent'') \<and>
     (cr_reply q \<noteq> None \<longrightarrow> cr_thread_name q \<noteq> None \<or> cr_thread_key q \<noteq> None)"

definition create_sent ::
    "auth_mode \<Rightarrow> create_args \<Rightarrow> chat_request bot_effect list \<Rightarrow> (pyexn, 'v) result \<Rightarrow> bool" where
  "create_sent ident a ts r \<longleftrightarrow>
     (let files = new_files (given (ma_attachments a)) in
      case r of
        Inr v \<Rightarrow>
          \<exists>ups q. ts = ups @ [Requested ident MESSAGES_CREATE (CreateMessage q)] \<and>
            list_all2 (uploaded (cr_parent q)) files ups \<and> faithful_request ident a q
      | Inl x \<Rightarrow>
          (\<exists>parent. canonical_space (ma_space a) = Inr parent \<and> list_all (upload_event parent files) ts) \<or> ts = [] \<or>
          (\<exists>ups q. ts = ups @ [RequestFailed ident MESSAGES_CREATE (CreateMessage q) (exn_cls x)] \<and>
             list_all2 (uploaded (cr_parent q)) files ups \<and> faithful_request ident a q))"

lemma create_fails_silently: "create_sent ident a [] (Inl x)"
  by (simp add: create_sent_def Let_def)

lemma traverse_Nil_iff: "traverse f xs = Inr ys \<Longrightarrow> ys = [] \<longleftrightarrow> xs = []"
  using traverse_nth [of f xs ys] by auto

lemma build_faithful:
  assumes build: "build_create env a parent viewer oc refs = Inr q"
    and guards: "create_guards ident mode a = Inr (viewer, parent)"
    and mode: "has_attachments a \<longrightarrow> mode = Some USER_AUTH"
    and card: "oc = None \<longleftrightarrow> ma_card a = None"
    and refs: "length refs = length (given (ma_attachments a))"
  shows "faithful_request ident a q \<and> cr_parent q = parent"
proof -
  obtain c acc where c: "(case oc of None \<Rightarrow> Inr None | Some c \<Rightarrow> map_sum id Some (card_proto env c)) = Inr c"
    and acc: "traverse accessory_proto (given (ma_accessory a)) = Inr acc"
    and q: "q = \<lparr> cr_parent = parent, cr_text = or_text (ma_text a) [], cr_markup = ma_markup a, cr_attached = refs,
      cr_viewer = viewer, cr_card = c, cr_accessory = acc, cr_thread_name = Option.bind (ma_thread a) thread_name,
      cr_thread_key = Option.bind (ma_thread a) thread_key,
      cr_reply = (if ma_reply a \<noteq> None \<and> has_thread a then ma_reply a else None),
      cr_request_id = ma_request_id a, cr_message_id = ma_message_id a, cr_notify = ma_notify a \<rparr>"
    using build by (auto simp: build_create_def bind_res_Inr_iff)
  have g: "attachment_guard ident a = Inr ()" "notify_guard mode a = Inr ()" "viewer_guard mode a = Inr viewer"
    "card_guard mode a = Inr ()" "canonical_space (ma_space a) = Inr parent"
    using guards by (auto simp: create_guards_def bind_res_Inr_iff)
  have atts: "refs \<noteq> [] \<longleftrightarrow> has_attachments a" using refs by (simp add: has_attachments_def flip: length_greater_0_conv)
  have accs: "acc \<noteq> [] \<longleftrightarrow> has_accessory a" using traverse_Nil_iff [OF acc] by (simp add: has_accessory_def)
  have viewer: "case ma_private a of None \<Rightarrow> viewer = None
      | Some u \<Rightarrow> (\<exists>v. canonical_user u = Inr v \<and> viewer = Some v) \<and> mode = Some APP \<and> \<not> has_accessory a"
    using g(3) by (auto simp: viewer_guard_def bind_res_Inr_iff unsupported_def api_error_def split: option.splits if_splits)
  have notify: "case ma_notify a of None \<Rightarrow> True
      | Some n \<Rightarrow> (n = ''force'' \<or> n = ''silent'') \<and> \<not> has_attachments a"
    using g(2) by (auto simp: notify_guard_def unsupported_def api_error_def split: option.splits if_splits)
  have att: "has_attachments a \<longrightarrow> ma_private a = None \<and> \<not> has_accessory a \<and> ident = USER_AUTH"
    using g(1) by (auto simp: attachment_guard_def unsupported_def api_error_def split: if_splits)
  have nocard: "has_attachments a \<longrightarrow> c = None"
    using g(4) mode card c by (auto simp: card_guard_def unsupported_def split: if_splits)
  have thread: "has_thread a \<Longrightarrow> cr_thread_name q \<noteq> None \<or> cr_thread_key q \<noteq> None"
    by (auto simp: q has_thread_def split: option.splits)
  show ?thesis using viewer notify att nocard atts accs thread g(5) refs
    by (auto simp: faithful_request_def q split: option.splits if_splits)
qed

lemma sends_check_attachments: "sends (check_attachments env parent xs) (\<lambda>t r. t = [])"
proof (induction xs)
  case (Cons x xs)
  have "sends (check_attachment env parent x) (\<lambda>t r. t = [])"
    unfolding check_attachment_def
    by (cases x) (auto intro!: sends_check_file sends_after_lift sends_ret sends_throw)
  then show ?case using Cons.IH by (auto intro: sends_then)
qed (simp add: sends_ret)

lemma sends_attachment_preflight: "ident \<noteq> NO_AUTH \<Longrightarrow> sends (attachment_preflight env ident a) (\<lambda>t r. t = [])"
  unfolding attachment_preflight_def not_supported_def
  by (auto intro!: sends_ret sends_silent [OF sends_resolve_user] sends_throw sends_then sends_preflight_only)

lemma sends_publish: "sends (publish_assets env c) (\<lambda>t r. t = [])"
proof (rule sendsI)
  fix s s' r assume wf: "wf_bot (rs_own s)" and run: "publish_assets env c s = (s', r)"
  have "filter is_request (map AssetStep es) = []" for es :: "asset_effect list" by (induction es) simp_all
  then show "wf_bot (rs_own s') \<and> (\<exists>t. rs_trace s' = rs_trace s @ t \<and> filter is_request t = [])"
    using wf run by (auto simp: publish_assets_def split: prod.splits)
qed

lemma sends_resolve_card:
  "sends (resolve_card env oc) (\<lambda>t r. t = [] \<and> (\<forall>v. r = Inr v \<longrightarrow> (v = None \<longleftrightarrow> oc = None)))"
  unfolding resolve_card_def
  by (cases oc) (auto intro!: sends_ret sends_silent [OF sends_publish])

lemma sends_finish:
  assumes g: "create_guards ident mode a = Inr (viewer, parent)" and mode: "has_attachments a \<longrightarrow> mode = Some USER_AUTH"
    and card: "pic = None \<longleftrightarrow> ma_card a = None" and ident: "ident \<noteq> NO_AUTH"
  shows "sends (finish_create env ident a viewer parent pic) (create_sent ident a)"
proof -
  let ?files = "given (ma_attachments a)"
  have parent: "canonical_space (ma_space a) = Inr parent" using g by (auto simp: create_guards_def bind_res_Inr_iff)
  then have canon: "canonical_space (SpaceName parent) = Inr parent"
    using canonicalize_fixed [OF canonical_space_form [OF parent]] by (simp add: canonical_space_eq name_of_space_def)
  let ?R = "\<lambda>refs t r. length refs = length ?files \<longrightarrow>
    (t = [] \<and> (\<exists>x. r = Inl x) \<or> (\<exists>q. faithful_request ident a q \<and> cr_parent q = parent \<and>
       one_request ident MESSAGES_CREATE (CreateMessage q) t r))"
  have last: "sends (bind_io (lift_bot (build_create env a parent viewer pic refs)) (\<lambda>q.
      send_request env ident MESSAGES_CREATE (CreateMessage q) (effective_config None (ma_timeout a)))) (?R refs)" for refs
  proof (rule sends_after_lift)
    fix q assume b: "build_create env a parent viewer pic refs = Inr q"
    show "sends (send_request env ident MESSAGES_CREATE (CreateMessage q) (effective_config None (ma_timeout a))) (?R refs)"
      by (rule sends_weaken [OF sends_send_request [OF ident]]) (use build_faithful [OF b g mode card] in blast)
  qed simp
  show ?thesis unfolding finish_create_def
  proof (rule sends_weaken [OF sends_bind [OF sends_attach_all [OF canon] last]])
    fix t and r :: "(pyexn, 'b) result"
    assume "(\<exists>x. r = Inl x \<and> uploads_sent parent ?files t (Inl x)) \<or>
      (\<exists>v t1 t2. t = t1 @ t2 \<and> uploads_sent parent ?files t1 (Inr v) \<and> ?R v t2 r)"
    then show "create_sent ident a t r"
    proof (elim disjE exE conjE)
      fix x assume "r = Inl x" "uploads_sent parent ?files t (Inl x)"
      then show ?thesis using parent by (auto simp: create_sent_def uploads_sent_def Let_def)
    next
      fix v t1 t2 assume t: "t = t1 @ t2" and up: "uploads_sent parent ?files t1 (Inr v)" and R: "?R v t2 r"
      have "list_all2 (uploaded parent) (new_files ?files) t1" "length v = length ?files"
        using up by (auto simp: uploads_sent_def)
      then show ?thesis using R t parent uploaded_event
        by (cases r) (auto simp: create_sent_def one_request_def Let_def)
    qed
  qed
qed

lemma sends_create: "ident \<noteq> NO_AUTH \<Longrightarrow> sends (create_message env ident a) (create_sent ident a)"
proof -
  assume ident: "ident \<noteq> NO_AUTH"
  have tail: "sends (then_io (check_attachments env parent (given (ma_attachments a))) (then_io (lift_bot (late_guards mode a))
        (then_io (attachment_preflight env ident a) (bind_io (resolve_card env (ma_card a)) (\<lambda>pic.
          finish_create env ident a viewer parent pic))))) (create_sent ident a)"
    if "create_guards ident mode a = Inr (viewer, parent)" "has_attachments a \<longrightarrow> mode = Some USER_AUTH" for mode viewer parent
    by (intro sends_then sends_check_attachments sends_attachment_preflight ident create_fails_silently
        sends_after [OF sends_resolve_card] sends_finish [OF that] sends_lift) auto
  have "sends (if has_attachments a then ret (Some USER_AUTH) else auth_mode_of (ce_cfg env))
      (\<lambda>t r. t = [] \<and> (\<forall>m. r = Inr m \<longrightarrow> has_attachments a \<longrightarrow> m = Some USER_AUTH))"
    by (auto intro: sends_ret sends_weaken [OF sends_auth_mode])
  then show ?thesis
    unfolding create_message_def
    by (intro sends_after_lift create_fails_silently, elim sends_after, intro sends_after_lift create_fails_silently)
      (auto intro!: tail create_fails_silently)
qed


section \<open>A bot with two identities\<close>

definition user_token :: credentials where
  "user_token = \<lparr> cr_subject = False, cr_signer = False, cr_refresh = True, cr_granted = NoScopes,
                  cr_scopes = ScopeList [''https://www.googleapis.com/auth/chat.messages.create''], cr_default = NoScopes \<rparr>"

definition dual_env :: "(nat, unit) chat_env" where
  "dual_env =
     \<lparr> ce_cfg = \<lparr> bc_credentials = None, bc_provider = Some (\<lambda>n. (n, Inr (Some app_key))),
                 bc_user_provider = Some (\<lambda>n. (n, Inr (Some user_token))), bc_auth_mode = None,
                 bc_transport = False, bc_preview = False \<rparr>,
       ce_reg =
         [(MESSAGES_CREATE,
           \<lparr> sp_operation = MESSAGES_CREATE, google_method = ''spaces.messages.create'',
             auth_paths =
               [\<lparr> identity = APP, any_scope = scopes [''chat.bot''], variant = NORMAL, request_flag = None \<rparr>,
                \<lparr> identity = USER_AUTH, any_scope = scopes [''chat.messages.create''], variant = NORMAL, request_flag = None \<rparr>],
             paginated = False, preview = False, retry_policy = None \<rparr>)],
       ce_sdk = (\<lambda>q ks cl n. (Suc n, Inr ())), ce_upload = (\<lambda>c q t n. (n, Inl (exn (Api ChatAPIError)))),
       ce_download = (\<lambda>c q t n. (n, Inl (exn (Api ChatAPIError)))), ce_stat = (\<lambda>n p. None),
       ce_open = (\<lambda>p n. (n, Inl (exn (Py OSErr)))), ce_write = (\<lambda>p d n. (n, Inr ())),
       ce_url = (\<lambda>u. Inl (exn (Py ValueErr))), ce_publisher = None, ce_build = (\<lambda>k v. Inr v),
       ce_read_widget = (\<lambda>d. Inr PNone), ce_read_card = (\<lambda>d. Inr PNone), ce_other = (\<lambda>v. []) \<rparr>"

definition plain_text :: create_args where
  "plain_text =
     \<lparr> ma_space = SpaceName ''S'', ma_text = Some ''hi'', ma_markup = None, ma_thread = None, ma_reply = None,
       ma_request_id = None, ma_message_id = None, ma_timeout = None, ma_accessory = None, ma_card = None,
       ma_notify = None, ma_private = None, ma_attachments = None \<rparr>"

definition fresh_run :: "(chat_request bot_effect, unit, nat, bot) run_state" where
  "fresh_run = \<lparr> rs_store = (), rs_world = 0, rs_own = new_bot, rs_trace = [] \<rparr>"



end
