(* ===== verification/Contextual.thy ===== *)
theory Contextual
  imports Dispatcher Messages
begin

text \<open>
  Contextual sending (\<open>events/references.py\<close>): \<open>send\<close> of a space and of a thread, through the Bot of the
  dispatcher or the one given, which is the creation of a message by the APP namespace of that Bot; and \<open>reply\<close> of a
  message event (\<open>events/message.py\<close>).
\<close>

section \<open>The sender\<close>

text \<open>\<open>_message_sender\<close>: the explicit object, else the one bound to the context. \<open>bots\<close> is the Bot behind an
  object, for those that have an attribute \<open>app\<close>.\<close>

definition message_sender ::
    "(ctx_val \<Rightarrow> 'b option) \<Rightarrow> ctx_val option \<Rightarrow> ctx_val option \<Rightarrow> (pyexn, 'b) result" where
  "message_sender bots current explicit =
     (case (case explicit of Some b \<Rightarrow> Some b | None \<Rightarrow> current) of
        None \<Rightarrow> Inl (exn (Py RuntimeErr))
      | Some v \<Rightarrow> (case bots v of None \<Rightarrow> Inl (exn (Py RuntimeErr)) | Some b \<Rightarrow> Inr b))"

text \<open>\<open>_send_message\<close>; \<open>fallback\<close> is the number of the reply option that falls back to a new thread. The run is
  that of the Bot that sends.\<close>

definition send_message ::
    "(ctx_val \<Rightarrow> ('w, 'v) chat_env option) \<Rightarrow> int \<Rightarrow> ctx_val option \<Rightarrow> ctx_val option \<Rightarrow> create_args \<Rightarrow> ('w, 'v) chat_io" where
  "send_message bots fallback current explicit a =
     bind_io (lift_bot (message_sender bots current explicit)) (\<lambda>env.
       create_message env APP
         (a\<lparr> ma_reply := Some (case ma_reply a of Some opt \<Rightarrow> opt | None \<Rightarrow> fallback), ma_markup := None \<rparr>))"

definition space_send ::
    "(ctx_val \<Rightarrow> ('w, 'v) chat_env option) \<Rightarrow> int \<Rightarrow> ctx_val option \<Rightarrow> space_ref \<Rightarrow> ctx_val option \<Rightarrow> create_args
     \<Rightarrow> ('w, 'v) chat_io" where
  "space_send bots fallback current sp explicit a =
     send_message bots fallback current explicit (a\<lparr> ma_space := SpaceObj sp \<rparr>)"

definition thread_send ::
    "(ctx_val \<Rightarrow> ('w, 'v) chat_env option) \<Rightarrow> int \<Rightarrow> ctx_val option \<Rightarrow> thread_ref \<Rightarrow> space_like option \<Rightarrow> ctx_val option
     \<Rightarrow> create_args \<Rightarrow> ('w, 'v) chat_io" where
  "thread_send bots fallback current th sp explicit a =
     bind_io (lift_bot (parent_space th sp)) (\<lambda>parent.
       send_message bots fallback current explicit (a\<lparr> ma_space := parent, ma_thread := Some th \<rparr>))"

text \<open>\<open>MessageEvent.reply\<close>; \<open>or_fail\<close> is the number of the reply option that fails when the thread does not exist.\<close>

definition message_reply ::
    "(ctx_val \<Rightarrow> ('w, 'v) chat_env option) \<Rightarrow> int \<Rightarrow> int \<Rightarrow> ctx_val option \<Rightarrow> event \<Rightarrow> ctx_val option \<Rightarrow> create_args
     \<Rightarrow> ('w, 'v) chat_io" where
  "message_reply bots fallback or_fail current e explicit a =
     (case ev_space e of
        None \<Rightarrow> throw (exn (Py RuntimeErr))
      | Some sp \<Rightarrow>
          (case ev_thread e of
             None \<Rightarrow> throw (exn (Py RuntimeErr))
           | Some th \<Rightarrow>
               send_message bots fallback current explicit
                 (a\<lparr> ma_space := SpaceObj sp, ma_thread := Some th,
                     ma_reply := Some (case ma_reply a of Some opt \<Rightarrow> opt | None \<Rightarrow> or_fail) \<rparr>)))"

section \<open>What a contextual send sends\<close>

text \<open>With attachments the APP namespace refuses before anything is sent.\<close>

lemma app_attachments_refused:
  assumes "has_attachments a"
  shows "sends (create_message env APP a) (\<lambda>t r. t = [] \<and> (\<exists>x. r = Inl x))"
proof -
  have g: "\<exists>x. create_guards APP mode a = Inl x" for mode
    using assms by (auto simp: create_guards_def attachment_guard_def unsupported_def api_error_def bind_res_def)
  have "sends (bind_io (lift_bot (create_guards APP mode a)) f) (\<lambda>t r. t = [] \<and> (\<exists>x. r = Inl x))" for mode f
    using g [of mode] by (intro sends_after_lift) auto
  then show ?thesis
    unfolding create_message_def using assms
    by (intro sends_after_lift) (auto intro: sends_silent [OF sends_ret])
qed

text \<open>The requests of a contextual send: none, or one to create as the application, into the space of the call and
  into its thread, without attachments.\<close>

definition app_request :: "create_args \<Rightarrow> create_request \<Rightarrow> bool" where
  "app_request a q \<longleftrightarrow>
     canonical_space (ma_space a) = Inr (cr_parent q) \<and> cr_text q = or_text (ma_text a) [] \<and> cr_attached q = [] \<and>
     cr_thread_name q = Option.bind (ma_thread a) thread_name \<and> cr_thread_key q = Option.bind (ma_thread a) thread_key \<and>
     (cr_reply q \<noteq> None \<longleftrightarrow> has_thread a) \<and> (\<forall>n. ma_reply a = Some n \<longrightarrow> cr_reply q = Some n \<or> \<not> has_thread a)"

definition app_sent :: "create_args \<Rightarrow> chat_request bot_effect list \<Rightarrow> (pyexn, 'v) result \<Rightarrow> bool" where
  "app_sent a ts r \<longleftrightarrow>
     (case r of
        Inr v \<Rightarrow> \<exists>q. ts = [Requested APP MESSAGES_CREATE (CreateMessage q)] \<and> app_request a q
      | Inl x \<Rightarrow> ts = [] \<or> (\<exists>q. ts = [RequestFailed APP MESSAGES_CREATE (CreateMessage q) (exn_cls x)] \<and> app_request a q))"

lemma app_silent: "app_sent a [] (Inl x)"
  by (simp add: app_sent_def)

lemma faithful_app: "faithful_request APP a q \<Longrightarrow> ma_reply a \<noteq> None \<Longrightarrow> app_request a q"
  by (cases "ma_reply a") (auto simp: faithful_request_def app_request_def)

lemma create_as_app:
  assumes "ma_reply a \<noteq> None"
  shows "sends (create_message env APP a) (app_sent a)"
proof (cases "has_attachments a")
  case True
  then show ?thesis by (rule sends_weaken [OF app_attachments_refused]) (auto simp: app_silent)
next
  case False
  then have "new_files (given (ma_attachments a)) = []" by (simp add: has_attachments_def)
  then have "create_sent APP a ts r \<Longrightarrow> app_sent a ts r" for ts r
    using faithful_app [OF _ assms]
    by (cases ts; cases r) (auto simp: create_sent_def app_sent_def upload_event_def Let_def)
  then show ?thesis by (intro sends_weaken [OF sends_create]) simp_all
qed

definition reply_filled :: "int \<Rightarrow> create_args \<Rightarrow> create_args" where
  "reply_filled fallback a =
     a\<lparr> ma_reply := Some (case ma_reply a of Some opt \<Rightarrow> opt | None \<Rightarrow> fallback), ma_markup := None \<rparr>"

lemma send_as_app: "sends (send_message bots fallback current explicit a) (app_sent (reply_filled fallback a))"
  unfolding send_message_def reply_filled_def [symmetric]
  by (intro sends_after_lift create_as_app app_silent) (simp add: reply_filled_def)

text \<open>A reply is the send into the thread of its event with the option that fails where no option was given, whatever
  the fallback of the other sends is; without a known space and thread nothing is sent.\<close>

lemma reply_as_app:
  "sends (message_reply bots fallback or_fail current e explicit a)
     (\<lambda>ts r. case (ev_space e, ev_thread e) of
        (Some sp, Some th) \<Rightarrow> app_sent (reply_filled or_fail (a\<lparr> ma_space := SpaceObj sp, ma_thread := Some th \<rparr>)) ts r
      | _ \<Rightarrow> ts = [] \<and> r = Inl (exn (Py RuntimeErr)))"
proof (cases "ev_space e")
  case None
  then show ?thesis by (simp add: message_reply_def sends_def throw_def)
next
  case (Some sp)
  show ?thesis
  proof (cases "ev_thread e")
    case None
    then show ?thesis using Some by (simp add: message_reply_def sends_def throw_def)
  next
    case (Some th)
    let ?opt = "case ma_reply a of Some opt \<Rightarrow> opt | None \<Rightarrow> or_fail"
    have "reply_filled fallback (a\<lparr> ma_space := SpaceObj sp, ma_thread := Some th, ma_reply := Some ?opt \<rparr>) =
        reply_filled or_fail (a\<lparr> ma_space := SpaceObj sp, ma_thread := Some th \<rparr>)"
      by (simp add: reply_filled_def split: option.split)
    then show ?thesis
      using send_as_app [of bots fallback current explicit
          "a\<lparr> ma_space := SpaceObj sp, ma_thread := Some th, ma_reply := Some ?opt \<rparr>"] Some \<open>ev_space e = Some sp\<close>
      by (simp add: message_reply_def)
  qed
qed

text \<open>C17. A contextual send in a thread. It sends nothing, or one request to create a message, always as the application:
  into the space that was given, that the thread knows or that its name says, with the name or key of the thread,
  with a reply option when the thread has either, and without attachments. It returns only when that request was
  answered, and it sends nothing when no Bot is bound or given, or no space is known.\<close>

theorem thread_send_as_app:
  assumes "wf_bot (rs_own s)" and "thread_send bots fallback current th sp explicit a s = (s', r)"
  shows "\<exists>t. rs_trace s' = rs_trace s @ t \<and>
    (case parent_space th sp of
       Inl x \<Rightarrow> t = [] \<and> r = Inl x
     | Inr parent \<Rightarrow>
         (case message_sender bots current explicit of
            Inl x \<Rightarrow> t = [] \<and> r = Inl x
          | Inr env \<Rightarrow> app_sent (reply_filled fallback (a\<lparr> ma_space := parent, ma_thread := Some th \<rparr>)) (filter is_request t) r))"
proof (cases "parent_space th sp")
  case (Inl x)
  then show ?thesis using assms(2) by (simp add: thread_send_def lift_bot_def bind_io_def throw_def)
next
  case (Inr parent)
  let ?a = "a\<lparr> ma_space := parent, ma_thread := Some th \<rparr>"
  have run: "send_message bots fallback current explicit ?a s = (s', r)"
    using assms(2) Inr by (simp add: thread_send_def lift_bot_def bind_io_def ret_def)
  show ?thesis
  proof (cases "message_sender bots current explicit")
    case (Inl x)
    then show ?thesis using run Inr by (simp add: send_message_def lift_bot_def bind_io_def throw_def)
  next
    case (Inr env)
    then show ?thesis using sendsD [OF send_as_app assms(1) run] \<open>parent_space th sp = Inr parent\<close> by auto
  qed
qed

definition bound_bots :: "ctx_val \<Rightarrow> (nat, unit) chat_env option" where
  "bound_bots v = (case v of CBot n \<Rightarrow> Some dual_env | _ \<Rightarrow> None)"

definition the_thread :: thread_ref where
  "the_thread = \<lparr> thread_name = Some ''spaces/S/threads/T'', thread_key = None, thread_space = None \<rparr>"

lemma thread_send_as_app_witness:
  "\<exists>t q. rs_trace (fst (thread_send bound_bots 1 (Some (CBot 0)) the_thread None None plain_text fresh_run)) = t \<and>
     filter is_request t = [Requested APP MESSAGES_CREATE (CreateMessage q)] \<and>
     cr_parent q = ''spaces/S'' \<and> cr_thread_name q = Some ''spaces/S/threads/T''"
proof -
  let ?m = "thread_send bound_bots 1 (Some (CBot 0)) the_thread None None plain_text fresh_run"
  obtain s' r where run: "?m = (s', r)" by (cases ?m)
  have wf: "wf_bot (rs_own fresh_run)" by (simp add: fresh_run_def new_bot_wf)
  have "snd ?m = Inr ()" by code_simp
  then have r: "r = Inr ()" using run by simp
  have p: "parent_space the_thread None = Inr (SpaceName ''spaces/S'')" by code_simp
  have c: "canonical_space (SpaceName ''spaces/S'') = Inr ''spaces/S''" by code_simp
  have b: "message_sender bound_bots (Some (CBot 0)) None = Inr dual_env" by (simp add: message_sender_def bound_bots_def)
  have t0: "rs_trace fresh_run = []" by (simp add: fresh_run_def)
  show ?thesis
    using thread_send_as_app [OF wf run] unfolding p b t0 r run
    by (auto simp: app_sent_def app_request_def reply_filled_def c the_thread_def)
qed

end
