(* ===== verification/Agents.thy ===== *)
theory Agents
  imports Effects Json Events
begin

text \<open>
  The agent bridge (\<open>experimental/ai/models.py\<close>, \<open>experimental/ai/google.py\<close>): the tool policy, the Gemini backend with
  its construction, the filter of the tools, the configuration of a request and the life of its client, and the
  small storages and doubles. What the provider library does is a parameter.
\<close>

section \<open>Contracts\<close>

record agent_context =
  ac_user :: "user_ref option"
  ac_space :: "space_ref option"
  ac_thread :: "thread_ref option"

record agent_request =
  ar_text :: string
  ar_context :: agent_context
  ar_data :: "(string, pyval) pdict"

definition request_from_event :: "event \<Rightarrow> (pyexn, agent_request) result" where
  "request_from_event e =
     (case body e of
        MessageEvent m \<Rightarrow>
          Inr \<lparr> ar_text = msg_text m,
                ar_context = \<lparr> ac_user = actor e, ac_space = ev_space e, ac_thread = ev_thread e \<rparr>, ar_data = [] \<rparr>
      | _ \<Rightarrow> Inl (exn (Py TypeErr)))"

record tool_policy =
  tp_allowed :: "string set"
  tp_write :: "string set"
  tp_allow_writes :: bool

definition effective_tools :: "tool_policy \<Rightarrow> string set" where
  "effective_tools p = (if tp_allow_writes p then tp_allowed p else tp_allowed p - tp_write p)"

text \<open>The sessions kept in memory, by key.\<close>

record agent_session =
  as_id :: string
  as_data :: "(string, pyval) pdict"

definition get_session :: "string \<Rightarrow> (string, agent_session) pdict \<Rightarrow> agent_session option" where
  "get_session k ss = dict_get ss k"

definition save_session :: "string \<Rightarrow> agent_session \<Rightarrow> (string, agent_session) pdict \<Rightarrow> (string, agent_session) pdict" where
  "save_session k x ss = dict_set k x ss"

text \<open>\<open>FakeAgent\<close>: the replies in order, the last one for ever, or an echo.\<close>

record fake_agent =
  fa_replies :: "string list"
  fa_requests :: "agent_request list"
  fa_index :: nat

definition fake_run :: "agent_request \<Rightarrow> fake_agent \<Rightarrow> fake_agent \<times> string" where
  "fake_run q f =
     (let g = f\<lparr> fa_requests := fa_requests f @ [q] \<rparr>
      in if fa_replies f \<noteq> []
         then (g\<lparr> fa_index := fa_index f + 1 \<rparr>, fa_replies f ! min (fa_index f) (length (fa_replies f) - 1))
         else (g, ''echo: '' @ ar_text q))"

section \<open>The backend\<close>

type_synonym tool_decl = "(pyval \<times> pyval) list"

record gemini =
  gm_model :: string
  gm_system :: "string option"
  gm_injected :: "nat option"
  gm_tools :: "tool_decl list"
  gm_kwargs :: "(pyval \<times> pyval) list"
  gm_owned :: "nat option"
  gm_closed :: bool

definition forbidden_kwargs :: "string list" where
  "forbidden_kwargs = [''tools'', ''tool_config'', ''automatic_function_calling'']"

definition tool_name :: "tool_decl \<Rightarrow> pyval" where
  "tool_name d = obj_get d ''name''"

definition declared_name :: "pyval \<Rightarrow> (pyexn, string) result" where
  "declared_name v =
     (case v of
        PDict d \<Rightarrow> (case tool_name d of
                      PStr s \<Rightarrow> if py_strip s = [] then Inl (exn (Py ValueErr)) else Inr s
                    | _ \<Rightarrow> Inl (exn (Py ValueErr)))
      | _ \<Rightarrow> Inl (exn (Py ValueErr)))"

definition dict_part :: "pyval \<Rightarrow> (pyval \<times> pyval) list" where
  "dict_part v = (case v of PDict d \<Rightarrow> d | _ \<Rightarrow> [])"

text \<open>\<open>__post_init__\<close>: both configurations are copied before anything is looked at.\<close>

definition gemini_init ::
    "(pyval \<Rightarrow> string) \<Rightarrow> string \<Rightarrow> string option \<Rightarrow> nat option \<Rightarrow> pyval list \<Rightarrow> (pyval \<times> pyval) list
     \<Rightarrow> (pyexn, gemini) result" where
  "gemini_init other model system client tools ks =
     bind_res (freeze_json other (PDict ks)) (\<lambda>kv.
       bind_res (freeze_json other (PList tools)) (\<lambda>tv.
         if list_ex (\<lambda>k. dict_has (dict_part kv) (PStr k)) forbidden_kwargs then Inl (exn (Py ValueErr))
         else (case tv of
                 PList ts \<Rightarrow>
                   bind_res (traverse declared_name ts) (\<lambda>names.
                     if \<not> distinct names then Inl (exn (Py ValueErr))
                     else Inr \<lparr> gm_model = model, gm_system = system, gm_injected = client, gm_tools = map dict_part ts,
                                gm_kwargs = dict_part kv, gm_owned = None, gm_closed = False \<rparr>)
               | _ \<Rightarrow> Inl (exn (Py ValueErr)))))"

text \<open>\<open>_filtered_tools\<close>.\<close>

definition filtered_tools :: "gemini \<Rightarrow> tool_policy option \<Rightarrow> tool_decl list option" where
  "filtered_tools g p =
     (case p of
        None \<Rightarrow> None
      | Some p \<Rightarrow>
          (case filter (\<lambda>d. case tool_name d of PStr s \<Rightarrow> s \<in> effective_tools p | _ \<Rightarrow> False) (gm_tools g) of
             [] \<Rightarrow> None
           | ts \<Rightarrow> Some ts))"

text \<open>The configuration of a request: what the construction was given, less the keys that belong to the policy,
  and what the backend adds.\<close>

datatype config_value = Given pyval | SystemText string | OfferedTools "tool_decl list" | CallingDisabled | TimeoutMs int

type_synonym config = "(pyval \<times> config_value) list"

definition drop_keys :: "string list \<Rightarrow> (pyval \<times> pyval) list \<Rightarrow> (pyval \<times> pyval) list" where
  "drop_keys ks d = filter (\<lambda>(k, v). k \<notin> PStr ` set ks) d"

definition put_opt :: "string \<Rightarrow> config_value option \<Rightarrow> config \<Rightarrow> config" where
  "put_opt k v c = (case v of None \<Rightarrow> c | Some x \<Rightarrow> dict_set (PStr k) x c)"

definition timeout_ms :: "rat \<Rightarrow> int" where
  "timeout_ms t = max 1 (if 0 \<le> t then \<lfloor>t * 1000\<rfloor> else \<lceil>t * 1000\<rceil>)"

definition config_of :: "gemini \<Rightarrow> tool_policy option \<Rightarrow> rat option \<Rightarrow> config" where
  "config_of g p timeout =
     (let tools = filtered_tools g p;
          c1 = put_opt ''system_instruction'' (map_option SystemText (gm_system g))
                 (map (\<lambda>(k, v). (k, Given v)) (drop_keys forbidden_kwargs (gm_kwargs g)));
          c2 = put_opt ''tools'' (map_option OfferedTools tools) c1;
          c3 = put_opt ''automatic_function_calling'' (map_option (\<lambda>ts. CallingDisabled) tools) c2
      in put_opt ''http_options'' (map_option (TimeoutMs \<circ> timeout_ms) timeout) c3)"

section \<open>Running and closing\<close>

text \<open>The provider library: whether it is installed, what makes a client, what its constructors refuse of the
  declarations and of the configuration, the request, which returns the texts of the parts of the first candidate,
  and the closers of a client, whose result may have to be awaited.\<close>

record 'w genai =
  ga_installed :: bool
  ga_client :: "'w \<Rightarrow> 'w \<times> (pyexn, nat) result"
  ga_declare :: "tool_decl \<Rightarrow> (pyexn, unit) result"
  ga_config :: "config \<Rightarrow> (pyexn, unit) result"
  ga_generate :: "nat \<Rightarrow> string \<Rightarrow> string \<Rightarrow> config \<Rightarrow> 'w \<Rightarrow> 'w \<times> (pyexn, string option list) result"
  ga_close :: "(nat \<Rightarrow> 'w \<Rightarrow> 'w \<times> (pyexn, bool) result) option"
  ga_aclose :: "(nat \<Rightarrow> 'w \<Rightarrow> 'w \<times> (pyexn, bool) result) option"
  ga_await :: "'w \<Rightarrow> 'w \<times> (pyexn, unit) result"

datatype agent_effect =
    ClientMade | ClientFailed exn_class | Asked nat config | AskFailed nat config exn_class
  | ClientClosed nat | CloseFailed nat exn_class | Awaited | AwaitFailed exn_class

type_synonym ('w, 'a) agent_io = "(agent_effect, unit, 'w, gemini, 'a) io"

definition backend :: "('w, gemini) agent_io" where
  "backend s = (s, Inr (rs_own s))"

definition lift_agent :: "(pyexn, 'a) result \<Rightarrow> ('w, 'a) agent_io" where
  "lift_agent r = (case r of Inl x \<Rightarrow> throw x | Inr v \<Rightarrow> ret v)"

definition import_genai :: "'w genai \<Rightarrow> ('w, unit) agent_io" where
  "import_genai ga = (if ga_installed ga then ret () else throw (exn (Py (AppException ''ImportError''))))"

definition client_of :: "'w genai \<Rightarrow> ('w, nat) agent_io" where
  "client_of ga =
     bind_io backend (\<lambda>g.
       case gm_injected g of
         Some n \<Rightarrow> ret n
       | None \<Rightarrow>
           (case gm_owned g of
              Some n \<Rightarrow> ret n
            | None \<Rightarrow>
                then_io (import_genai ga)
                  (bind_io (world_call (\<lambda>n. ClientMade) ClientFailed (ga_client ga)) (\<lambda>n.
                    then_io (own_io (gm_owned_update (\<lambda>_. Some n))) (ret n)))))"

definition joined_parts :: "string option list \<Rightarrow> string" where
  "joined_parts ps = concat (map (\<lambda>p. case p of Some s \<Rightarrow> s | None \<Rightarrow> []) ps)"

definition run_agent ::
    "'w genai \<Rightarrow> agent_request \<Rightarrow> tool_policy option \<Rightarrow> rat option \<Rightarrow> ('w, string) agent_io" where
  "run_agent ga q p timeout =
     bind_io backend (\<lambda>g.
       if gm_closed g then throw (exn (Py RuntimeErr))
       else bind_io (client_of ga) (\<lambda>n.
         then_io (import_genai ga)
           (then_io
              (lift_agent (case filtered_tools g p of
                 None \<Rightarrow> Inr () | Some ts \<Rightarrow> map_sum id (\<lambda>_. ()) (traverse (ga_declare ga) ts)))
              (then_io (lift_agent (ga_config ga (config_of g p timeout)))
                 (bind_io
                    (world_call (\<lambda>_. Asked n (config_of g p timeout)) (AskFailed n (config_of g p timeout))
                       (ga_generate ga n (gm_model g) (ar_text q) (config_of g p timeout)))
                    (\<lambda>ps. ret (joined_parts ps)))))))"

definition call_closer :: "nat \<Rightarrow> (nat \<Rightarrow> 'w \<Rightarrow> 'w \<times> (pyexn, bool) result) \<Rightarrow> ('w, bool) agent_io" where
  "call_closer n f = world_call (\<lambda>_. ClientClosed n) (CloseFailed n) (f n)"

definition aclose_backend :: "'w genai \<Rightarrow> ('w, unit) agent_io" where
  "aclose_backend ga =
     bind_io backend (\<lambda>g.
       if gm_closed g then ret ()
       else then_io (own_io (gm_closed_update (\<lambda>_. True)))
         (case gm_owned g of
            None \<Rightarrow> ret ()
          | Some n \<Rightarrow>
              (case (if ga_close ga \<noteq> None then ga_close ga else ga_aclose ga) of
                 None \<Rightarrow> ret ()
               | Some f \<Rightarrow>
                   bind_io (call_closer n f) (\<lambda>waits.
                     if waits then world_call (\<lambda>u. Awaited) AwaitFailed (ga_await ga) else ret ()))))"

definition close_backend :: "'w genai \<Rightarrow> ('w, unit) agent_io" where
  "close_backend ga =
     bind_io backend (\<lambda>g.
       if gm_closed g then ret ()
       else then_io (own_io (gm_closed_update (\<lambda>_. True)))
         (case gm_owned g of
            None \<Rightarrow> ret ()
          | Some n \<Rightarrow>
              (case ga_close ga of
                 None \<Rightarrow> ret ()
               | Some f \<Rightarrow> bind_io (call_closer n f) (\<lambda>waits. if waits then throw (exn (Py RuntimeErr)) else ret ()))))"

section \<open>Tools stay within the policy\<close>

definition config_kept :: "gemini \<Rightarrow> tool_policy option \<Rightarrow> config \<Rightarrow> bool" where
  "config_kept g p c \<longleftrightarrow>
     dict_get c (PStr ''tool_config'') = None \<and>
     (case dict_get c (PStr ''tools'') of
        None \<Rightarrow> dict_get c (PStr ''automatic_function_calling'') = None
      | Some v \<Rightarrow>
          dict_get c (PStr ''automatic_function_calling'') = Some CallingDisabled \<and>
          (\<exists>ts q. v = OfferedTools ts \<and> p = Some q \<and> ts \<noteq> [] \<and>
             list_all (\<lambda>d. d \<in> set (gm_tools g) \<and>
               (\<exists>n. tool_name d = PStr n \<and> n \<in> tp_allowed q \<and> (n \<in> tp_write q \<longrightarrow> tp_allow_writes q))) ts))"

definition policy_kept :: "gemini \<Rightarrow> tool_policy option \<Rightarrow> agent_effect \<Rightarrow> bool" where
  "policy_kept g p e \<longleftrightarrow> (case e of Asked n c \<Rightarrow> config_kept g p c | AskFailed n c x \<Rightarrow> config_kept g p c | _ \<Rightarrow> True)"

lemma put_opt_get: "dict_get (put_opt k v c) k' = (if k' = PStr k \<and> v \<noteq> None then v else dict_get c k')"
  by (auto simp: put_opt_def split: option.splits)

lemma dict_get_given: "dict_get (map (\<lambda>(k, v). (k, f v)) d) k = map_option f (dict_get d k)"
  by (induction d) auto

lemma drop_keys_get: "dict_get (drop_keys ks d) k = (if k \<in> PStr ` set ks then None else dict_get d k)"
  by (induction d) (auto simp: drop_keys_def split: if_splits)

lemma filtered_kept:
  assumes "filtered_tools g p = Some ts"
  shows "ts \<noteq> [] \<and> (\<exists>q. p = Some q \<and> list_all (\<lambda>d. d \<in> set (gm_tools g) \<and>
    (\<exists>n. tool_name d = PStr n \<and> n \<in> tp_allowed q \<and> (n \<in> tp_write q \<longrightarrow> tp_allow_writes q))) ts)"
proof (cases p)
  case (Some q)
  let ?ts = "filter (\<lambda>d. case tool_name d of PStr s \<Rightarrow> s \<in> effective_tools q | _ \<Rightarrow> False) (gm_tools g)"
  have ts: "ts = ?ts" "ts \<noteq> []" using assms Some by (auto simp: filtered_tools_def split: list.splits)
  have "d \<in> set (gm_tools g) \<and> (\<exists>n. tool_name d = PStr n \<and> n \<in> tp_allowed q \<and> (n \<in> tp_write q \<longrightarrow> tp_allow_writes q))"
    if "d \<in> set ts" for d
    using that unfolding ts(1) by (auto simp: effective_tools_def split: pyval.splits if_splits)
  then show ?thesis using Some ts(2) by (auto simp: list_all_iff)
qed (use assms in \<open>simp add: filtered_tools_def\<close>)

lemma config_of_kept: "config_kept g p (config_of g p timeout)"
proof (cases "filtered_tools g p")
  case None
  then show ?thesis
    by (simp add: config_kept_def config_of_def Let_def put_opt_get dict_get_given drop_keys_get forbidden_kwargs_def)
next
  case (Some ts)
  then show ?thesis using filtered_kept [OF Some]
    by (simp add: config_kept_def config_of_def Let_def put_opt_get dict_get_given drop_keys_get forbidden_kwargs_def)
qed

text \<open>The judgement: the configuration of the backend stays, and what is noted keeps the policy.\<close>

definition keeps :: "gemini \<Rightarrow> tool_policy option \<Rightarrow> ('w, 'a) agent_io \<Rightarrow> bool" where
  "keeps g p m \<longleftrightarrow>
     (\<forall>s s' r. m s = (s', r) \<longrightarrow> (\<exists>t. rs_trace s' = rs_trace s @ t \<and> list_all (policy_kept g p) t))"

lemma keeps_ret: "keeps g p (ret v)"
  by (simp add: keeps_def ret_def)

lemma keeps_throw: "keeps g p (throw x)"
  by (simp add: keeps_def throw_def)

lemma keeps_own: "keeps g p (own_io f)"
  by (simp add: keeps_def own_io_def)

lemma keeps_backend: "keeps g p backend"
  by (simp add: keeps_def backend_def)

lemma keeps_lift: "keeps g p (lift_agent r)"
  by (cases r) (simp_all add: lift_agent_def keeps_ret keeps_throw)

lemma keeps_world:
  "(\<And>v. policy_kept g p (good v)) \<Longrightarrow> (\<And>c. policy_kept g p (bad c)) \<Longrightarrow> keeps g p (world_call good bad f)"
  by (auto simp: keeps_def world_call_def split: prod.splits sum.splits)

lemma keeps_bind:
  assumes "keeps g p m" and "\<And>v. keeps g p (f v)"
  shows "keeps g p (bind_io m f)"
  unfolding keeps_def
proof (intro allI impI)
  fix s s' r assume run: "bind_io m f s = (s', r)"
  obtain s1 q where m: "m s = (s1, q)" by (cases "m s")
  then obtain t1 where t1: "rs_trace s1 = rs_trace s @ t1" "list_all (policy_kept g p) t1"
    using assms(1) unfolding keeps_def by blast
  show "\<exists>t. rs_trace s' = rs_trace s @ t \<and> list_all (policy_kept g p) t"
  proof (cases q)
    case (Inl x)
    then show ?thesis using run m t1 by (auto simp: bind_io_def)
  next
    case (Inr v)
    then have "f v s1 = (s', r)" using run m by (simp add: bind_io_def)
    then obtain t2 where "rs_trace s' = rs_trace s1 @ t2" "list_all (policy_kept g p) t2"
      using assms(2) unfolding keeps_def by blast
    then show ?thesis using t1 by auto
  qed
qed

lemma keeps_then: "keeps g p m \<Longrightarrow> keeps g p n \<Longrightarrow> keeps g p (then_io m n)"
  unfolding then_io_def by (rule keeps_bind)

lemma keeps_import: "keeps g p (import_genai ga)"
  by (simp add: import_genai_def keeps_ret keeps_throw)

lemma keeps_client: "keeps g p (client_of ga)"
  unfolding client_of_def
  by (auto intro!: keeps_bind keeps_then keeps_backend keeps_ret keeps_import keeps_own keeps_world
      simp: policy_kept_def split: option.split)

text \<open>C32. Whatever the backend was constructed with and whatever is asked of it, a request to the provider offers only
  declared tools that the policy of the request allows, no writing tool unless the policy allows writes, and no
  tool without a policy; whenever tools are offered automatic calling is disabled, and no key of the caller
  reaches the configuration of the tools. A closed backend asks nothing.\<close>

theorem tools_within_policy:
  "case run_agent ga q p timeout s of (s', r) \<Rightarrow>
     \<exists>t. rs_trace s' = rs_trace s @ t \<and> list_all (policy_kept (rs_own s) p) t \<and>
       (if gm_closed (rs_own s) then t = [] \<and> r = Inl (exn (Py RuntimeErr)) else True)"
proof (cases "gm_closed (rs_own s)")
  case True
  then show ?thesis by (simp add: run_agent_def bind_io_def backend_def throw_def)
next
  case False
  let ?g = "rs_own s"
  let ?m = "bind_io (client_of ga) (\<lambda>n.
         then_io (import_genai ga)
           (then_io
              (lift_agent (case filtered_tools ?g p of
                 None \<Rightarrow> Inr () | Some ts \<Rightarrow> map_sum id (\<lambda>_. ()) (traverse (ga_declare ga) ts)))
              (then_io (lift_agent (ga_config ga (config_of ?g p timeout)))
                 (bind_io
                    (world_call (\<lambda>_. Asked n (config_of ?g p timeout)) (AskFailed n (config_of ?g p timeout))
                       (ga_generate ga n (gm_model ?g) (ar_text q) (config_of ?g p timeout)))
                    (\<lambda>ps. ret (joined_parts ps))))))"
  have run: "run_agent ga q p timeout s = ?m s" using False by (simp add: run_agent_def bind_io_def backend_def)
  have "keeps ?g p ?m"
    by (intro keeps_bind keeps_then keeps_client keeps_import keeps_lift keeps_ret keeps_world)
      (simp_all add: policy_kept_def config_of_kept)
  moreover obtain s' r where m: "?m s = (s', r)" by (cases "?m s")
  ultimately show ?thesis unfolding run m keeps_def using False m by auto
qed

end
