(* ===== verification/Spec2Isabelle.thy ===== *)
theory Spec2Isabelle
  imports FsmRecord RedisClaims RedisRecords RedisFsm Dispatcher Lifespans PubSub Deliveries KeyedLocks RunnerLife Responses WorkspaceEvents
    Ingress Actions Forms Media MediaRest Cards CardAssets GcsPublisher Providers Bot Messages Contextual Agents
begin

text \<open>
  Verification of chattice, a Python framework for Google Chat applications (\<open>src/src/chattice\<close>; every path below is
  relative to that directory). A request of Google Chat or a message of Pub/Sub is verified, parsed into an event,
  routed by a dispatcher through a tree of routers to a handler of the application, and what the handler answers is
  returned or sent with the Chat API under the identity of the application or of a user. Around that path stand
  stores: claims that keep a redelivered message from being handled twice, and the state of workflows, each in memory
  and in Redis.

  \<^bold>\<open>How the code is modelled.\<close> A definition has the name of the function or class it translates, or one close to it. A class is a
  record, an enumeration or union a datatype, a Python exception a value \<open>pyexn\<close> with its class (theory \<open>Exceptions\<close>), code
  that may raise a function into \<open>(pyexn, 'a) result\<close> with \<open>Inl\<close> for what was raised, a Python dict an association list in
  insertion order (theory \<open>Prelude\<close>), a Python value at a boundary of the framework a \<open>pyval\<close> (theory \<open>Values\<close>), an integer
  an \<open>int\<close>, a time or a time out a rational number. Code that talks to several services is an \<open>io\<close> (theory \<open>Effects\<close>): it changes a
  store, the world outside and its own state, records its effects in a trace, and ends with a value or an exception.
  What the code only calls, that is the Google client libraries, pydantic, the file system, the handlers of an application,
  \<open>inspect\<close> and \<open>typing\<close>, is a parameter: an argument, or a field of an environment record, of the definitions that use it.

  \<^bold>\<open>Foundations.\<close>
  \<^item> \<open>Prelude\<close>, \<open>Exceptions\<close>, \<open>Values\<close>, \<open>Effects\<close>: results, dictionaries, the exception classes with \<open>isinstance\<close>, Python
    values, strings and numbers, effects. Their lemmas carry the proofs of the components.
  \<^item> \<open>Json\<close> (\<open>_json_snapshot.py\<close>): the snapshot of JSON-like data and its two copies.
  \<^item> \<open>Events\<close> (\<open>events/\<close>): references, form inputs, the event classes and the views of a message.

  \<^bold>\<open>Ingress.\<close>
  \<^item> \<open>Adapter\<close> (\<open>adapters/google_chat/\<close>): both envelope families, form inputs and the parser. Shown: which class and fields every parsed
    event has, and which exceptions leave the parser.
  \<^item> \<open>PubSub\<close> (\<open>transports/pubsub.py\<close>, \<open>transports/http/request.py\<close>, \<open>verifier.py\<close>): push envelopes, the snapshot of a request, both
    verifiers, which accept nothing but a checked token.
  \<^item> \<open>WorkspaceEvents\<close> (\<open>workspace_events/\<close>): both forms of an event, which parse to the same, and the events router.
  \<^item> \<open>Responses\<close> (\<open>transports/http/response.py\<close>, the serializer of \<open>integrations/fastapi/router.py\<close>): no reply the response
    capabilities of the event do not allow.
  \<^item> \<open>Ingress\<close> (\<open>integrations/fastapi/router.py\<close>): the endpoints and the coordination of push deliveries, a refinement of
    at-least-once delivery over the claim store, and the contract pull and push share.
  \<^item> \<open>Delivery\<close>, \<open>Deliveries\<close>, \<open>KeyedLocks\<close>, \<open>RunnerLife\<close> (\<open>transports/pubsub_runner.py\<close>): one pull delivery from the claim to its
    settlement; what settles it and what justifies an acknowledgement; the lock registry of card updates as a transition
    system; the scheduling of attempts against \<open>close\<close>, and a run with its teardown.

  \<^bold>\<open>Dispatch.\<close>
  \<^item> \<open>Filters\<close>, \<open>Magic\<close> (\<open>filters/\<close>), \<open>Actions\<close> (\<open>actions.py\<close>), \<open>Forms\<close> (\<open>forms.py\<close>): filters, magic expressions, typed action data and forms.
  \<^item> \<open>Capabilities\<close> (\<open>capabilities/\<close>): what an event allows as a response, the registry of operations, the preflight.
  \<^item> \<open>Dependency\<close>, \<open>Observers\<close>, \<open>Routers\<close>, \<open>Dispatcher\<close>, \<open>Lifespans\<close> (\<open>dispatcher/\<close>, the hooks of \<open>observability.py\<close>): the plan of a handler and its
    arguments, middleware, the router tree, which stays a forest, the routing passes with their failures, \<open>feed_update\<close>,
    start with rollback and shutdown.

  \<^bold>\<open>Stores.\<close> Each component that relies on a store states the contract as a locale, interpreted on every store that provides it.
  \<^item> \<open>Idempotency\<close>, \<open>RedisServer\<close>, \<open>RedisClaims\<close> (\<open>idempotency.py\<close>): the in-process claims; a server with WATCH, MULTI and EXEC on a key
    that can expire, and its clients, interleaved command by command; every Redis call takes effect at one point as the
    operation of the in-process store.
  \<^item> \<open>Fsm\<close>, \<open>FsmRecord\<close>, \<open>RedisRecords\<close>, \<open>RedisFsm\<close> (\<open>fsm/\<close>): keys, contexts and state filters; the six methods in memory, over records with
    optimistic concurrency, and over Redis, which agree; record stores in memory and in Redis, where no update is lost as
    long as no record has a time to live.

  \<^bold>\<open>Outbound.\<close>
  \<^item> \<open>Bot\<close> (\<open>client/bot.py\<close>, \<open>executor.py\<close>, \<open>config.py\<close>, \<open>errors.py\<close>), \<open>Providers\<close> (\<open>auth/providers.py\<close>): credentials and clients of both identities, the
    executor, which sends on the client of the identity asked for only, warm-up and close.
  \<^item> \<open>Resources\<close>, \<open>Messages\<close> (\<open>client/resources/\<close>, \<open>client/paging.py\<close>), \<open>Contextual\<close> (\<open>send\<close> of \<open>events/references.py\<close>, \<open>reply\<close> of
    \<open>events/message.py\<close>): the operations, with every check before anything is sent.
  \<^item> \<open>Media\<close>, \<open>MediaRest\<close> (\<open>media/\<close>, \<open>client/_names.py\<close>), \<open>Cards\<close>, \<open>CardAssets\<close> (\<open>cards/\<close>), \<open>GcsPublisher\<close> (\<open>integrations/gcs/\<close>): names, files and their
    transfer, cards and their JSON, the publication of local pictures.
  \<^item> \<open>Agents\<close> (\<open>experimental/ai/\<close>): tool policies, and the Gemini backend, which never offers a tool outside the policy.

  \<^bold>\<open>Bounds and fuel.\<close> \<open>contains\<close> and \<open>walk\<close> of the router tree recur on the number of routers, which bounds the depth of a forest. The
  class hierarchy is followed six steps, which reaches the root from every class. A call of the six-method adapter is bounded by four
  accesses to the in-process store, a call of the Redis claims that runs alone by seven commands. A renewal loop is run for
  a given number of periods, and the results hold for each number. \<open>collect\<close> has the fuel \<open>max 1 limit\<close>, or more than the number of items when there is no limit,
  and a download a given number of chunks, where the value \<open>None\<close> is the download that has not ended.

  \<^bold>\<open>Concurrency.\<close> Coroutines are interleaved where the code awaits: the accesses to a store in \<open>FsmRecord\<close>, the commands in the Redis theories, the
  steps of the lock registry, the points between which another thread can run in \<open>RunnerLife\<close>. The other components are modelled
  one call at a time.

  \<^bold>\<open>Not modelled.\<close> The doubles and factories of \<open>testing/\<close>, the examples and the re-exports of the packages; \<open>cards/status.py\<close> and
  \<open>cards/serialization.py\<close>, whose results are the JSON values \<open>Responses\<close> is given; \<open>transports/http/adapter.py\<close>, \<open>assets.py\<close>,
  \<open>interaction.py\<close> and \<open>middleware.py\<close>, which are protocols and one-line wrappers; logging, timing and signal handlers;
  the closing of Redis clients.

  \<^bold>\<open>What the proofs brought up.\<close> With a time to live the revision of a record starts again, and an update can be lost (\<open>FsmRecord\<close>). A delivery
  can be both acknowledged and rejected, or neither (\<open>Deliveries\<close>). The semaphore of the runner is never acquired, and \<open>close\<close> can
  miss a scheduled attempt (\<open>RunnerLife\<close>). An update of the Redis storage undoes a \<open>finish\<close> it overlaps (\<open>RedisFsm\<close>). A malformed epoch leaves the
  parser as a plain ValueError (\<open>Adapter\<close>). A private message can be sent as the user (\<open>Messages\<close>), and \<open>close\<close> of the Bot can leave transports
  open (\<open>Bot\<close>).
\<close>

end
